(* ===== verification/Prelude.thy ===== *)
theory Prelude
  imports Main "HOL-Library.AList" "HOL-Library.Word" "HOL-Library.List_Lexorder" "HOL-Library.Char_ord"
begin

text \<open>
  The prelude of the development: what the Go sources use of the language and of its standard
  library, and the lemmas about it that the component theories share.

  \<^item> A call that may panic has the result type \<open>go_panic + 'a\<close>; \<^term>\<open>Inl\<close> is the panic and
    \<open>bindR\<close> sequences such calls.
  \<^item> A Go string is a list of bytes, here \<^typ>\<open>string\<close>. The functions of package \<open>strings\<close> that
    the sources call (\<open>Split\<close>, \<open>SplitN\<close>, \<open>Join\<close>, \<open>Trim\<close>, \<open>TrimSpace\<close>, \<open>HasPrefix\<close>, \<open>Contains\<close>,
    \<open>Replace\<close>, \<open>TrimSuffix\<close>, \<open>LastIndex\<close>) are the \<open>go_\<dots>\<close> functions below. White space and case
    classes are those of ASCII.
  \<^item> A Go map is an association list with distinct keys. Go iterates over a map in an unspecified
    order; the order of the list is the order of one iteration. The locale \<open>go_map\<close> states the
    laws clients rely on.
  \<^item> A locale \<open>step_system\<close> for the state machines: an invariant that the initial states have
    and every step keeps holds in every reachable state. Its extension \<open>terminating_system\<close> adds a
    well-founded order for the steps that come to an end.
\<close>

named_theorems go_simps \<open>unfolding and simplification facts of the Go runtime model\<close>


section \<open>Panics\<close>

datatype go_panic = IndexOutOfRange | SliceBounds | NilDeref | NilMapWrite | FatalExit | ExplicitPanic

type_synonym 'a go = "go_panic + 'a"

definition bindR :: "'e + 'a \<Rightarrow> ('a \<Rightarrow> 'e + 'b) \<Rightarrow> 'e + 'b" where
  "bindR x f = (case x of Inl e \<Rightarrow> Inl e | Inr a \<Rightarrow> f a)"

text \<open>Reading a slice at an index: Go panics out of range.\<close>

definition at :: "'a list \<Rightarrow> nat \<Rightarrow> 'a go" where
  "at xs i = (if i < length xs then Inr (xs ! i) else Inl IndexOutOfRange)"


section \<open>Strings\<close>

fun hasPrefix :: "string \<Rightarrow> string \<Rightarrow> bool" where
  "hasPrefix [] s = True"
| "hasPrefix (p # ps) [] = False"
| "hasPrefix (p # ps) (c # cs) = (p = c \<and> hasPrefix ps cs)"

fun contains :: "string \<Rightarrow> string \<Rightarrow> bool" where
  "contains sub [] = (sub = [])"
| "contains sub (c # cs) = (hasPrefix sub (c # cs) \<or> contains sub cs)"

text \<open>\<open>strings.Split\<close> with a separator that is not empty, as every call in the sources has it.\<close>

function go_split_acc :: "string \<Rightarrow> string \<Rightarrow> string \<Rightarrow> string list" where
  "go_split_acc sep acc s =
     (case s of
        [] \<Rightarrow> [acc]
      | c # cs \<Rightarrow>
          if sep \<noteq> [] \<and> hasPrefix sep s
          then acc # go_split_acc sep [] (drop (length sep) s)
          else go_split_acc sep (acc @ [c]) cs)"
  by pat_completeness auto
termination
  by (relation "measure (\<lambda>(sep, acc, s). length s)") auto

declare go_split_acc.simps [simp del]

definition go_split :: "string \<Rightarrow> string \<Rightarrow> string list" where
  "go_split s sep = go_split_acc sep [] s"

text \<open>What precedes and what follows the first occurrence of a substring.\<close>

fun cut :: "string \<Rightarrow> string \<Rightarrow> (string \<times> string) option" where
  "cut sep [] = (if sep = [] then Some ([], []) else None)"
| "cut sep (c # cs) =
     (if hasPrefix sep (c # cs) then Some ([], drop (length sep) (c # cs))
      else map_option (\<lambda>(a, b). (c # a, b)) (cut sep cs))"

text \<open>\<open>strings.SplitN(s, sep, 2)\<close>\<close>

definition go_splitN2 :: "string \<Rightarrow> string \<Rightarrow> string list" where
  "go_splitN2 s sep = (case cut sep s of None \<Rightarrow> [s] | Some (a, b) \<Rightarrow> [a, b])"

text \<open>\<open>strings.Replace(s, old, new, 1)\<close>\<close>

definition go_replace1 :: "string \<Rightarrow> string \<Rightarrow> string \<Rightarrow> string" where
  "go_replace1 s old new = (case cut old s of None \<Rightarrow> s | Some (a, b) \<Rightarrow> a @ new @ b)"

fun go_join :: "string list \<Rightarrow> string \<Rightarrow> string" where
  "go_join [] sep = []"
| "go_join [x] sep = x"
| "go_join (x # y # ys) sep = x @ sep @ go_join (y # ys) sep"

definition trimBy :: "(char \<Rightarrow> bool) \<Rightarrow> string \<Rightarrow> string" where
  "trimBy p s = rev (dropWhile p (rev (dropWhile p s)))"

text \<open>\<open>strings.Trim(s, cutset)\<close>\<close>

definition go_trim :: "string \<Rightarrow> string \<Rightarrow> string" where
  "go_trim s cutset = trimBy (\<lambda>c. c \<in> set cutset) s"

definition is_space :: "char \<Rightarrow> bool" where
  "is_space c \<longleftrightarrow> c \<in> set [CHR 0x09, CHR 0x0A, CHR 0x0B, CHR 0x0C, CHR 0x0D, CHR 0x20]"

definition go_trimSpace :: "string \<Rightarrow> string" where
  "go_trimSpace s = trimBy is_space s"

definition go_trimPrefix :: "string \<Rightarrow> string \<Rightarrow> string" where
  "go_trimPrefix s p = (if hasPrefix p s then drop (length p) s else s)"

definition go_trimSuffix :: "string \<Rightarrow> string \<Rightarrow> string" where
  "go_trimSuffix s suf =
     (if hasPrefix (rev suf) (rev s) then take (length s - length suf) s else s)"

definition is_digit :: "char \<Rightarrow> bool" where
  "is_digit c \<longleftrightarrow> CHR ''0'' \<le> c \<and> c \<le> CHR ''9''"

definition is_letter :: "char \<Rightarrow> bool" where
  "is_letter c \<longleftrightarrow> (CHR ''a'' \<le> c \<and> c \<le> CHR ''z'') \<or> (CHR ''A'' \<le> c \<and> c \<le> CHR ''Z'')"

text \<open>Decimal output of an integer, as \<open>strconv.FormatInt\<close> and the verb \<open>%d\<close> print it.\<close>

definition digit_char :: "int \<Rightarrow> char" where
  "digit_char d = char_of (48 + nat d)"

function show_pos :: "int \<Rightarrow> string" where
  "show_pos n = (if n < 10 then [digit_char n] else show_pos (n div 10) @ [digit_char (n mod 10)])"
  by pat_completeness auto
termination
  by (relation "measure nat") auto

declare show_pos.simps [simp del]

definition show_int :: "int \<Rightarrow> string" where
  "show_int n = (if n < 0 then CHR ''-'' # show_pos (- n) else show_pos n)"


section \<open>Maps\<close>

type_synonym ('k, 'v) gomap = "('k \<times> 'v) list"

definition mget :: "('k, 'v) gomap \<Rightarrow> 'k \<Rightarrow> 'v option" where
  "mget m k = map_of m k"

definition mput :: "('k, 'v) gomap \<Rightarrow> 'k \<Rightarrow> 'v \<Rightarrow> ('k, 'v) gomap" where
  "mput m k v = AList.update k v m"

definition mdel :: "('k, 'v) gomap \<Rightarrow> 'k \<Rightarrow> ('k, 'v) gomap" where
  "mdel m k = AList.delete k m"

definition mwf :: "('k, 'v) gomap \<Rightarrow> bool" where
  "mwf m \<longleftrightarrow> distinct (map fst m)"

text \<open>Storing every entry of a second map, as \<open>for k, v := range n { m[k] = v }\<close> does.\<close>

definition mputs :: "('k, 'v) gomap \<Rightarrow> ('k, 'v) gomap \<Rightarrow> ('k, 'v) gomap" where
  "mputs m n = foldl (\<lambda>a (k, v). mput a k v) m n"

text \<open>\<open>reflect.DeepEqual\<close> of two maps.\<close>

definition meq :: "('k, 'v) gomap \<Rightarrow> ('k, 'v) gomap \<Rightarrow> bool" where
  "meq m n \<longleftrightarrow> length m = length n \<and> (\<forall>(k, v) \<in> set m. mget n k = Some v)"


section \<open>Lemmas: results\<close>

lemma bindR_simps [simp, go_simps]:
  "bindR (Inr a) f = f a" "bindR (Inl e) f = Inl e"
  by (simp_all add: bindR_def)

lemma bindR_Inr_iff [go_simps]:
  "bindR x f = Inr b \<longleftrightarrow> (\<exists>a. x = Inr a \<and> f a = Inr b)"
  by (cases x) auto

lemma bindR_assoc: "bindR (bindR x f) g = bindR x (\<lambda>a. bindR (f a) g)"
  by (cases x) auto

lemma at_Inr_iff: "at xs i = Inr y \<longleftrightarrow> i < length xs \<and> xs ! i = y"
  by (auto simp: at_def)


section \<open>Lemmas: strings\<close>

lemma hasPrefix_append [simp]: "hasPrefix p (p @ s)"
  by (induction p) auto

lemma hasPrefixD: "hasPrefix p s \<Longrightarrow> \<exists>r. s = p @ r"
  by (induction p s rule: hasPrefix.induct) auto

lemma hasPrefix_iff: "hasPrefix p s \<longleftrightarrow> (\<exists>r. s = p @ r)"
  using hasPrefixD by auto

lemma hasPrefix_single [simp]: "hasPrefix [c] s \<longleftrightarrow> (\<exists>r. s = c # r)"
  by (simp add: hasPrefix_iff)

lemma contains_iff: "contains sub s \<longleftrightarrow> (\<exists>a b. s = a @ sub @ b)"
proof (induction s)
  case Nil
  then show ?case by auto
next
  case (Cons c cs)
  have "(\<exists>a b. c # cs = a @ sub @ b) \<longleftrightarrow> hasPrefix sub (c # cs) \<or> (\<exists>a b. cs = a @ sub @ b)"
    (is "?l \<longleftrightarrow> ?r")
  proof
    assume ?l
    then obtain a b where ab: "c # cs = a @ sub @ b" by blast
    show ?r
    proof (cases a)
      case Nil
      with ab show ?thesis by (auto simp: hasPrefix_iff)
    next
      case (Cons x xs)
      with ab show ?thesis by auto
    qed
  next
    assume ?r
    then show ?l by (metis append_Cons append_Nil hasPrefix_iff)
  qed
  with Cons.IH show ?case by simp
qed

lemma contains_single [simp]: "contains [c] s \<longleftrightarrow> c \<in> set s"
  by (auto simp: contains_iff in_set_conv_decomp)

lemma cut_None_iff: "cut sep s = None \<longleftrightarrow> \<not> contains sep s"
  by (induction sep s rule: cut.induct) auto

lemma cut_SomeD: "cut sep s = Some (a, b) \<Longrightarrow> s = a @ sep @ b"
proof (induction sep s arbitrary: a b rule: cut.induct)
  case (1 sep)
  then show ?case by (simp split: if_splits)
next
  case (2 sep c cs)
  show ?case
  proof (cases "hasPrefix sep (c # cs)")
    case True
    then obtain r where r: "c # cs = sep @ r" by (auto simp: hasPrefix_iff)
    from 2(2) True have "a = []" "b = drop (length sep) (c # cs)" by auto
    with r show ?thesis by simp
  next
    case False
    with 2(2) obtain a' where "cut sep cs = Some (a', b)" "a = c # a'" by auto
    with 2(1)[OF False] show ?thesis by simp
  qed
qed

text \<open>The first occurrence is at the front part when the front part meets no earlier occurrence.\<close>

lemma cut_skip: "c \<notin> set a \<Longrightarrow> cut (c # sep) (a @ (c # sep) @ b) = Some (a, b)"
  by (induction a) auto

lemma go_split_acc_Nil [simp]: "go_split_acc sep acc [] = [acc]"
  by (simp add: go_split_acc.simps)

lemma go_split_acc_Cons:
  "go_split_acc sep acc (c # cs) =
     (if sep \<noteq> [] \<and> hasPrefix sep (c # cs)
      then acc # go_split_acc sep [] (drop (length sep) (c # cs))
      else go_split_acc sep (acc @ [c]) cs)"
  by (simp add: go_split_acc.simps)

lemma go_split_acc_none:
  "c \<notin> set s \<Longrightarrow> go_split_acc [c] acc s = [acc @ s]"
  by (induction s arbitrary: acc) (auto simp: go_split_acc_Cons)

lemma go_split_acc_char:
  "c \<notin> set a \<Longrightarrow> go_split_acc [c] acc (a @ c # b) = (acc @ a) # go_split_acc [c] [] b"
  by (induction a arbitrary: acc) (auto simp: go_split_acc_Cons)

lemma go_split_none [simp]: "c \<notin> set s \<Longrightarrow> go_split s [c] = [s]"
  by (simp add: go_split_def go_split_acc_none)

lemma go_split_char: "c \<notin> set a \<Longrightarrow> go_split (a @ c # b) [c] = a # go_split b [c]"
  by (simp add: go_split_def go_split_acc_char)

lemma go_split_char_first [simp]: "go_split (c # b) [c] = [] # go_split b [c]"
  using go_split_char [of c "[]" b] by simp

lemma go_split_acc_not_Nil [simp]: "go_split_acc sep acc s \<noteq> []"
  by (induction sep acc s rule: go_split_acc.induct)
    (subst go_split_acc.simps, auto split: list.splits)

lemma go_split_not_Nil [simp]: "go_split s sep \<noteq> []"
  by (simp add: go_split_def)

lemma go_split_nth0: "at (go_split s sep) 0 = Inr (hd (go_split s sep))"
  by (simp add: at_def hd_conv_nth)

text \<open>Splitting a joined list at the separator gives the list back.\<close>

lemma go_split_join:
  "xs \<noteq> [] \<Longrightarrow> \<forall>x \<in> set xs. c \<notin> set x \<Longrightarrow> go_split (go_join xs [c]) [c] = xs"
  by (induction xs "[c]" rule: go_join.induct) (auto simp: go_split_char)

lemma go_split_acc_no_sep:
  "c \<notin> set acc \<Longrightarrow> x \<in> set (go_split_acc [c] acc s) \<Longrightarrow> c \<notin> set x"
proof (induction s arbitrary: acc)
  case Nil
  then show ?case by (simp add: go_split_acc.simps)
next
  case (Cons d s)
  show ?case
  proof (cases "d = c")
    case True
    with Cons.prems Cons.IH [of "[]"] show ?thesis by (auto simp: go_split_acc_Cons)
  next
    case False
    with Cons.prems Cons.IH [of "acc @ [d]"] show ?thesis by (auto simp: go_split_acc_Cons)
  qed
qed

lemma go_split_no_sep: "x \<in> set (go_split s [c]) \<Longrightarrow> c \<notin> set x"
  using go_split_acc_no_sep [of c "[]"] by (simp add: go_split_def)

lemma go_join_Cons: "xs \<noteq> [] \<Longrightarrow> go_join (x # xs) sep = x @ sep @ go_join xs sep"
  by (cases xs) auto

lemma go_split_acc_hit:
  assumes "sep \<noteq> []"
  shows "go_split_acc sep acc (sep @ r) = acc # go_split_acc sep [] r"
proof (cases sep)
  case Nil
  with assms show ?thesis by simp
next
  case (Cons c cs)
  then have "hasPrefix sep (c # cs @ r)" by (metis append_Cons hasPrefix_append)
  with Cons show ?thesis by (simp add: go_split_acc_Cons)
qed

lemma go_join_split_acc: "go_join (go_split_acc sep acc s) sep = acc @ s"
proof (induction sep acc s rule: go_split_acc.induct)
  case (1 sep acc s)
  show ?case
  proof (cases s)
    case Nil
    then show ?thesis by (simp add: go_split_acc.simps)
  next
    case (Cons c cs)
    show ?thesis
    proof (cases "sep \<noteq> [] \<and> hasPrefix sep s")
      case True
      then obtain r where r: "s = sep @ r" by (auto simp: hasPrefix_iff)
      have "go_split_acc sep acc s = acc # go_split_acc sep [] r"
        using True r by (simp add: go_split_acc_hit)
      then show ?thesis
        using 1(1)[OF Cons True] r by (simp add: go_join_Cons)
    next
      case False
      with Cons 1(2)[OF Cons False] show ?thesis
        by (auto simp: go_split_acc_Cons)
    qed
  qed
qed

lemma go_join_split: "go_join (go_split s sep) sep = s"
  by (simp add: go_split_def go_join_split_acc)

lemma dropWhile_notin_hd: "xs = [] \<or> \<not> p (hd xs) \<Longrightarrow> dropWhile p xs = xs"
  by (cases xs) auto

lemma trimBy_id:
  "s = [] \<or> (\<not> p (hd s) \<and> \<not> p (last s)) \<Longrightarrow> trimBy p s = s"
  by (auto simp: trimBy_def dropWhile_notin_hd hd_rev)

lemma trimBy_pad:
  assumes "\<forall>c \<in> set l. p c" "\<forall>c \<in> set r. p c"
  shows "trimBy p (l @ s @ r) = trimBy p s"
proof (cases "\<forall>c \<in> set s. p c")
  case True
  then have "dropWhile p s = []"
    by (simp add: dropWhile_eq_Nil_conv)
  moreover have "dropWhile p (l @ s @ r) = []"
    using True assms by (simp only: dropWhile_eq_Nil_conv set_append) blast
  ultimately show ?thesis by (simp only: trimBy_def)
next
  case False
  then obtain x where x: "x \<in> set s" "\<not> p x" by blast
  then have "dropWhile p (l @ s @ r) = dropWhile p s @ r"
    using assms(1) by (simp add: dropWhile_append1 dropWhile_append2)
  then show ?thesis
    using assms(2) dropWhile_append2 [of "rev r" p "rev (dropWhile p s)"] by (simp add: trimBy_def)
qed

lemma set_trimBy: "set (trimBy p s) \<subseteq> set s"
  by (auto simp: trimBy_def dest!: set_dropWhileD)

lemma go_trimSuffix_append [simp]: "go_trimSuffix (s @ suf) suf = s"
  by (simp add: go_trimSuffix_def)


section \<open>Maps: the interface and its implementation\<close>

text \<open>
  What the components use of a Go map: lookup after a store and after a deletion, and that the
  representation invariant is kept. \<open>stores\<close> is a \<open>range\<close> loop that copies entries.
\<close>

locale go_map =
  fixes get :: "'m \<Rightarrow> 'k \<Rightarrow> 'v option"
    and put :: "'m \<Rightarrow> 'k \<Rightarrow> 'v \<Rightarrow> 'm"
    and del :: "'m \<Rightarrow> 'k \<Rightarrow> 'm"
    and emp :: 'm
    and wf :: "'m \<Rightarrow> bool"
  assumes get_emp: "get emp k = None"
    and get_put: "get (put m k v) k' = (if k' = k then Some v else get m k')"
    and get_del: "wf m \<Longrightarrow> get (del m k) k' = (if k' = k then None else get m k')"
    and wf_emp: "wf emp"
    and wf_put: "wf m \<Longrightarrow> wf (put m k v)"
    and wf_del: "wf m \<Longrightarrow> wf (del m k)"
begin

definition stores :: "'m \<Rightarrow> ('k \<times> 'v) list \<Rightarrow> 'm" where
  "stores m kvs = foldl (\<lambda>a (k, v). put a k v) m kvs"

lemma stores_Nil: "stores m [] = m"
  by (simp add: stores_def)

lemma stores_Cons: "stores m ((k, v) # kvs) = stores (put m k v) kvs"
  by (simp add: stores_def)

lemma get_stores: "get (stores m kvs) k = (case map_of (rev kvs) k of Some v \<Rightarrow> Some v | None \<Rightarrow> get m k)"
  by (induction kvs arbitrary: m)
    (auto simp: stores_Nil stores_Cons get_put map_add_def split: option.splits)

lemma get_stores_distinct:
  "distinct (map fst kvs) \<Longrightarrow>
   get (stores m kvs) k = (case map_of kvs k of Some v \<Rightarrow> Some v | None \<Rightarrow> get m k)"
proof -
  assume "distinct (map fst kvs)"
  then have "map_of (rev kvs) = map_of kvs"
    by (intro map_of_inject_set [THEN iffD2]) (auto simp: rev_map [symmetric])
  then show ?thesis by (simp add: get_stores)
qed

lemma wf_stores: "wf m \<Longrightarrow> wf (stores m kvs)"
  by (induction kvs arbitrary: m) (auto simp: stores_Nil stores_Cons wf_put)

lemma put_put_same: "get (put (put m k v) k v') = get (put m k v')"
  by (auto simp: get_put fun_eq_iff)

end

interpretation gm: go_map mget mput mdel "[]" mwf
  by unfold_locales
    (auto simp: mget_def mput_def mdel_def mwf_def update_conv' delete_conv' distinct_update distinct_delete)

lemma mputs_eq_stores: "mputs m n = gm.stores m n"
  by (simp add: mputs_def gm.stores_def)

lemmas mget_simps [simp, go_simps] = gm.get_emp gm.get_put

lemma mget_mputs:
  "mwf n \<Longrightarrow> mget (mputs m n) k = (case mget n k of Some v \<Rightarrow> Some v | None \<Rightarrow> mget m k)"
  using gm.get_stores_distinct [of n m k] by (simp add: mputs_eq_stores mwf_def mget_def)

lemma mget_mem: "mwf m \<Longrightarrow> (k, v) \<in> set m \<longleftrightarrow> mget m k = Some v"
  by (simp add: mwf_def mget_def)

lemma mget_dom: "mget m k \<noteq> None \<longleftrightarrow> k \<in> fst ` set m"
  by (simp add: mget_def map_of_eq_None_iff)

text \<open>\<open>reflect.DeepEqual\<close> decides equality of the maps as functions.\<close>

lemma meq_iff:
  assumes "mwf m" "mwf n"
  shows "meq m n \<longleftrightarrow> mget m = mget n"
proof
  assume eq: "meq m n"
  then have sub: "fst ` set m \<subseteq> fst ` set n"
    by (force simp: meq_def mget_def dest!: map_of_SomeD)
  have card: "card (fst ` set m) = length m" "card (fst ` set n) = length n"
    using assms distinct_card [of "map fst m"] distinct_card [of "map fst n"] by (simp_all add: mwf_def)
  with eq sub have dom: "fst ` set m = fst ` set n"
    by (metis card_subset_eq finite_imageI finite_set meq_def)
  show "mget m = mget n"
  proof
    fix k
    show "mget m k = mget n k"
    proof (cases "mget m k")
      case None
      then show ?thesis using dom by (metis mget_dom)
    next
      case (Some v)
      with assms have "(k, v) \<in> set m" by (simp add: mget_mem)
      with eq Some show ?thesis by (auto simp: meq_def)
    qed
  qed
next
  assume eq: "mget m = mget n"
  then have "set m = set n"
    using assms by (auto simp: mget_mem)
  then have "length m = length n"
    using assms by (metis distinct_card length_map mwf_def set_map)
  with eq assms show "meq m n" by (auto simp: meq_def mget_mem)
qed


section \<open>State machines: the interface\<close>

text \<open>
  A state machine is a set of initial states and a step relation. The client proves that an
  invariant is established and kept; the locale gives it for every reachable state.
\<close>

locale step_system =
  fixes init :: "'s \<Rightarrow> bool"
    and step :: "'s \<Rightarrow> 's \<Rightarrow> bool"
    and inv :: "'s \<Rightarrow> bool"
  assumes inv_init: "init s \<Longrightarrow> inv s"
    and inv_step: "inv s \<Longrightarrow> step s t \<Longrightarrow> inv t"
begin

lemma inv_steps: "step\<^sup>*\<^sup>* s t \<Longrightarrow> inv s \<Longrightarrow> inv t"
  by (induction rule: rtranclp_induct) (auto intro: inv_step)

lemma inv_reachable: "init s \<Longrightarrow> step\<^sup>*\<^sup>* s t \<Longrightarrow> inv t"
  by (blast intro: inv_steps inv_init)

end

text \<open>
  A machine some of whose steps are work that comes to an end: while the invariant holds, each of them descends in a
  well-founded order. Then no run of such steps is infinite, and each can be continued to a state with no work left.
\<close>

locale terminating_system = step_system +
  fixes work :: "'s \<Rightarrow> 's \<Rightarrow> bool"
    and rank :: "('s \<times> 's) set"
  assumes work_step: "work s t \<Longrightarrow> step s t"
    and rank_wf: "wf rank"
    and work_rank: "inv s \<Longrightarrow> work s t \<Longrightarrow> (t, s) \<in> rank"
begin

lemma work_terminates: "init s\<^sub>0 \<Longrightarrow> wf {(t, s). step\<^sup>*\<^sup>* s\<^sub>0 s \<and> work s t}"
  by (rule wf_subset[OF rank_wf]) (auto intro: work_rank inv_reachable)

lemma work_ends: "inv s \<Longrightarrow> \<exists>t. work\<^sup>*\<^sup>* s t \<and> (\<nexists>u. work t u)"
proof (induction s rule: wf_induct_rule[OF rank_wf])
  case (1 s)
  show ?case
  proof (cases "\<exists>u. work s u")
    case True
    then obtain u where u: "work s u" by blast
    with 1 obtain t where "work\<^sup>*\<^sup>* u t" "\<nexists>v. work t v" using work_rank work_step inv_step by blast
    with u show ?thesis by (blast intro: converse_rtranclp_into_rtranclp)
  qed blast
qed

lemma work_ends_reachable: "init s\<^sub>0 \<Longrightarrow> step\<^sup>*\<^sup>* s\<^sub>0 s \<Longrightarrow> \<exists>t. work\<^sup>*\<^sup>* s t \<and> (\<nexists>u. work t u)"
  by (blast intro: work_ends inv_reachable)

end

end
