(* ===== verification/Values.thy ===== *)
theory Values
  imports Prelude
begin

text \<open>
  Go's \<open>interface{}\<close> values as the telemetry code passes them around, and the conversions between
  machine numbers.

  A \<open>float64\<close> is its IEEE-754 bit pattern, a 64-bit word (a \<open>float32\<close> a 32-bit word). Conversions
  and divisions round to nearest, ties to even; they are computed on exact fractions of integers
  by \<open>f64_round\<close>. Sources: \<open>checkAndCeilFloatValues\<close> (influx.go), \<open>convertToString\<close>
  (defaults.go), and what the sources use of \<open>math\<close>, \<open>strconv\<close> and \<open>fmt\<close>.
\<close>

section \<open>IEEE-754 numbers\<close>

type_synonym f64 = "64 word"
type_synonym f32 = "32 word"
type_synonym bytes = "8 word list"

definition f64_neg :: "f64 \<Rightarrow> bool" where
  "f64_neg w \<longleftrightarrow> 2 ^ 63 \<le> uint w"

definition f64_exp :: "f64 \<Rightarrow> int" where
  "f64_exp w = uint w div 2 ^ 52 mod 2 ^ 11"

definition f64_man :: "f64 \<Rightarrow> int" where
  "f64_man w = uint w mod 2 ^ 52"

definition f64_PosInf :: f64 where "f64_PosInf = 0x7FF0000000000000"
definition f64_NegInf :: f64 where "f64_NegInf = 0xFFF0000000000000"

text \<open>\<open>math.MaxFloat64\<close> and its negation.\<close>

definition f64_Max :: f64 where "f64_Max = 0x7FEFFFFFFFFFFFFF"
definition f64_NegMax :: f64 where "f64_NegMax = 0xFFEFFFFFFFFFFFFF"

definition f64_is_nan :: "f64 \<Rightarrow> bool" where
  "f64_is_nan w \<longleftrightarrow> f64_exp w = 2047 \<and> f64_man w \<noteq> 0"

text \<open>\<open>math.IsInf(f, sign)\<close>\<close>

definition f64_is_inf :: "f64 \<Rightarrow> int \<Rightarrow> bool" where
  "f64_is_inf w sign \<longleftrightarrow> (0 \<le> sign \<and> w = f64_PosInf) \<or> (sign \<le> 0 \<and> w = f64_NegInf)"

definition f64_finite :: "f64 \<Rightarrow> bool" where
  "f64_finite w \<longleftrightarrow> f64_exp w \<noteq> 2047"

text \<open>The magnitude of a finite number as a fraction.\<close>

definition frac_num :: "int \<Rightarrow> int \<Rightarrow> int" where
  "frac_num m x = (if 0 \<le> x then m * 2 ^ nat x else m)"

definition frac_den :: "int \<Rightarrow> int" where
  "frac_den x = (if 0 \<le> x then 1 else 2 ^ nat (- x))"

definition f64_sig :: "f64 \<Rightarrow> int" where
  "f64_sig w = (if f64_exp w = 0 then f64_man w else 2 ^ 52 + f64_man w)"

definition f64_scale :: "f64 \<Rightarrow> int" where
  "f64_scale w = (if f64_exp w = 0 then 1 else f64_exp w) - 1075"

definition f64_num :: "f64 \<Rightarrow> int" where
  "f64_num w = frac_num (f64_sig w) (f64_scale w)"

definition f64_den :: "f64 \<Rightarrow> int" where
  "f64_den w = frac_den (f64_scale w)"

text \<open>Division of non-negative integers rounded to nearest, ties to even.\<close>

definition round_div :: "int \<Rightarrow> int \<Rightarrow> int" where
  "round_div a b =
     (let q = a div b; r = a mod b
      in if 2 * r < b then q else if b < 2 * r then q + 1 else if even q then q else q + 1)"

function bitlen :: "int \<Rightarrow> nat" where
  "bitlen n = (if n \<le> 0 then 0 else Suc (bitlen (n div 2)))"
  by pat_completeness auto
termination
  by (relation "measure nat") auto

declare bitlen.simps [simp del]

text \<open>
  The double nearest to \<open>num / den\<close> (\<open>den > 0\<close>, \<open>num \<ge> 0\<close>), with the given sign. \<open>lead_exp\<close> is the
  exponent of the leading binary digit, \<open>scaled\<close> the rounded quotient \<open>num / (den * 2 ^ k)\<close>, and
  \<open>f64_pack\<close> the bit pattern of \<open>q * 2 ^ k\<close> for a significand \<open>q\<close> of at most 53 bits (or \<open>2 ^ 53\<close>).
\<close>

definition lead_exp :: "int \<Rightarrow> int \<Rightarrow> int" where
  "lead_exp num den =
     (let e0 = int (bitlen num) - int (bitlen den)
      in if (if 0 \<le> e0 then den * 2 ^ nat e0 \<le> num else den \<le> num * 2 ^ nat (- e0)) then e0 else e0 - 1)"

definition scaled :: "int \<Rightarrow> int \<Rightarrow> int \<Rightarrow> int" where
  "scaled num den k =
     (if 0 \<le> k then round_div num (den * 2 ^ nat k) else round_div (num * 2 ^ nat (- k)) den)"

definition f64_pack :: "bool \<Rightarrow> int \<Rightarrow> int \<Rightarrow> f64" where
  "f64_pack neg k q =
     word_of_int ((if neg then 2 ^ 63 else 0) +
       min (if q < 2 ^ 52 then q else (k + 1075) * 2 ^ 52 + (q - 2 ^ 52)) (2047 * 2 ^ 52))"

definition f64_round :: "bool \<Rightarrow> int \<Rightarrow> int \<Rightarrow> f64" where
  "f64_round neg num den =
     (if num = 0 then f64_pack neg 0 0
      else let k = max (lead_exp num den - 52) (- 1074) in f64_pack neg k (scaled num den k))"

text \<open>\<open>float64(n)\<close> for an integer of any Go integer type.\<close>

definition f64_of_int :: "int \<Rightarrow> f64" where
  "f64_of_int n = f64_round (n < 0) \<bar>n\<bar> 1"

text \<open>\<open>float64(x)\<close> for a \<open>float32\<close>.\<close>

definition f64_of_f32 :: "f32 \<Rightarrow> f64" where
  "f64_of_f32 w =
     (let neg = (2 ^ 31 \<le> uint w); e = uint w div 2 ^ 23 mod 2 ^ 8; m = uint w mod 2 ^ 23;
          sgnbit = (if neg then 2 ^ 63 else 0 :: int)
      in if e = 255 then
           (if m = 0 then word_of_int (sgnbit + 2047 * 2 ^ 52)
            else word_of_int (sgnbit + 2047 * 2 ^ 52 + (2 ^ 51 + (m mod 2 ^ 22) * 2 ^ 29)))
         else
           let s = (if e = 0 then m else 2 ^ 23 + m); x = (if e = 0 then 1 else e) - 150
           in f64_round neg (frac_num s x) (frac_den x))"

definition f64_mul_pos :: "f64 \<Rightarrow> f64 \<Rightarrow> f64" where
  "f64_mul_pos a b = f64_round False (f64_num a * f64_num b) (f64_den a * f64_den b)"

text \<open>\<open>math.Pow10(n)\<close> for \<open>n \<ge> 0\<close>: the product of two table entries up to 308, infinity beyond.\<close>

definition pow10 :: "nat \<Rightarrow> f64" where
  "pow10 n = (if n \<le> 308
     then f64_mul_pos (f64_round False (10 ^ (n div 32 * 32)) 1) (f64_round False (10 ^ (n mod 32)) 1)
     else f64_PosInf)"

text \<open>Division of a finite number by a positive number or by infinity.\<close>

definition f64_div :: "f64 \<Rightarrow> f64 \<Rightarrow> f64" where
  "f64_div a b =
     (if b = f64_PosInf then f64_round (f64_neg a) 0 1
      else f64_round (f64_neg a) (f64_num a * f64_den b) (f64_den a * f64_num b))"

text \<open>The verb \<open>%.pf\<close>: decimal output with \<open>p\<close> digits after the point, \<open>p > 0\<close>.\<close>

function pad_digits :: "nat \<Rightarrow> int \<Rightarrow> string" where
  "pad_digits 0 n = []"
| "pad_digits (Suc k) n = pad_digits k (n div 10) @ [digit_char (n mod 10)]"
  by pat_completeness auto
termination
  by (relation "measure fst") auto

definition f64_fixed :: "nat \<Rightarrow> f64 \<Rightarrow> string" where
  "f64_fixed p w =
     (if f64_is_nan w then ''NaN''
      else if w = f64_PosInf then ''+Inf''
      else if w = f64_NegInf then ''-Inf''
      else
        let v = round_div (f64_num w * 10 ^ p) (f64_den w)
        in (if f64_neg w then ''-'' else '''') @ show_pos (v div 10 ^ p) @ ''.'' @ pad_digits p (v mod 10 ^ p))"

text \<open>
  \<open>strconv.FormatFloat(v, 'f', -1, 64)\<close>: the fewest significant digits that read back as the same
  number, and of these the closest. \<open>dec_exp\<close> is the exponent of the leading decimal digit.
\<close>

fun dec_exp :: "nat \<Rightarrow> int \<Rightarrow> int \<Rightarrow> int \<Rightarrow> int" where
  "dec_exp 0 e num den = e"
| "dec_exp (Suc f) e num den =
     (if den * 10 \<le> num then dec_exp f (e + 1) num (den * 10)
      else if num < den then dec_exp f (e - 1) (num * 10) den
      else e)"

definition dec_num :: "int \<Rightarrow> int \<Rightarrow> int" where
  "dec_num c s = (if 0 \<le> s then c * 10 ^ nat s else c)"

definition dec_den :: "int \<Rightarrow> int" where
  "dec_den s = (if 0 \<le> s then 1 else 10 ^ nat (- s))"

text \<open>The candidate with \<open>n\<close> digits: a coefficient \<open>c\<close> for \<open>c * 10 ^ s\<close>, if one reads back.\<close>

definition short_cand :: "f64 \<Rightarrow> int \<Rightarrow> int option" where
  "short_cand w s =
     (let num = f64_num w * dec_den s; den = f64_den w * dec_num 1 s;
          lo = num div den; hi = lo + 1;
          back = (\<lambda>c. f64_round (f64_neg w) (dec_num c s) (dec_den s) = w)
      in if back lo \<and> back hi then Some (round_div num den)
         else if back lo then Some lo else if back hi then Some hi else None)"

fun short_search :: "nat \<Rightarrow> f64 \<Rightarrow> int \<Rightarrow> int \<times> int" where
  "short_search 0 w s = (f64_num w * dec_den s div (f64_den w * dec_num 1 s), s)"
| "short_search (Suc f) w s =
     (case short_cand w s of Some c \<Rightarrow> (c, s) | None \<Rightarrow> short_search f w (s - 1))"

definition f64_shortest :: "f64 \<Rightarrow> string" where
  "f64_shortest w =
     (if f64_is_nan w then ''NaN''
      else if w = f64_PosInf then ''+Inf''
      else if w = f64_NegInf then ''-Inf''
      else
        (if f64_neg w then ''-'' else '''') @
        (if f64_num w = 0 then ''0''
         else
           case short_search 17 w (dec_exp 800 0 (f64_num w) (f64_den w)) of
             (c, s) \<Rightarrow>
               if 0 \<le> s then show_pos (c * 10 ^ nat s)
               else show_pos (c div 10 ^ nat (- s)) @ ''.'' @ pad_digits (nat (- s)) (c mod 10 ^ nat (- s))))"

text \<open>
  \<open>checkAndCeilFloatValues\<close>: a \<open>float32\<close> is widened and infinities become the largest finite
  numbers, which the line protocol can carry. The two pointers are options.
\<close>

definition checkAndCeilFloatValues :: "f32 option \<Rightarrow> f64 option \<Rightarrow> f64" where
  "checkAndCeilFloatValues val32 val64 =
     (case val32 of
        Some v \<Rightarrow>
          let cieled = f64_of_f32 v
          in if f64_is_inf cieled 1 then f64_Max
             else if f64_is_inf cieled (- 1) then f64_NegMax
             else cieled
      | None \<Rightarrow>
          (case val64 of
             None \<Rightarrow> f64_of_int 0
           | Some v \<Rightarrow>
               if f64_is_inf v 1 then f64_Max
               else if f64_is_inf v (- 1) then f64_NegMax
               else v))"


section \<open>Dynamic values\<close>

text \<open>A \<open>google.protobuf.Any\<close> message.\<close>

record any_msg =
  type_url :: string
  any_value :: bytes

datatype gval =
    VNil
  | VString string
  | VInt32 "32 word"
  | VInt64 "64 word"
  | VUint32 "32 word"
  | VUint64 "64 word"
  | VFloat64 f64
  | VBool bool
  | VBytes bytes
  | VAny any_msg
  | VInts "64 word list"
  | VFloats "f64 list"
  | VBools "bool list"
  | VStrings "string list"
  | VBytess "bytes list"

definition show_bool :: "bool \<Rightarrow> string" where
  "show_bool b = (if b then ''true'' else ''false'')"

text \<open>
  \<open>convertToString\<close>; the verb \<open>%T\<close> prints the name of the dynamic type.
\<close>

fun type_name :: "gval \<Rightarrow> string" where
  "type_name VNil = ''<nil>''"
| "type_name (VString _) = ''string''"
| "type_name (VInt32 _) = ''int32''"
| "type_name (VInt64 _) = ''int64''"
| "type_name (VUint32 _) = ''uint32''"
| "type_name (VUint64 _) = ''uint64''"
| "type_name (VFloat64 _) = ''float64''"
| "type_name (VBool _) = ''bool''"
| "type_name (VBytes _) = ''[]uint8''"
| "type_name (VAny _) = ''*anypb.Any''"
| "type_name (VInts _) = ''[]int64''"
| "type_name (VFloats _) = ''[]float64''"
| "type_name (VBools _) = ''[]bool''"
| "type_name (VStrings _) = ''[]string''"
| "type_name (VBytess _) = ''[][]uint8''"

fun convertToString :: "gval \<Rightarrow> string" where
  "convertToString (VUint32 v) = show_int (uint v)"
| "convertToString (VUint64 v) = show_int (uint v)"
| "convertToString (VBool v) = show_bool v"
| "convertToString (VInt32 v) = show_int (sint v)"
| "convertToString (VInt64 v) = show_int (sint v)"
| "convertToString (VString v) = v"
| "convertToString (VFloat64 v) = f64_shortest v"
| "convertToString v = ''Unsupported type '' @ type_name v"


section \<open>Lemmas: decimal output\<close>

definition dec_char :: "char \<Rightarrow> bool" where
  "dec_char c \<longleftrightarrow> 48 \<le> (of_char c :: nat) \<and> (of_char c :: nat) \<le> 57"

lemma dec_char_digit: "d < 10 \<Longrightarrow> dec_char (digit_char d)"
  by (simp add: dec_char_def digit_char_def)

lemma dec_char_show_pos: "\<forall>c \<in> set (show_pos n). dec_char c"
proof (induction n rule: show_pos.induct)
  case (1 n)
  then show ?case
    by (cases "n < 10") (auto simp: show_pos.simps [of n] dec_char_digit)
qed

lemma show_pos_not_Nil [simp]: "show_pos n \<noteq> []"
  by (subst show_pos.simps) simp

lemma dec_char_pad_digits: "\<forall>c \<in> set (pad_digits k n). dec_char c"
  by (induction k n rule: pad_digits.induct) (auto simp: dec_char_digit)

text \<open>The digits printed for a number read back as the number.\<close>

definition read_digits :: "string \<Rightarrow> int" where
  "read_digits s = foldl (\<lambda>a c. 10 * a + int (of_char c) - 48) 0 s"

lemma read_digits_snoc: "read_digits (s @ [c]) = 10 * read_digits s + int (of_char c) - 48"
  by (simp add: read_digits_def)

lemma of_char_digit: "0 \<le> d \<Longrightarrow> d < 10 \<Longrightarrow> int (of_char (digit_char d)) = 48 + d"
  by (simp add: digit_char_def)

lemma read_show_pos: "0 \<le> n \<Longrightarrow> read_digits (show_pos n) = n"
proof (induction n rule: show_pos.induct)
  case (1 n)
  show ?case
  proof (cases "n < 10")
    case True
    with 1 show ?thesis by (simp add: show_pos.simps [of n] read_digits_def of_char_digit)
  next
    case False
    with 1 have "read_digits (show_pos (n div 10)) = n div 10" by simp
    with False show ?thesis
      by (simp add: show_pos.simps [of n] read_digits_snoc of_char_digit)
  qed
qed

lemma show_pos_inj: "0 \<le> m \<Longrightarrow> 0 \<le> n \<Longrightarrow> show_pos m = show_pos n \<Longrightarrow> m = n"
  using read_show_pos by metis

lemma show_int_inj: "show_int m = show_int n \<Longrightarrow> m = n"
proof -
  assume eq: "show_int m = show_int n"
  have minus: "CHR ''-'' # a \<noteq> show_pos k" for a k
  proof
    assume "CHR ''-'' # a = show_pos k"
    then have "CHR ''-'' \<in> set (show_pos k)" by (metis list.set_intros(1))
    with dec_char_show_pos [of k] have "dec_char CHR ''-''" by blast
    then show False by (simp add: dec_char_def)
  qed
  show ?thesis
    using eq minus [of _ m] minus [of _ n] show_pos_inj [of m n] show_pos_inj [of "- m" "- n"]
    by (auto simp: show_int_def split: if_splits)
qed

lemma no_U_dec: "\<forall>c \<in> set s. dec_char c \<Longrightarrow> CHR ''U'' \<notin> set s"
proof
  assume "\<forall>c \<in> set s. dec_char c" "CHR ''U'' \<in> set s"
  then have "dec_char CHR ''U''" by blast
  then show False by (simp add: dec_char_def)
qed

lemmas no_U_digits = no_U_dec [OF dec_char_show_pos] no_U_dec [OF dec_char_pad_digits]

lemma no_U_show_int: "CHR ''U'' \<notin> set (show_int n)"
  by (simp add: show_int_def no_U_digits)

lemma show_int_guard: "show_int n \<noteq> CHR ''U'' # s"
  using no_U_show_int [of n] by (metis list.set_intros(1))

lemma no_U_shortest: "CHR ''U'' \<notin> set (f64_shortest w)"
  by (simp add: f64_shortest_def no_U_digits split: prod.split)

lemma shortest_guard: "f64_shortest w \<noteq> CHR ''U'' # s"
  using no_U_shortest [of w] by (metis list.set_intros(1))


section \<open>Lemmas: rounding\<close>

lemma bitlen_bounds: "0 < n \<Longrightarrow> 2 ^ (bitlen n - 1) \<le> n \<and> n < 2 ^ bitlen n"
proof (induction n rule: bitlen.induct)
  case (1 n)
  show ?case
  proof (cases "n = 1")
    case True
    then show ?thesis by (simp add: bitlen.simps [of 1] bitlen.simps [of 0])
  next
    case False
    with 1 have IH: "2 ^ (bitlen (n div 2) - 1) \<le> n div 2" "n div 2 < 2 ^ bitlen (n div 2)"
      by auto
    have pos: "0 < bitlen (n div 2)"
      using 1 False by (subst bitlen.simps) simp
    then obtain b where b: "bitlen (n div 2) = Suc b" by (cases "bitlen (n div 2)") auto
    have "bitlen n = Suc (Suc b)"
      using 1 b by (subst bitlen.simps) simp
    moreover have "2 * 2 ^ b \<le> n" "n < 2 * (2 * 2 ^ b)"
      using IH b by simp_all
    ultimately show ?thesis by simp
  qed
qed

lemma round_div_exact [simp]: "round_div a 1 = a"
  by (simp add: round_div_def)

text \<open>
  For \<open>0 < n < 2 ^ 53\<close> the conversion is exact: the significand is \<open>n\<close> shifted to 53 bits.
\<close>

lemma bitlen_range:
  assumes "0 < n" "n < 2 ^ 53"
  shows "1 \<le> bitlen n" "bitlen n \<le> 53"
proof -
  note b = bitlen_bounds [OF assms(1)]
  show L1: "1 \<le> bitlen n"
    using assms(1) by (subst bitlen.simps) simp
  have "(2::int) ^ (bitlen n - 1) < 2 ^ 53"
    using b assms(2) by linarith
  then have "bitlen n - 1 < 53" by (simp only: power_strict_increasing_iff)
  with L1 show "bitlen n \<le> 53" by simp
qed

lemma significand_range:
  assumes "0 < n" "n < 2 ^ 53"
  shows "2 ^ 52 \<le> n * 2 ^ (53 - bitlen n)" "n * 2 ^ (53 - bitlen n) < 2 ^ 53"
proof -
  note b = bitlen_bounds [OF assms(1)] and L = bitlen_range [OF assms]
  have "(2::int) ^ 52 = 2 ^ (bitlen n - 1) * 2 ^ (53 - bitlen n)"
    using L by (simp flip: power_add)
  also have "\<dots> \<le> n * 2 ^ (53 - bitlen n)"
    using b by (intro mult_right_mono) auto
  finally show "2 ^ 52 \<le> n * 2 ^ (53 - bitlen n)" .
  have "n * 2 ^ (53 - bitlen n) < 2 ^ bitlen n * 2 ^ (53 - bitlen n)"
    using b by (intro mult_strict_right_mono) auto
  also have "\<dots> = (2::int) ^ 53"
    using L by (simp flip: power_add)
  finally show "n * 2 ^ (53 - bitlen n) < 2 ^ 53" .
qed

lemma lead_exp_int: "0 < n \<Longrightarrow> lead_exp n 1 = int (bitlen n) - 1"
proof -
  assume n: "0 < n"
  have bl1: "bitlen 1 = 1" by (simp add: bitlen.simps [of 1] bitlen.simps [of 0])
  have "1 \<le> bitlen n" using n by (subst bitlen.simps) simp
  moreover have "2 ^ nat (int (bitlen n) - 1) \<le> n"
  proof -
    have "nat (int (bitlen n) - 1) = bitlen n - 1" by arith
    then show ?thesis using bitlen_bounds [OF n] by simp
  qed
  ultimately show ?thesis by (simp add: lead_exp_def bl1)
qed

lemma scaled_int: "L \<le> 53 \<Longrightarrow> scaled n 1 (int L - 53) = n * 2 ^ (53 - L)"
  by (cases "L = 53") (auto simp: scaled_def nat_diff_distrib)

lemma f64_round_int:
  assumes "0 < n" "n < 2 ^ 53"
  shows "f64_round neg n 1 = f64_pack neg (int (bitlen n) - 53) (n * 2 ^ (53 - bitlen n))"
proof -
  have "max (int (bitlen n) - 1 - 52) (- 1074) = int (bitlen n) - 53"
    using bitlen_range [OF assms] by simp
  with assms bitlen_range [OF assms] show ?thesis
    by (simp add: f64_round_def Let_def lead_exp_int scaled_int)
qed

text \<open>Unpacking a packed normal number.\<close>

lemma uint_pack:
  assumes "2 ^ 52 \<le> q" "q < 2 ^ 53" "- 1074 \<le> k" "k \<le> 971"
  shows "uint (f64_pack neg k q) = (if neg then 2 ^ 63 else 0) + ((k + 1075) * 2 ^ 52 + (q - 2 ^ 52))"
proof -
  let ?b = "(k + 1075) * 2 ^ 52 + (q - 2 ^ 52)"
  have b: "0 \<le> ?b" "?b < 2047 * 2 ^ 52"
    using assms by simp_all
  then have "f64_pack neg k q = word_of_int ((if neg then 2 ^ 63 else 0) + ?b)"
    using assms by (simp add: f64_pack_def)
  moreover have "uint (word_of_int ((if neg then 2 ^ 63 else 0) + ?b) :: f64) = (if neg then 2 ^ 63 else 0) + ?b"
    unfolding uint_word_of_int_eq using b by (intro take_bit_int_eq_self) auto
  ultimately show ?thesis by metis
qed

lemma unpack_normal:
  assumes "2 ^ 52 \<le> q" "q < 2 ^ 53" "- 1074 \<le> k" "k \<le> 971"
    and w_def: "w = f64_pack neg k q"
  shows "f64_neg w = neg" "f64_sig w = q" "f64_scale w = k"
proof -
  let ?r = "q - 2 ^ 52"
  have r: "0 \<le> ?r" "?r < 2 ^ 52" using assms by auto
  have u: "uint w = ((if neg then 2048 else 0) + (k + 1075)) * 2 ^ 52 + ?r"
    using uint_pack [OF assms(1-4), of neg] by (auto simp: w_def)
  have d: "uint w div 2 ^ 52 = (if neg then 2048 else 0) + (k + 1075)"
    using r unfolding u by (simp add: div_pos_pos_trivial)
  have e: "f64_exp w = k + 1075"
  proof (cases neg)
    case True
    then have "uint w div 2 ^ 52 = 2048 + (k + 1075)" using d by simp
    moreover have "(2048 + (k + 1075)) mod 2048 = k + 1075"
      unfolding mod_add_self1 using assms(3,4) by (intro mod_pos_pos_trivial) linarith+
    ultimately show ?thesis unfolding f64_exp_def by simp
  next
    case False
    with d assms(3,4) show ?thesis unfolding f64_exp_def by simp
  qed
  have m: "f64_man w = ?r"
    unfolding f64_man_def u mod_mult_self3 using r by (intro mod_pos_pos_trivial) linarith+
  show "f64_sig w = q" "f64_scale w = k"
    using e m assms(3) by (auto simp: f64_sig_def f64_scale_def)
  show "f64_neg w = neg"
    unfolding f64_neg_def u using r assms(3,4) by auto
qed


lemma f64_of_int_exact:
  assumes n: "\<bar>n\<bar> < 2 ^ 53"
  shows "f64_num (f64_of_int n) = \<bar>n\<bar> * f64_den (f64_of_int n) \<and> f64_neg (f64_of_int n) = (n < 0)"
proof (cases "n = 0")
  case True
  then show ?thesis
    by (simp add: f64_of_int_def f64_round_def f64_pack_def f64_num_def f64_neg_def f64_sig_def
        f64_exp_def f64_man_def frac_num_def)
next
  case False
  then have pos: "0 < \<bar>n\<bar>" by simp
  let ?L = "bitlen \<bar>n\<bar>"
  note L = bitlen_range [OF pos n] and q = significand_range [OF pos n]
  have k: "- 1074 \<le> int ?L - 53" "int ?L - 53 \<le> 971" using L by auto
  note un = unpack_normal [OF q k refl, of "n < 0"]
  have w: "f64_of_int n = f64_pack (n < 0) (int ?L - 53) (\<bar>n\<bar> * 2 ^ (53 - ?L))"
    by (simp add: f64_of_int_def f64_round_int [OF pos n])
  have "nat (53 - int ?L) = 53 - ?L" by simp
  then have "frac_num (\<bar>n\<bar> * 2 ^ (53 - ?L)) (int ?L - 53) = \<bar>n\<bar> * frac_den (int ?L - 53)"
    using L by (cases "?L = 53") (auto simp: frac_num_def frac_den_def)
  with un show ?thesis unfolding w f64_num_def f64_den_def by simp
qed

lemma f64_den_pos: "0 < f64_den w"
  by (simp add: f64_den_def frac_den_def)

text \<open>Below \<open>2 ^ 53\<close> different integers stay different; at \<open>2 ^ 53\<close> two integers give the same number.\<close>

lemma f64_of_int_inj:
  assumes "\<bar>m\<bar> < 2 ^ 53" "\<bar>n\<bar> < 2 ^ 53" "f64_of_int m = f64_of_int n"
  shows "m = n"
proof -
  have "\<bar>m\<bar> * f64_den (f64_of_int n) = \<bar>n\<bar> * f64_den (f64_of_int n)" "(m < 0) = (n < 0)"
    using f64_of_int_exact [OF assms(1), unfolded assms(3)] f64_of_int_exact [OF assms(2)] by argo+
  moreover from this(1) f64_den_pos [of "f64_of_int n"] have "\<bar>m\<bar> = \<bar>n\<bar>" by simp
  ultimately show ?thesis by linarith
qed

lemma f64_of_int_collision: "f64_of_int (2 ^ 53 + 1) = f64_of_int (2 ^ 53)"
  by code_simp


section \<open>Properties\<close>



text \<open>
  The guards \<open>strVal == "Unsupported type"\<close> that follow calls of \<open>convertToString\<close> never fire
  for a value of an unsupported type: the text returned for such a value goes on with the name of
  the type. Only a string value that is itself this text makes the comparison true.
\<close>

theorem convertToString_guard_dead:
  "convertToString v = ''Unsupported type'' \<longleftrightarrow> v = VString ''Unsupported type''"
proof
  assume eq: "convertToString v = ''Unsupported type''"
  show "v = VString ''Unsupported type''"
  proof (cases v)
    case (VString x)
    with eq show ?thesis by simp
  qed (use eq in \<open>simp_all add: show_int_guard shortest_guard show_bool_def split: if_splits\<close>)
qed simp

end
