(* ===== verification/Context.thy ===== *)
theory Context
  imports Values
begin

text \<open>
  The state the components share: the configuration structures of config.go, influx.go,
  kafka-publish.go and internal_jtimon.go, the command line flags of main.go, and the run time
  context \<open>JCtx\<close> of workers.go with its InfluxDB and statistics parts.

  A pointer that may be nil is an option. A file, logger or producer handle is an option whose
  value says what it is a handle of. A channel is the list of the elements in it, oldest first;
  \<open>None\<close> is a nil channel. Go's \<open>int\<close> in the configuration is \<^typ>\<open>int\<close>: these numbers are only
  compared and passed on.
\<close>

section \<open>Configuration\<close>

record GnmiConfig =
  gc_Encoding :: string
  gc_Mode :: int

record VendorConfig =
  v_Name :: string
  v_RemoveNS :: bool
  v_Schema :: "string list"
  v_Gnmi :: "GnmiConfig option"

datatype handle = Stdout | File string

record LogConfig =
  l_File :: string
  l_PeriodicStats :: int
  l_Verbose :: bool
  l_out :: "handle option"
  l_logger :: "handle option"

record TLSConfig =
  t_ClientCrt :: string
  t_ClientKey :: string
  t_CA :: string
  t_ServerName :: string
  t_Insecure :: bool

record TunnelServerConfig =
  ts_Address :: string
  ts_DialTarget :: string
  ts_DialTargetType :: string
  ts_TLS :: TLSConfig

record GRPCConfig =
  g_WS :: "32 word"
  g_TunnelServer :: TunnelServerConfig

record PathsConfig =
  p_Path :: string
  p_Freq :: "64 word"
  p_Mode :: string
  p_Origin :: string
  p_Target :: string
  p_PreGnmi :: bool
  p_Gnmi :: bool
  p_Gnmi_heartbeat_interval :: "64 word"

record InfluxConfig =
  i_Server :: string
  i_Port :: int
  i_Dbname :: string
  i_User :: string
  i_Password :: string
  i_Recreate :: bool
  i_Measurement :: string
  i_BatchSize :: int
  i_BatchFrequency :: int
  i_HTTPTimeout :: int
  i_RetentionPolicy :: string
  i_AccumulatorFrequency :: int
  i_WritePerMeasurement :: bool

text \<open>
  The producer field is set by \<open>KafkaConnect\<close> and is never part of the JSON text. A producer is the list of the
  messages sent with it, each a topic and a payload.
\<close>

record KafkaConfig =
  k_Version :: string
  k_Brokers :: "string list"
  k_ClientID :: string
  k_Topic :: string
  k_CompressionCodec :: int
  k_RequiredAcks :: int
  k_MaxRetry :: int
  k_MaxMessageBytes :: int
  k_SASLUser :: string
  k_SASLPass :: string
  k_TLSCA :: string
  k_TLSCert :: string
  k_TLSKey :: string
  k_InsecureSkipVerify :: bool
  k_producer :: "(string \<times> string) list option"

record InternalJtimonConfig =
  ij_DataLog :: string
  ij_CsvLog :: string
  ij_out :: "handle option"
  ij_preGnmiOut :: "handle option"
  ij_csvOut :: "handle option"
  ij_logger :: "handle option"
  ij_preGnmiLogger :: "handle option"
  ij_csvLogger :: "handle option"
  ij_GnmiEOS :: bool
  ij_PreGnmiEOS :: bool

record Config =
  Port :: int
  Host :: string
  User :: string
  Password :: string
  CID :: string
  Meta :: bool
  EOS :: bool
  GRPC :: GRPCConfig
  TLS :: TLSConfig
  Influx :: InfluxConfig
  Kafka :: "KafkaConfig option"
  InternalJtimon :: InternalJtimonConfig
  Paths :: "PathsConfig list"
  Log :: LogConfig
  Vendor :: VendorConfig
  CAlias :: string
  PasswordDecoder :: string
  EnableUintSupport :: bool


section \<open>Command line flags\<close>

record Flags =
  f_print :: bool
  f_outJSON :: bool
  f_logMux :: bool
  f_statsHandler :: bool
  f_prom :: bool
  f_prefixCheck :: bool
  f_genTestData :: bool
  f_conTestData :: bool
  f_dialOut :: bool
  f_terminator :: bool
  f_skipVerify :: bool
  f_kafkaBroker :: string
  f_compression :: string
  f_myListeningIP :: string
  f_noppgoroutines :: bool


section \<open>Run time context\<close>

text \<open>A point of the InfluxDB client library; the time is in nanoseconds.\<close>

record point =
  pt_name :: string
  pt_tags :: "(string, string) gomap"
  pt_fields :: "(string, gval) gomap"
  pt_time :: int

record batchWMData =
  wm_measurement :: string
  wm_points :: "point list"

record metricIDB =
  m_tags :: "(string, string) gomap"
  m_fields :: "(string, gval) gomap"
  m_ts :: "64 word"

text \<open>
  \<open>InfluxCtx\<close>: whether there is a client, the three channels, and whether the two regular
  expressions are compiled.
\<close>

record InfluxCtx =
  influxClient :: bool
  batchWCh :: "point list list option"
  batchWMCh :: "batchWMData list option"
  accumulatorCh :: "metricIDB list option"
  reCompiled :: bool

record statsCtx =
  totalIn :: "64 word"
  totalKV :: "64 word"
  totalInPayloadLength :: "64 word"
  totalInPayloadWireLength :: "64 word"
  totalInHeaderWireLength :: "64 word"

type_synonym Alias = "(string, string) gomap"

record JCtx =
  config :: Config
  jfile :: string
  influxCtx :: InfluxCtx
  stats :: statsCtx
  control_made :: bool
  jalias :: "Alias option"
  testExp :: bool
  testRes :: bool
  receivedSyncRsp :: bool

definition gDeviceTs :: string where
  "gDeviceTs = ''__device_timestamp__''"

definition IsVerboseLogging :: "JCtx \<Rightarrow> bool" where
  "IsVerboseLogging jctx = l_Verbose (Log (config jctx))"

definition isInternalJtimonLogging :: "JCtx \<Rightarrow> bool" where
  "isInternalJtimonLogging jctx = (ij_logger (InternalJtimon (config jctx)) \<noteq> None)"

text \<open>The zero values of the structures, as \<open>var c Config\<close> makes them.\<close>

definition zeroTLS :: TLSConfig where
  "zeroTLS = \<lparr>t_ClientCrt = [], t_ClientKey = [], t_CA = [], t_ServerName = [], t_Insecure = False\<rparr>"

definition zeroInflux :: InfluxConfig where
  "zeroInflux = \<lparr>i_Server = [], i_Port = 0, i_Dbname = [], i_User = [], i_Password = [], i_Recreate = False,
     i_Measurement = [], i_BatchSize = 0, i_BatchFrequency = 0, i_HTTPTimeout = 0, i_RetentionPolicy = [],
     i_AccumulatorFrequency = 0, i_WritePerMeasurement = False\<rparr>"

definition zeroInternal :: InternalJtimonConfig where
  "zeroInternal = \<lparr>ij_DataLog = [], ij_CsvLog = [], ij_out = None, ij_preGnmiOut = None, ij_csvOut = None,
     ij_logger = None, ij_preGnmiLogger = None, ij_csvLogger = None, ij_GnmiEOS = False, ij_PreGnmiEOS = False\<rparr>"

definition zeroKafka :: KafkaConfig where
  "zeroKafka = \<lparr>k_Version = [], k_Brokers = [], k_ClientID = [], k_Topic = [], k_CompressionCodec = 0,
     k_RequiredAcks = 0, k_MaxRetry = 0, k_MaxMessageBytes = 0, k_SASLUser = [], k_SASLPass = [], k_TLSCA = [],
     k_TLSCert = [], k_TLSKey = [], k_InsecureSkipVerify = False, k_producer = None\<rparr>"

definition zeroConfig :: Config where
  "zeroConfig = \<lparr>Port = 0, Host = [], User = [], Password = [], CID = [], Meta = False, EOS = False,
     GRPC = \<lparr>g_WS = 0, g_TunnelServer = \<lparr>ts_Address = [], ts_DialTarget = [], ts_DialTargetType = [], ts_TLS = zeroTLS\<rparr>\<rparr>,
     TLS = zeroTLS, Influx = zeroInflux, Kafka = None, InternalJtimon = zeroInternal, Paths = [],
     Log = \<lparr>l_File = [], l_PeriodicStats = 0, l_Verbose = False, l_out = None, l_logger = None\<rparr>,
     Vendor = \<lparr>v_Name = [], v_RemoveNS = False, v_Schema = [], v_Gnmi = None\<rparr>,
     CAlias = [], PasswordDecoder = [], EnableUintSupport = False\<rparr>"

definition zeroInfluxCtx :: InfluxCtx where
  "zeroInfluxCtx = \<lparr>influxClient = False, batchWCh = None, batchWMCh = None, accumulatorCh = None, reCompiled = False\<rparr>"

definition zeroStats :: statsCtx where
  "zeroStats = \<lparr>totalIn = 0, totalKV = 0, totalInPayloadLength = 0, totalInPayloadWireLength = 0, totalInHeaderWireLength = 0\<rparr>"

definition zeroJCtx :: JCtx where
  "zeroJCtx = \<lparr>config = zeroConfig, jfile = [], influxCtx = zeroInfluxCtx, stats = zeroStats, control_made = False,
     jalias = None, testExp = False, testRes = False, receivedSyncRsp = False\<rparr>"

definition zeroFlags :: Flags where
  "zeroFlags = \<lparr>f_print = False, f_outJSON = False, f_logMux = False, f_statsHandler = False, f_prom = False,
     f_prefixCheck = False, f_genTestData = False, f_conTestData = False, f_dialOut = False, f_terminator = False,
     f_skipVerify = False, f_kafkaBroker = ''kafka:9092'', f_compression = [], f_myListeningIP = ''0.0.0.0'',
     f_noppgoroutines = False\<rparr>"

lemmas zero_defs = zeroTLS_def zeroInflux_def zeroInternal_def zeroKafka_def zeroConfig_def
  zeroInfluxCtx_def zeroStats_def zeroJCtx_def zeroFlags_def

text \<open>
  An update of one part of the configuration or of the context, as assignments such as
  \<open>jctx.config.Log.logger = \<dots>\<close> make it.
\<close>

definition upd_config :: "(Config \<Rightarrow> Config) \<Rightarrow> JCtx \<Rightarrow> JCtx" where
  "upd_config f jctx = jctx\<lparr>config := f (config jctx)\<rparr>"

definition upd_log :: "(LogConfig \<Rightarrow> LogConfig) \<Rightarrow> JCtx \<Rightarrow> JCtx" where
  "upd_log f = upd_config (\<lambda>c. c\<lparr>Log := f (Log c)\<rparr>)"

definition upd_internal :: "(InternalJtimonConfig \<Rightarrow> InternalJtimonConfig) \<Rightarrow> JCtx \<Rightarrow> JCtx" where
  "upd_internal f = upd_config (\<lambda>c. c\<lparr>InternalJtimon := f (InternalJtimon c)\<rparr>)"

definition upd_influx :: "(InfluxCtx \<Rightarrow> InfluxCtx) \<Rightarrow> JCtx \<Rightarrow> JCtx" where
  "upd_influx f jctx = jctx\<lparr>influxCtx := f (influxCtx jctx)\<rparr>"

lemmas upd_defs = upd_config_def upd_log_def upd_internal_def upd_influx_def

end
