(* ===== verification/GnmiPath.thy ===== *)
theory GnmiPath
  imports Context
begin

text \<open>
  From a configured path to a gNMI subscription: \<open>parseKeyValuePairs\<close>, \<open>xPathTognmiPath\<close>,
  \<open>gnmiMode\<close>, \<open>gnmiFreq\<close> and \<open>gnmiHeartBeat\<close> of gnmi_utils.go and \<open>xPathsTognmiSubscription\<close> of
  subscribe_gnmi.go. The messages of gnmi.proto are records with the fields the code reads and
  writes. The regular expression of \<open>parseKeyValuePairs\<close>, an opening bracket up to the first
  closing bracket on the same line, is matched by \<open>findBrackets\<close>.
\<close>

section \<open>Messages\<close>

record PathElem =
  pe_Name :: string
  pe_Key :: "(string, string) gomap"

record gnmi_Path =
  gp_Origin :: string
  gp_Target :: string
  gp_Elem :: "PathElem list"

datatype SubscriptionMode = TARGET_DEFINED | ON_CHANGE | SAMPLE

record Subscription =
  s_Path :: gnmi_Path
  s_Mode :: SubscriptionMode
  s_SampleInterval :: "64 word"
  s_HeartbeatInterval :: "64 word"

text \<open>\<open>dialout.PathsConfig\<close>, the path of a dial-out configuration.\<close>

record DialOutPath =
  do_Path :: string
  do_Frequency :: "64 word"
  do_Mode :: string


section \<open>Paths\<close>

fun bracketBody :: "string \<Rightarrow> (string \<times> string) option" where
  "bracketBody [] = None"
| "bracketBody (c # cs) =
     (if c = CHR '']'' then Some ([], cs)
      else if c = CHR 0x0A then None
      else map_option (\<lambda>(b, r). (c # b, r)) (bracketBody cs))"

lemma bracketBody_length: "bracketBody s = Some (b, r) \<Longrightarrow> length r < length s"
  by (induction s arbitrary: b) (auto split: if_splits)

function findBrackets :: "string \<Rightarrow> string list" where
  "findBrackets [] = []"
| "findBrackets (c # cs) =
     (if c = CHR ''['' then
        (case bracketBody cs of
           Some (b, r) \<Rightarrow> ([c] @ b @ '']'') # findBrackets r
         | None \<Rightarrow> findBrackets cs)
      else findBrackets cs)"
  by pat_completeness auto
termination
  by (relation "measure length") (auto dest: bracketBody_length)

text \<open>The two loops of \<open>parseKeyValuePairs\<close>; a pair without \<open>=\<close> makes \<open>kv[1]\<close> panic.\<close>

fun addPairs :: "(string, string) gomap \<Rightarrow> string list \<Rightarrow> (string, string) gomap go" where
  "addPairs result [] = Inr result"
| "addPairs result (pair # pairs) =
     (let kv = go_split pair ''=''
      in bindR (at kv 0) (\<lambda>k. bindR (at kv 1) (\<lambda>v.
           addPairs (mput result (go_trim k [CHR '' '', CHR 0x22]) (go_trim v [CHR '' '', CHR 0x22])) pairs)))"

fun addMatches :: "(string, string) gomap \<Rightarrow> string list \<Rightarrow> (string, string) gomap go" where
  "addMatches result [] = Inr result"
| "addMatches result (m # ms) =
     bindR (addPairs result (go_split (go_trim m ''[]'') ''and'')) (\<lambda>result'. addMatches result' ms)"

definition parseKeyValuePairs :: "string \<Rightarrow> (string \<times> (string, string) gomap) go" where
  "parseKeyValuePairs input =
     bindR (at (go_splitN2 input ''['') 0) (\<lambda>prefix.
       bindR (addMatches [] (findBrackets input)) (\<lambda>result. Inr (prefix, result)))"

fun pathElems :: "string list \<Rightarrow> PathElem list go" where
  "pathElems [] = Inr []"
| "pathElems (s # ss) =
     (if s = [] then pathElems ss
      else bindR (parseKeyValuePairs s) (\<lambda>(prefix, kv).
        bindR (pathElems ss) (\<lambda>es. Inr (\<lparr>pe_Name = prefix, pe_Key = kv\<rparr> # es))))"

text \<open>The inner sum is the error that the function returns: a path without elements.\<close>

definition xPathTognmiPath :: "string \<Rightarrow> (string + gnmi_Path) go" where
  "xPathTognmiPath xpath =
     bindR (pathElems (tl (go_split xpath ''/''))) (\<lambda>es.
       if length es = 0 then Inr (Inl (''Erroneous path: '' @ xpath))
       else Inr (Inr \<lparr>gp_Origin = [], gp_Target = [], gp_Elem = es\<rparr>))"


section \<open>Modes and intervals\<close>

definition gnmiMode :: "string \<Rightarrow> SubscriptionMode" where
  "gnmiMode inMode =
     (if inMode = ''on-change'' then ON_CHANGE
      else if inMode = ''target-defined'' then TARGET_DEFINED
      else SAMPLE)"

definition gGnmiFreqUnits :: "64 word" where "gGnmiFreqUnits = 1000000000"
definition gGnmiFreqMin :: "64 word" where "gGnmiFreqMin = 2000000000"

definition gnmiFreq :: "SubscriptionMode \<Rightarrow> 64 word \<Rightarrow> SubscriptionMode \<times> 64 word" where
  "gnmiFreq mode inFreq =
     (if mode = ON_CHANGE \<or> inFreq = 0 then (ON_CHANGE, 0)
      else
        let freq = (inFreq * gGnmiFreqUnits) div 1000
        in (mode, if freq \<noteq> 0 \<and> freq < gGnmiFreqMin then gGnmiFreqMin else freq))"

definition gnmiHeartBeat :: "64 word \<Rightarrow> 64 word" where
  "gnmiHeartBeat hb = (hb * gGnmiFreqUnits) div 10000"

fun subsOfPaths :: "PathsConfig list \<Rightarrow> (string + Subscription list) go" where
  "subsOfPaths [] = Inr (Inr [])"
| "subsOfPaths (p # ps) =
     bindR (xPathTognmiPath (p_Path p)) (\<lambda>r.
       case r of
         Inl err \<Rightarrow> Inr (Inl err)
       | Inr gp \<Rightarrow>
           (case gnmiFreq (gnmiMode (p_Mode p)) (p_Freq p) of (mode, freq) \<Rightarrow>
              bindR (subsOfPaths ps) (\<lambda>rest.
                Inr (bindR rest (\<lambda>subs.
                  Inr (\<lparr>s_Path = gp\<lparr>gp_Origin := p_Origin p\<rparr>, s_Mode = mode, s_SampleInterval = freq,
                         s_HeartbeatInterval = gnmiHeartBeat (p_Gnmi_heartbeat_interval p)\<rparr> # subs))))))"

fun subsOfDialOut :: "DialOutPath list \<Rightarrow> (string + Subscription list) go" where
  "subsOfDialOut [] = Inr (Inr [])"
| "subsOfDialOut (p # ps) =
     bindR (xPathTognmiPath (do_Path p)) (\<lambda>r.
       case r of
         Inl err \<Rightarrow> Inr (Inl err)
       | Inr gp \<Rightarrow>
           (case gnmiFreq (gnmiMode (do_Mode p)) (do_Frequency p) of (mode, freq) \<Rightarrow>
              bindR (subsOfDialOut ps) (\<lambda>rest.
                Inr (bindR rest (\<lambda>subs.
                  Inr (\<lparr>s_Path = gp, s_Mode = mode, s_SampleInterval = freq, s_HeartbeatInterval = 0\<rparr> # subs))))))"

text \<open>The second argument is nil (\<^term>\<open>None\<close>) except for dial-out.\<close>

definition xPathsTognmiSubscription ::
  "PathsConfig list \<Rightarrow> DialOutPath list option \<Rightarrow> (string + Subscription list) go" where
  "xPathsTognmiSubscription pathsCfg dialOutpathsCfg =
     (case dialOutpathsCfg of None \<Rightarrow> subsOfPaths pathsCfg | Some ds \<Rightarrow> subsOfDialOut ds)"


section \<open>Rendered paths\<close>

text \<open>
  The concrete syntax the parser is made for: an element is a name followed by bracket groups, and
  a group is a list of \<open>key="value"\<close> joined by \<open>and\<close>.
\<close>

type_synonym relem = "string \<times> (string \<times> string) list list"

definition render_kv :: "string \<times> string \<Rightarrow> string" where
  "render_kv kv = fst kv @ ''='' @ [CHR 0x22] @ snd kv @ [CHR 0x22]"

definition render_group :: "(string \<times> string) list \<Rightarrow> string" where
  "render_group g = ''['' @ go_join (map render_kv g) '' and '' @ '']''"

definition render_elem :: "relem \<Rightarrow> string" where
  "render_elem e = fst e @ concat (map render_group (snd e))"

definition render_path :: "relem list \<Rightarrow> string" where
  "render_path es = concat (map (\<lambda>e. ''/'' @ render_elem e) es)"

text \<open>
  Texts that survive: no separator of the syntax, not the word \<open>and\<close>, no blank or quote at either end.
\<close>

definition plain_text :: "string \<Rightarrow> bool" where
  "plain_text s \<longleftrightarrow>
     set s \<inter> {CHR ''/'', CHR ''['', CHR '']'', CHR ''='', CHR 0x0A, CHR 0x22} = {} \<and>
     \<not> contains ''and'' s \<and> (s = [] \<or> (hd s \<noteq> CHR '' '' \<and> last s \<noteq> CHR '' ''))"

definition elem_wf :: "relem \<Rightarrow> bool" where
  "elem_wf e \<longleftrightarrow> fst e \<noteq> [] \<and> set (fst e) \<inter> {CHR ''/'', CHR ''[''} = {} \<and>
     (\<forall>g \<in> set (snd e). g \<noteq> [] \<and> (\<forall>kv \<in> set g. plain_text (fst kv) \<and> plain_text (snd kv)))"

definition elem_of :: "relem \<Rightarrow> PathElem" where
  "elem_of e = \<lparr>pe_Name = fst e, pe_Key = mputs [] (concat (snd e))\<rparr>"

lemma plain_textD:
  assumes "plain_text s"
  shows "CHR ''/'' \<notin> set s" "CHR ''['' \<notin> set s" "CHR '']'' \<notin> set s" "CHR ''='' \<notin> set s"
    "CHR 0x0A \<notin> set s" "CHR 0x22 \<notin> set s" "\<not> contains ''and'' s"
  using assms by (auto simp: plain_text_def)

text \<open>Trimming gives a key and a value back.\<close>

lemma trim_plain:
  assumes "plain_text s" "set l \<subseteq> {CHR '' '', CHR 0x22}" "set r \<subseteq> {CHR '' '', CHR 0x22}"
  shows "go_trim (l @ s @ r) [CHR '' '', CHR 0x22] = s"
proof -
  have "go_trim (l @ s @ r) [CHR '' '', CHR 0x22] = trimBy (\<lambda>c. c \<in> set [CHR '' '', CHR 0x22]) s"
    unfolding go_trim_def using assms(2,3) by (intro trimBy_pad) auto
  also have "\<dots> = s"
  proof (rule trimBy_id)
    show "s = [] \<or> (hd s \<notin> set [CHR '' '', CHR 0x22] \<and> last s \<notin> set [CHR '' '', CHR 0x22])"
    proof (cases "s = []")
      case False
      then have "hd s \<in> set s" "last s \<in> set s" by simp_all
      with plain_textD(6) [OF assms(1)] have "hd s \<noteq> CHR 0x22" "last s \<noteq> CHR 0x22" by metis+
      with False assms(1) show ?thesis by (simp add: plain_text_def)
    qed simp
  qed
  finally show ?thesis .
qed

text \<open>Splitting at the word \<open>and\<close>, which cannot overlap with itself.\<close>

lemma prefix_and: "hasPrefix ''and'' s \<longleftrightarrow> (\<exists>r. s = CHR ''a'' # CHR ''n'' # CHR ''d'' # r)"
  by (simp add: hasPrefix_iff)

lemma and_straddle:
  assumes "\<not> contains ''and'' (c # cs)"
  shows "\<not> hasPrefix ''and'' (c # cs @ ''and'' @ r)"
proof
  assume h: "hasPrefix ''and'' (c # cs @ ''and'' @ r)"
  show False
  proof (cases cs)
    case Nil
    with h show False by simp
  next
    case (Cons d ds)
    with h assms show False by (cases ds) (auto simp: contains_iff)
  qed
qed

lemma go_split_acc_and:
  "\<not> contains ''and'' p \<Longrightarrow>
   go_split_acc ''and'' acc (p @ ''and'' @ r) = (acc @ p) # go_split_acc ''and'' [] r"
proof (induction p arbitrary: acc)
  case Nil
  then show ?case using go_split_acc_hit [of "''and''" acc r] by simp
next
  case (Cons c cs)
  then have "\<not> hasPrefix ''and'' (c # cs @ ''and'' @ r)" by (intro and_straddle)
  moreover have "\<not> contains ''and'' cs" using Cons.prems by simp
  ultimately show ?case
    using Cons.IH [of "acc @ [c]"] by (simp add: go_split_acc_Cons del: hasPrefix.simps)
qed

lemma go_split_and_none: "\<not> contains ''and'' p \<Longrightarrow> go_split_acc ''and'' acc p = [acc @ p]"
proof (induction p arbitrary: acc)
  case (Cons c cs)
  then show ?case by (simp add: go_split_acc_Cons del: hasPrefix.simps)
qed simp

lemma no_and_append:
  assumes "\<not> contains ''and'' a" "\<not> contains ''and'' b" "c \<noteq> CHR ''a''" "c \<noteq> CHR ''n''" "c \<noteq> CHR ''d''"
  shows "\<not> contains ''and'' (a @ c # b)"
  using assms(1)
proof (induction a)
  case Nil
  with assms show ?case by simp
next
  case (Cons x xs)
  then have "\<not> contains ''and'' (xs @ c # b)" by simp
  moreover have "\<not> hasPrefix ''and'' (x # xs @ c # b)"
  proof
    assume h: "hasPrefix ''and'' (x # xs @ c # b)"
    show False
    proof (cases xs)
      case Nil
      with h assms show False by simp
    next
      case C: (Cons y ys)
      with h assms Cons.prems show False by (cases ys) auto
    qed
  qed
  ultimately show ?case by (simp del: hasPrefix.simps)
qed

lemma render_kv_no_and:
  assumes "plain_text (fst kv)" "plain_text (snd kv)"
  shows "\<not> contains ''and'' (render_kv kv)" "\<not> contains ''and'' (render_kv kv @ '' '')"
proof -
  have v: "\<not> contains ''and'' (CHR 0x22 # snd kv @ CHR 0x22 # s)" if "\<not> contains ''and'' s" for s
    using no_and_append [of "[]" "snd kv @ CHR 0x22 # s" "CHR 0x22"]
      no_and_append [OF plain_textD(7) [OF assms(2)] that, of "CHR 0x22"] by simp
  have "\<not> contains ''and'' (fst kv @ CHR ''='' # CHR 0x22 # snd kv @ CHR 0x22 # s)" if "\<not> contains ''and'' s" for s
    using no_and_append [OF plain_textD(7) [OF assms(1)] v [OF that], of "CHR ''=''"] by simp
  from this [of "[]"] this [of "'' ''"]
  show "\<not> contains ''and'' (render_kv kv)" "\<not> contains ''and'' (render_kv kv @ '' '')"
    by (simp_all add: render_kv_def)
qed

lemma addPairs_one:
  assumes "plain_text (fst kv)" "plain_text (snd kv)" "set l \<subseteq> {CHR '' ''}" "set r \<subseteq> {CHR '' ''}"
  shows "addPairs result ((l @ render_kv kv @ r) # pairs) = addPairs (mput result (fst kv) (snd kv)) pairs"
proof -
  have "go_split (l @ render_kv kv @ r) ''='' = [l @ fst kv, [CHR 0x22] @ snd kv @ [CHR 0x22] @ r]"
  proof -
    have "CHR ''='' \<notin> set (l @ fst kv)" using assms(3) plain_textD(4) [OF assms(1)] by auto
    moreover have "CHR ''='' \<notin> set ([CHR 0x22] @ snd kv @ [CHR 0x22] @ r)"
      using assms(4) plain_textD(4) [OF assms(2)] by auto
    ultimately show ?thesis
      using go_split_char [of "CHR ''=''" "l @ fst kv" "[CHR 0x22] @ snd kv @ [CHR 0x22] @ r"]
      by (simp add: render_kv_def)
  qed
  moreover have "go_trim (l @ fst kv) [CHR '' '', CHR 0x22] = fst kv"
    using trim_plain [OF assms(1), of l "[]"] assms(3) by auto
  moreover have "go_trim ([CHR 0x22] @ snd kv @ [CHR 0x22] @ r) [CHR '' '', CHR 0x22] = snd kv"
    using trim_plain [OF assms(2), of "[CHR 0x22]" "[CHR 0x22] @ r"] assms(4) by auto
  ultimately show ?thesis by (simp add: at_def)
qed

lemma mputs_Cons: "mputs m (kv # kvs) = mputs (mput m (fst kv) (snd kv)) kvs"
  by (simp add: mputs_def case_prod_beta)

lemma mputs_append: "mputs m (a @ b) = mputs (mputs m a) b"
  by (simp add: mputs_def)

lemma addPairs_group:
  "g \<noteq> [] \<Longrightarrow> \<forall>kv \<in> set g. plain_text (fst kv) \<and> plain_text (snd kv) \<Longrightarrow> set l \<subseteq> {CHR '' ''} \<Longrightarrow>
   addPairs result (go_split_acc ''and'' l (go_join (map render_kv g) '' and '')) = Inr (mputs result g)"
proof (induction g arbitrary: l result)
  case (Cons kv g)
  then have kv: "plain_text (fst kv)" "plain_text (snd kv)" by simp_all
  show ?case
  proof (cases "g = []")
    case True
    with go_split_and_none [OF render_kv_no_and(1) [OF kv], of l] addPairs_one [OF kv Cons.prems(3), of "[]" result "[]"]
    show ?thesis by (simp add: mputs_def case_prod_beta)
  next
    case False
    define rest where "rest = go_join (map render_kv g) '' and ''"
    have join: "go_join (map render_kv (kv # g)) '' and '' = (render_kv kv @ '' '') @ ''and'' @ CHR '' '' # rest"
      using False by (simp add: rest_def go_join_Cons)
    have "go_split_acc ''and'' l (go_join (map render_kv (kv # g)) '' and '') =
        (l @ render_kv kv @ '' '') # go_split_acc ''and'' [] (CHR '' '' # rest)"
      unfolding join using go_split_acc_and [OF render_kv_no_and(2) [OF kv], of l "CHR '' '' # rest"] by simp
    also have "go_split_acc ''and'' [] (CHR '' '' # rest) = go_split_acc ''and'' '' '' rest"
      by (simp add: go_split_acc_Cons)
    finally show ?thesis
      using addPairs_one [OF kv Cons.prems(3), of "'' ''" result] Cons.IH [of "'' ''"] False Cons.prems(2)
      by (simp add: rest_def mputs_Cons del: addPairs.simps)
  qed
qed simp

lemma set_go_join: "set (go_join xs sep) \<subseteq> (\<Union>x \<in> set xs. set x) \<union> set sep"
  by (induction xs sep rule: go_join.induct) auto

lemma set_group_body:
  assumes "\<forall>kv \<in> set g. plain_text (fst kv) \<and> plain_text (snd kv)"
    and "c \<in> {CHR ''/'', CHR ''['', CHR '']'', CHR 0x0A}"
  shows "c \<notin> set (go_join (map render_kv g) '' and '')"
proof -
  have "c \<notin> set (render_kv kv)" if "kv \<in> set g" for kv
    using that assms plain_textD(1,2,3,5) [of "fst kv"] plain_textD(1,2,3,5) [of "snd kv"] by (auto simp: render_kv_def)
  moreover have "c \<notin> set '' and ''" using assms(2) by auto
  ultimately show ?thesis using set_go_join [of "map render_kv g" "'' and ''"] by auto
qed

lemma trimBy_none: "\<forall>c \<in> set s. \<not> p c \<Longrightarrow> trimBy p s = s"
  by (rule trimBy_id) (cases s, auto)

lemma trim_brackets:
  assumes "CHR ''['' \<notin> set b" "CHR '']'' \<notin> set b"
  shows "go_trim (''['' @ b @ '']'') ''[]'' = b"
proof -
  have "go_trim (''['' @ b @ '']'') ''[]'' = trimBy (\<lambda>c. c \<in> set ''[]'') b"
    unfolding go_trim_def by (intro trimBy_pad) auto
  also have "\<dots> = b" using assms by (intro trimBy_none) auto
  finally show ?thesis .
qed

lemma trim_group:
  assumes "\<forall>kv \<in> set g. plain_text (fst kv) \<and> plain_text (snd kv)"
  shows "go_trim (render_group g) ''[]'' = go_join (map render_kv g) '' and ''"
  unfolding render_group_def using set_group_body [OF assms] by (intro trim_brackets) auto

lemma bracketBody_hit: "CHR '']'' \<notin> set b \<Longrightarrow> CHR 0x0A \<notin> set b \<Longrightarrow> bracketBody (b @ '']'' @ r) = Some (b, r)"
  by (induction b) auto

lemma findBrackets_skip: "CHR ''['' \<notin> set n \<Longrightarrow> findBrackets (n @ s) = findBrackets s"
  by (induction n) auto

lemma findBrackets_groups:
  "\<forall>g \<in> set gs. \<forall>kv \<in> set g. plain_text (fst kv) \<and> plain_text (snd kv) \<Longrightarrow>
   findBrackets (concat (map render_group gs)) = map render_group gs"
proof (induction gs)
  case (Cons g gs)
  then have "bracketBody (go_join (map render_kv g) '' and '' @ '']'' @ concat (map render_group gs)) =
      Some (go_join (map render_kv g) '' and '', concat (map render_group gs))"
    using set_group_body [of g] by (intro bracketBody_hit) auto
  with Cons show ?case by (simp add: render_group_def [of g])
qed simp

lemma addMatches_groups:
  "\<forall>g \<in> set gs. g \<noteq> [] \<and> (\<forall>kv \<in> set g. plain_text (fst kv) \<and> plain_text (snd kv)) \<Longrightarrow>
   addMatches result (map render_group gs) = Inr (mputs result (concat gs))"
proof (induction gs arbitrary: result)
  case Nil
  then show ?case by (simp add: mputs_def)
next
  case (Cons g gs)
  then show ?case
    using trim_group [of g] addPairs_group [of g "[]" result]
    by (simp add: go_split_def mputs_append)
qed

lemma parse_render_elem:
  assumes "elem_wf e"
  shows "parseKeyValuePairs (render_elem e) = Inr (fst e, mputs [] (concat (snd e)))"
proof -
  have n: "CHR ''['' \<notin> set (fst e)" using assms by (simp add: elem_wf_def)
  have g: "\<forall>g \<in> set (snd e). g \<noteq> [] \<and> (\<forall>kv \<in> set g. plain_text (fst kv) \<and> plain_text (snd kv))"
    using assms by (simp add: elem_wf_def)
  have "at (go_splitN2 (render_elem e) ''['') 0 = Inr (fst e)"
  proof (cases "snd e")
    case Nil
    then have "cut ''['' (render_elem e) = None" using n by (simp add: cut_None_iff render_elem_def)
    with Nil show ?thesis by (simp add: go_splitN2_def at_def render_elem_def)
  next
    case (Cons x xs)
    then have "render_elem e = fst e @ ''['' @ tl (concat (map render_group (snd e)))"
      by (simp add: render_elem_def render_group_def)
    then have "cut ''['' (render_elem e) = Some (fst e, tl (concat (map render_group (snd e))))"
      using cut_skip [OF n, of "[]"] by simp
    then show ?thesis by (simp add: go_splitN2_def at_def)
  qed
  moreover have "findBrackets (render_elem e) = map render_group (snd e)"
    using findBrackets_skip [OF n] findBrackets_groups [of "snd e"] g by (simp add: render_elem_def)
  ultimately show ?thesis
    using addMatches_groups [OF g, of "[]"] by (simp add: parseKeyValuePairs_def)
qed

lemma slash_render_elem: "elem_wf e \<Longrightarrow> CHR ''/'' \<notin> set (render_elem e)"
proof
  assume wf: "elem_wf e" and "CHR ''/'' \<in> set (render_elem e)"
  then obtain g where g: "g \<in> set (snd e)" "CHR ''/'' \<in> set (render_group g)"
    by (auto simp: elem_wf_def render_elem_def)
  with wf have "\<forall>kv \<in> set g. plain_text (fst kv) \<and> plain_text (snd kv)" by (simp add: elem_wf_def)
  from set_group_body [OF this, of "CHR ''/''"] g(2) show False by (simp add: render_group_def)
qed

lemma split_render_path:
  "\<forall>e \<in> set es. elem_wf e \<Longrightarrow> go_split (render_path es) ''/'' = [] # map render_elem es"
proof (induction es)
  case Nil
  then show ?case by (simp add: render_path_def)
next
  case (Cons e es)
  have s: "CHR ''/'' \<notin> set (render_elem e)" using Cons.prems slash_render_elem by simp
  have "go_split (render_elem e @ render_path es) ''/'' = render_elem e # map render_elem es"
  proof (cases es)
    case Nil
    with s show ?thesis by (simp add: render_path_def)
  next
    case C: (Cons e' es')
    then obtain X where X: "render_path es = CHR ''/'' # X" by (simp add: render_path_def)
    with Cons have "go_split X ''/'' = map render_elem es" by simp
    with X s show ?thesis by (simp add: go_split_char)
  qed
  then show ?case by (simp add: render_path_def)
qed

lemma pathElems_render:
  "\<forall>e \<in> set es. elem_wf e \<Longrightarrow> pathElems (map render_elem es) = Inr (map elem_of es)"
proof (induction es)
  case (Cons e es)
  then have "render_elem e \<noteq> []" by (simp add: elem_wf_def render_elem_def)
  with Cons show ?case by (simp add: parse_render_elem elem_of_def)
qed simp


section \<open>Lemmas: intervals and subscriptions\<close>

lemma gnmiFreq_exact:
  assumes "uint f * 1000000000 < 2 ^ 64" "f \<noteq> 0" "mode \<noteq> ON_CHANGE"
  shows "fst (gnmiFreq mode f) = mode" "uint (snd (gnmiFreq mode f)) = max (uint f * 1000000) 2000000000"
proof -
  have m: "uint (f * gGnmiFreqUnits) = uint f * 1000000000"
    using assms(1) by (simp add: uint_word_ariths gGnmiFreqUnits_def)
  then have q: "uint ((f * gGnmiFreqUnits) div 1000) = uint f * 1000000"
    by (simp add: uint_div_distrib)
  show "fst (gnmiFreq mode f) = mode" using assms by (simp add: gnmiFreq_def Let_def)
  have pos: "0 < uint f" using assms(2) by (simp add: less_le unsigned_eq_0_iff)
  then have nz: "(f * gGnmiFreqUnits) div 1000 \<noteq> 0" using q by auto
  show "uint (snd (gnmiFreq mode f)) = max (uint f * 1000000) 2000000000"
    using assms(2,3) q nz by (simp add: gnmiFreq_def Let_def gGnmiFreqMin_def word_less_def max_def)
qed

text \<open>The subscription that a configured path with a rendered path text stands for.\<close>

definition sub_of :: "PathsConfig \<times> relem list \<Rightarrow> Subscription" where
  "sub_of pe =
     (case gnmiFreq (gnmiMode (p_Mode (fst pe))) (p_Freq (fst pe)) of (mode, freq) \<Rightarrow>
        \<lparr>s_Path = \<lparr>gp_Origin = p_Origin (fst pe), gp_Target = [], gp_Elem = map elem_of (snd pe)\<rparr>,
         s_Mode = mode, s_SampleInterval = freq,
         s_HeartbeatInterval = gnmiHeartBeat (p_Gnmi_heartbeat_interval (fst pe))\<rparr>)"

lemma xPath_render:
  "es \<noteq> [] \<Longrightarrow> \<forall>e \<in> set es. elem_wf e \<Longrightarrow>
   xPathTognmiPath (render_path es) = Inr (Inr \<lparr>gp_Origin = [], gp_Target = [], gp_Elem = map elem_of es\<rparr>)"
  by (simp add: xPathTognmiPath_def split_render_path pathElems_render)

lemma subs_render:
  "\<forall>pe \<in> set pes. snd pe \<noteq> [] \<and> (\<forall>e \<in> set (snd pe). elem_wf e) \<Longrightarrow>
   subsOfPaths (map (\<lambda>pe. (fst pe)\<lparr>p_Path := render_path (snd pe)\<rparr>) pes) = Inr (Inr (map sub_of pes))"
  by (induction pes) (auto simp: xPath_render sub_of_def split: prod.splits)

section \<open>Properties\<close>

text \<open>
  C3. Round trip: a path rendered with names, bracket groups and quoted key values is parsed back
  to the gNMI path with the same element names and, for every element, the map of its keys (a
  later occurrence of a key overrides an earlier one).
\<close>

theorem xPathTognmiPath_roundtrip:
  assumes "es \<noteq> []" and "\<forall>e \<in> set es. elem_wf e"
  shows "\<exists>gp. xPathTognmiPath (render_path es) = Inr (Inr gp) \<and>
    map pe_Name (gp_Elem gp) = map fst es \<and>
    map (\<lambda>pe. mget (pe_Key pe)) (gp_Elem gp) = map (\<lambda>e. map_of (rev (concat (snd e)))) es"
proof -
  have "mget (mputs [] kvs) k = map_of (rev kvs) k" for kvs :: "(string \<times> string) list" and k
    using gm.get_stores [of "[]" kvs k] by (simp add: mputs_eq_stores split: option.splits)
  then have "mget (mputs [] kvs) = map_of (rev kvs)" for kvs :: "(string \<times> string) list" by auto
  then show ?thesis by (simp add: xPath_render [OF assms] elem_of_def)
qed

theorem xPathTognmiPath_roundtrip_witness:
  "\<exists>gp. xPathTognmiPath (render_path [(''interfaces'', []), (''interface'', [[(''name'', ''ge''), (''unit'', ''0'')]])]) =
     Inr (Inr gp) \<and> map pe_Name (gp_Elem gp) = [''interfaces'', ''interface'']"
proof -
  have wf: "\<forall>e \<in> set [(''interfaces'', []), (''interface'', [[(''name'', ''ge''), (''unit'', ''0'')]])]. elem_wf e"
    by (simp add: elem_wf_def plain_text_def)
  from xPathTognmiPath_roundtrip [OF _ wf] show ?thesis by auto
qed

text \<open>
  A key value that contains the word \<open>and\<close> makes the parser panic with an index out of range:
  the value is split at the word, and the second half has no \<open>=\<close>.
\<close>

theorem parseKeyValuePairs_and_panics:
  assumes "CHR ''['' \<notin> set n" and "plain_text k" and "plain_text a" and "plain_text b"
  shows "parseKeyValuePairs (n @ ''['' @ k @ ''='' @ [CHR 0x22] @ a @ ''and'' @ b @ [CHR 0x22] @ '']'') = Inl IndexOutOfRange"
proof -
  let ?h = "k @ CHR ''='' # CHR 0x22 # a" and ?t = "b @ [CHR 0x22]"
  let ?body = "?h @ ''and'' @ ?t"
  have nobr: "CHR ''['' \<notin> set ?body" "CHR '']'' \<notin> set ?body" "CHR 0x0A \<notin> set ?body"
    using plain_textD [OF assms(2)] plain_textD [OF assms(3)] plain_textD [OF assms(4)] by auto
  have fb: "findBrackets (n @ ''['' @ ?body @ '']'') = [''['' @ ?body @ '']'']"
    using findBrackets_skip [OF assms(1), of "''['' @ ?body @ '']''"] bracketBody_hit [OF nobr(2,3), of "[]"] by simp
  have "go_trim (''['' @ ?body @ '']'') ''[]'' = ?body"
    using nobr(1,2) by (rule trim_brackets)
  moreover have "\<not> contains ''and'' ?h"
    using no_and_append [OF plain_textD(7) [OF assms(2)], of "CHR 0x22 # a" "CHR ''=''"]
      no_and_append [of "[]" a "CHR 0x22"] plain_textD(7) [OF assms(3)] by simp
  moreover have "\<not> contains ''and'' ?t"
    using no_and_append [OF plain_textD(7) [OF assms(4)], of "[]" "CHR 0x22"] by simp
  ultimately have split: "go_split (go_trim (''['' @ ?body @ '']'') ''[]'') ''and'' = [?h, ?t]"
    using go_split_acc_and [of ?h "[]" ?t] go_split_and_none [of ?t "[]"] by (simp add: go_split_def)
  have "go_split ?h ''='' = [k, CHR 0x22 # a]"
    using go_split_char [of "CHR ''=''" k "CHR 0x22 # a"] plain_textD(4) [OF assms(2)] plain_textD(4) [OF assms(3)] by simp
  moreover have "go_split ?t ''='' = [?t]" using plain_textD(4) [OF assms(4)] by simp
  ultimately have "addMatches [] [''['' @ ?body @ '']''] = Inl IndexOutOfRange"
    by (simp add: split [simplified] at_def)
  moreover have "at (go_splitN2 (n @ ''['' @ ?body @ '']'') ''['') 0 = Inr n"
    using cut_skip [OF assms(1), of "[]" "?body @ '']''"] by (simp add: go_splitN2_def at_def)
  ultimately show ?thesis using fb by (simp add: parseKeyValuePairs_def)
qed

theorem parseKeyValuePairs_and_panics_witness:
  "parseKeyValuePairs (''interface'' @ ''['' @ ''name'' @ ''='' @ [CHR 0x22] @ ''b'' @ ''and'' @ ''width'' @ [CHR 0x22] @ '']'') =
   Inl IndexOutOfRange"
  by (rule parseKeyValuePairs_and_panics) (simp_all add: plain_text_def)

text \<open>
  Every subscription formed from configured paths is the one of the rendered path, with the
  configured origin; its interval is zero exactly for on-change subscriptions and is otherwise the
  configured interval in nanoseconds, raised to at least two seconds, as long as the interval in
  nanoseconds times one thousand fits in 64 bits.
\<close>

theorem xPathsTognmiSubscription_ok:
  assumes "\<forall>pe \<in> set pes. snd pe \<noteq> [] \<and> (\<forall>e \<in> set (snd pe). elem_wf e) \<and> uint (p_Freq (fst pe)) * 1000000000 < 2 ^ 64"
  shows "\<exists>subs. xPathsTognmiSubscription (map (\<lambda>pe. (fst pe)\<lparr>p_Path := render_path (snd pe)\<rparr>) pes) None = Inr (Inr subs) \<and>
    map (\<lambda>s. gp_Elem (s_Path s)) subs = map (\<lambda>pe. map elem_of (snd pe)) pes \<and>
    map (\<lambda>s. gp_Origin (s_Path s)) subs = map (\<lambda>pe. p_Origin (fst pe)) pes \<and>
    (\<forall>i < length pes.
       if p_Freq (fst (pes ! i)) = 0 \<or> p_Mode (fst (pes ! i)) = ''on-change''
       then s_Mode (subs ! i) = ON_CHANGE \<and> s_SampleInterval (subs ! i) = 0
       else s_Mode (subs ! i) = gnmiMode (p_Mode (fst (pes ! i))) \<and>
         uint (s_SampleInterval (subs ! i)) = max (uint (p_Freq (fst (pes ! i))) * 1000000) 2000000000)"
proof -
  let ?subs = "map sub_of pes"
  have "xPathsTognmiSubscription (map (\<lambda>pe. (fst pe)\<lparr>p_Path := render_path (snd pe)\<rparr>) pes) None = Inr (Inr ?subs)"
    using assms subs_render [of pes] by (simp add: xPathsTognmiSubscription_def)
  moreover have oc: "gnmiMode m = ON_CHANGE \<longleftrightarrow> m = ''on-change''" for m by (simp add: gnmiMode_def)
  have "if p_Freq (fst pe) = 0 \<or> p_Mode (fst pe) = ''on-change''
       then s_Mode (sub_of pe) = ON_CHANGE \<and> s_SampleInterval (sub_of pe) = 0
       else s_Mode (sub_of pe) = gnmiMode (p_Mode (fst pe)) \<and>
         uint (s_SampleInterval (sub_of pe)) = max (uint (p_Freq (fst pe)) * 1000000) 2000000000"
    if "pe \<in> set pes" for pe
  proof (cases "p_Freq (fst pe) = 0 \<or> p_Mode (fst pe) = ''on-change''")
    case True
    then have "gnmiFreq (gnmiMode (p_Mode (fst pe))) (p_Freq (fst pe)) = (ON_CHANGE, 0)"
      by (auto simp: gnmiFreq_def gnmiMode_def)
    with True show ?thesis by (simp add: sub_of_def)
  next
    case False
    with assms that oc gnmiFreq_exact [of "p_Freq (fst pe)" "gnmiMode (p_Mode (fst pe))"]
    show ?thesis by (cases "gnmiFreq (gnmiMode (p_Mode (fst pe))) (p_Freq (fst pe))") (simp add: sub_of_def)
  qed
  moreover have "map (\<lambda>s. gp_Elem (s_Path s)) ?subs = map (\<lambda>pe. map elem_of (snd pe)) pes"
    "map (\<lambda>s. gp_Origin (s_Path s)) ?subs = map (\<lambda>pe. p_Origin (fst pe)) pes"
    by (simp_all add: sub_of_def split: prod.splits)
  ultimately show ?thesis by (intro exI [of _ ?subs]) (simp add: nth_mem)
qed

theorem xPathsTognmiSubscription_ok_witness:
  "\<exists>subs. xPathsTognmiSubscription (map (\<lambda>pe. (fst pe)\<lparr>p_Path := render_path (snd pe)\<rparr>)
     [(\<lparr>p_Path = [], p_Freq = 1000, p_Mode = ''sample'', p_Origin = ''oc'', p_Target = [], p_PreGnmi = False,
        p_Gnmi = False, p_Gnmi_heartbeat_interval = 0\<rparr>, [(''interfaces'', [])])]) None = Inr (Inr subs) \<and>
     uint (s_SampleInterval (subs ! 0)) = 2000000000"
proof -
  let ?pes = "[(\<lparr>p_Path = [], p_Freq = 1000, p_Mode = ''sample'', p_Origin = ''oc'', p_Target = [], p_PreGnmi = False,
        p_Gnmi = False, p_Gnmi_heartbeat_interval = 0\<rparr>, [(''interfaces'', [] :: (string \<times> string) list list)])]"
  have "\<forall>pe \<in> set ?pes. snd pe \<noteq> [] \<and> (\<forall>e \<in> set (snd pe). elem_wf e) \<and> uint (p_Freq (fst pe)) * 1000000000 < 2 ^ 64"
    by (simp add: elem_wf_def)
  from xPathsTognmiSubscription_ok [OF this] show ?thesis by (auto simp: gnmiMode_def)
qed

text \<open>
  A key value that contains a slash is not kept in one element: the path is split at every
  slash, the element loses its key, and the rest of the value becomes an element of its own.
\<close>

theorem xPathTognmiPath_slash_in_key:
  assumes "n \<noteq> []" and "set n \<inter> {CHR ''/'', CHR ''[''} = {}" and "plain_text k" and "plain_text a" and "plain_text b"
  shows "xPathTognmiPath (''/'' @ n @ ''['' @ k @ ''='' @ [CHR 0x22] @ a @ ''/'' @ b @ [CHR 0x22] @ '']'') =
    Inr (Inr \<lparr>gp_Origin = [], gp_Target = [],
      gp_Elem = [\<lparr>pe_Name = n, pe_Key = []\<rparr>, \<lparr>pe_Name = b @ [CHR 0x22] @ '']'', pe_Key = []\<rparr>]\<rparr>)"
proof -
  let ?e1 = "n @ CHR ''['' # (k @ ''='' @ [CHR 0x22] @ a)" and ?e2 = "b @ [CHR 0x22] @ '']''"
  have n: "CHR ''['' \<notin> set n" "CHR ''/'' \<notin> set n" using assms(2) by auto
  note p = plain_textD [OF assms(3)] plain_textD [OF assms(4)] plain_textD [OF assms(5)]
  have "CHR ''/'' \<notin> set ?e1" "CHR ''/'' \<notin> set ?e2" using n p by auto
  then have split: "go_split (CHR ''/'' # ?e1 @ CHR ''/'' # ?e2) ''/'' = [[], ?e1, ?e2]"
    by (simp add: go_split_char del: append_assoc)
  have bb: "bracketBody s = None" if "CHR '']'' \<notin> set s" for s
    using that by (induction s) auto
  have skip: "findBrackets s = []" if "CHR ''['' \<notin> set s" for s
    using findBrackets_skip [OF that, of "[]"] by simp
  have "findBrackets ?e1 = []" "findBrackets ?e2 = []"
    using findBrackets_skip [OF n(1)] bb [of "k @ ''='' @ [CHR 0x22] @ a"] skip [of "k @ ''='' @ [CHR 0x22] @ a"]
      skip [of ?e2] p by simp_all
  moreover have "at (go_splitN2 ?e1 ''['') 0 = Inr n"
    using cut_skip [OF n(1), of "[]" "k @ ''='' @ [CHR 0x22] @ a"] by (simp add: go_splitN2_def at_def)
  moreover have "cut ''['' ?e2 = None" using p by (simp add: cut_None_iff)
  then have "at (go_splitN2 ?e2 ''['') 0 = Inr ?e2" by (simp add: go_splitN2_def at_def)
  ultimately have "parseKeyValuePairs ?e1 = Inr (n, [])" "parseKeyValuePairs ?e2 = Inr (?e2, [])"
    by (simp_all add: parseKeyValuePairs_def)
  with split show ?thesis by (simp add: xPathTognmiPath_def)
qed

theorem xPathTognmiPath_slash_in_key_witness:
  "xPathTognmiPath (''/'' @ ''interface'' @ ''['' @ ''name'' @ ''='' @ [CHR 0x22] @ ''ge-0'' @ ''/'' @ ''1'' @ [CHR 0x22] @ '']'') =
    Inr (Inr \<lparr>gp_Origin = [], gp_Target = [],
      gp_Elem = [\<lparr>pe_Name = ''interface'', pe_Key = []\<rparr>, \<lparr>pe_Name = ''1'' @ [CHR 0x22] @ '']'', pe_Key = []\<rparr>]\<rparr>)"
  by (rule xPathTognmiPath_slash_in_key) (simp_all add: plain_text_def)

text \<open>
  The sample interval and the heartbeat interval are not in the same unit: the same configured
  number gives a heartbeat interval ten times shorter than the sample interval.
\<close>

lemma gnmiHeartBeat_unit:
  assumes "uint f * 1000000000 < 2 ^ 64" "2000 \<le> uint f"
  shows "uint (snd (gnmiFreq SAMPLE f)) = 10 * uint (gnmiHeartBeat f)"
proof -
  have "uint (f * gGnmiFreqUnits) = uint f * 1000000000"
    using assms(1) by (simp add: uint_word_ariths gGnmiFreqUnits_def)
  then have "uint (gnmiHeartBeat f) = uint f * 100000" by (simp add: gnmiHeartBeat_def uint_div_distrib)
  moreover have "f \<noteq> 0" using assms(2) by auto
  ultimately show ?thesis using gnmiFreq_exact [OF assms(1), of SAMPLE] assms(2) by simp
qed

end
