(* ===== verification/XPath.thy ===== *)
theory XPath
  imports GnmiPath
begin

text \<open>
  Aliases (alias.go) and the splitting of an XML path with predicates into a path and tags
  (\<open>spitTagsNPath\<close> of influx.go).

  The regular expression \<open>MatchExpressionXpath\<close> matches a slash, an element name without slashes that is as long as
  possible, and a predicate in brackets up to the first closing bracket; \<open>xgreedy\<close> tries the longer
  names first, as the matcher does. \<open>MatchExpressionKey\<close> matches a key made of letters, digits, dashes
  and slashes directly before an equals sign, and a value up to the word \<open>and\<close> between blanks or the end
  of the text.
\<close>

section \<open>Aliases\<close>

text \<open>
  \<open>NewAlias\<close> on the content of the file (\<^term>\<open>None\<close> when it cannot be opened). Only lines that end with a
  newline are read: \<open>ReadString\<close> reports the end of the file together with an unfinished last line.
\<close>

fun aliasLines :: "(string, string) gomap \<Rightarrow> string list \<Rightarrow> (string, string) gomap option" where
  "aliasLines m [] = Some m"
| "aliasLines m (line # ls) =
     (let tokens = go_split (line @ [CHR 0x0A]) '':''
      in if length tokens \<noteq> 2 then None
         else aliasLines (mput m (go_trimSpace (tokens ! 1)) (go_trimSpace (tokens ! 0))) ls)"

definition NewAlias :: "string option \<Rightarrow> Alias option" where
  "NewAlias content =
     (case content of
        None \<Rightarrow> None
      | Some c \<Rightarrow> aliasLines [] (butlast (go_split c [CHR 0x0A])))"

definition getAlias :: "Alias option \<Rightarrow> string \<Rightarrow> string" where
  "getAlias a input =
     (case a of
        None \<Rightarrow> input
      | Some m \<Rightarrow> (case mget m input of None \<Rightarrow> input | Some name \<Rightarrow> name))"


section \<open>Matching\<close>

text \<open>At a slash: the name, the text of the predicate and what follows it.\<close>

fun xgreedy :: "string \<Rightarrow> string \<Rightarrow> (string \<times> string \<times> string) option" where
  "xgreedy acc [] = None"
| "xgreedy acc (c # cs) =
     (if c = CHR ''/'' then None
      else
        (case xgreedy (acc @ [c]) cs of
           Some m \<Rightarrow> Some m
         | None \<Rightarrow>
             if c = CHR ''['' then map_option (\<lambda>(b, r). (acc, b, r)) (bracketBody cs) else None))"

lemma xgreedy_length: "xgreedy acc s = Some (n, b, r) \<Longrightarrow> length r < length s"
  by (induction s arbitrary: acc)
    (auto split: if_splits option.splits dest: bracketBody_length less_SucI)

function xfind :: "string \<Rightarrow> (string \<times> string \<times> string) list" where
  "xfind [] = []"
| "xfind (c # cs) =
     (if c = CHR ''/'' then
        (case xgreedy [] cs of
           Some (n, b, r) \<Rightarrow> (''/'' @ n @ ''['' @ b @ '']'', n, b) # xfind r
         | None \<Rightarrow> xfind cs)
      else xfind cs)"
  by pat_completeness auto
termination
  by (relation "measure length") (auto dest: xgreedy_length less_SucI)

definition kclass :: "char \<Rightarrow> bool" where
  "kclass c \<longleftrightarrow> is_letter c \<or> is_digit c \<or> c = CHR ''-'' \<or> c = CHR ''/''"

function skipAnds :: "string \<Rightarrow> string" where
  "skipAnds s = (if hasPrefix '' and '' s then skipAnds (drop 5 s) else s)"
  by pat_completeness auto
termination
  by (relation "measure length") (auto simp: hasPrefix_iff)

declare skipAnds.simps [simp del]

fun kval :: "string \<Rightarrow> (string \<times> string) option" where
  "kval [] = Some ([], [])"
| "kval (c # cs) =
     (if hasPrefix '' and '' (c # cs) then Some ([], skipAnds (c # cs))
      else if c = CHR 0x0A then None
      else map_option (\<lambda>(v, r). (c # v, r)) (kval cs))"

definition keyAt :: "string \<Rightarrow> (string \<times> string \<times> string) option" where
  "keyAt s =
     (case dropWhile kclass s of
        [] \<Rightarrow> None
      | c # cs \<Rightarrow>
          if c = CHR ''='' then map_option (\<lambda>(v, r). (takeWhile kclass s, v, r)) (kval cs) else None)"

lemma skipAnds_length: "length (skipAnds s) \<le> length s"
proof (induction s rule: skipAnds.induct)
  case (1 s)
  show ?case
  proof (cases "hasPrefix '' and '' s")
    case True
    from 1 [OF True] have "length (skipAnds (drop 5 s)) \<le> length s" by simp
    with True show ?thesis by (simp add: skipAnds.simps [of s])
  qed (simp add: skipAnds.simps [of s])
qed

lemma kval_length: "kval s = Some (v, r) \<Longrightarrow> length r \<le> length s"
proof (induction s arbitrary: v)
  case (Cons c cs)
  then show ?case
    using skipAnds_length [of "c # cs"] by (auto split: if_splits intro: le_SucI)
qed simp

lemma keyAt_length:
  assumes "keyAt s = Some (k, v, r)"
  shows "length r < length s"
proof -
  from assms obtain cs where cs: "dropWhile kclass s = CHR ''='' # cs" "kval cs = Some (v, r)"
    by (auto simp: keyAt_def split: list.splits if_splits)
  have "length r \<le> length cs" using kval_length [OF cs(2)] .
  also have "length cs < length (dropWhile kclass s)" by (simp add: cs)
  also have "\<dots> \<le> length s" by (rule length_dropWhile_le)
  finally show ?thesis .
qed

function kfind :: "string \<Rightarrow> (string \<times> string) list" where
  "kfind [] = []"
| "kfind (c # cs) =
     (case keyAt (c # cs) of
        Some (k, v, r) \<Rightarrow> (k, v) # kfind r
      | None \<Rightarrow> kfind cs)"
  by pat_completeness auto
termination
  by (relation "measure length") (auto dest: keyAt_length)


section \<open>Splitting a path\<close>

definition addTags ::
  "Alias option \<Rightarrow> string \<Rightarrow> string \<Rightarrow> (string, string) gomap \<Rightarrow> (string \<times> string) list \<Rightarrow> (string, string) gomap" where
  "addTags a tagKeyPrefix name tags keyValues =
     foldl (\<lambda>m (k, v).
       mput m (getAlias a (tagKeyPrefix @ ''/'' @ go_trimSpace name @ ''/@'' @ go_trimSpace k))
         (filter (\<lambda>c. c \<noteq> CHR 0x27) (go_trimSpace v))) tags keyValues"

fun spitLoop ::
  "Alias option \<Rightarrow> (string \<times> string \<times> string) list \<Rightarrow> string \<Rightarrow> (string, string) gomap \<Rightarrow> string \<times> (string, string) gomap" where
  "spitLoop a [] xmlpath tags = (xmlpath, tags)"
| "spitLoop a ((whole, name, pred) # subs) xmlpath tags =
     spitLoop a subs
       (getAlias a (go_replace1 xmlpath whole (''/'' @ go_trimSpace name)))
       (addTags a (hd (go_split xmlpath whole)) name tags (kfind pred))"

definition spit :: "Alias option \<Rightarrow> string \<Rightarrow> string \<times> (string, string) gomap" where
  "spit a xmlpath = spitLoop a (xfind xmlpath) xmlpath []"

text \<open>The regular expressions are compiled by \<open>influxInit\<close>; before, they are nil.\<close>

definition spitTagsNPath :: "JCtx \<Rightarrow> string \<Rightarrow> (string \<times> (string, string) gomap) go" where
  "spitTagsNPath jctx xmlpath =
     (if reCompiled (influxCtx jctx) then Inr (spit (jalias jctx) xmlpath) else Inl NilDeref)"

definition SubscriptionPathFromPath :: "string \<Rightarrow> string" where
  "SubscriptionPathFromPath path =
     (let tokens = go_split path '':'' in if length tokens = 4 then tokens ! 2 else [])"


section \<open>Lemmas: matching\<close>

lemma xgreedy_none: "CHR ''['' \<notin> set (takeWhile (\<lambda>c. c \<noteq> CHR ''/'') t) \<Longrightarrow> xgreedy acc t = None"
  by (induction t arbitrary: acc) (auto split: if_splits)

text \<open>What follows an element of a path: nothing, or a slash.\<close>

definition at_slash :: "string \<Rightarrow> bool" where
  "at_slash s \<longleftrightarrow> s = [] \<or> hd s = CHR ''/''"

lemma takeWhile_slash:
  assumes "at_slash rest"
  shows "set (takeWhile (\<lambda>c. c \<noteq> CHR ''/'') (t @ rest)) \<subseteq> set t"
proof -
  have "takeWhile (\<lambda>c. c \<noteq> CHR ''/'') rest = []"
    using assms by (cases rest) (auto simp: at_slash_def)
  then show ?thesis by (auto simp: takeWhile_append dest: set_takeWhileD)
qed

lemma xgreedy_pred:
  assumes "set n \<inter> {CHR ''/'', CHR ''[''} = {}" "set b \<inter> {CHR ''['', CHR '']'', CHR 0x0A} = {}" "at_slash rest"
  shows "xgreedy acc (n @ ''['' @ b @ '']'' @ rest) = Some (acc @ n, b, rest)"
  using assms(1)
proof (induction n arbitrary: acc)
  case Nil
  have "CHR ''['' \<notin> set (takeWhile (\<lambda>c. c \<noteq> CHR ''/'') ((b @ '']'') @ rest))"
    using takeWhile_slash [OF assms(3), of "b @ '']''"] assms(2) by auto
  then have "xgreedy (acc @ ''['') (b @ '']'' @ rest) = None" by (intro xgreedy_none) simp
  moreover have "bracketBody (b @ '']'' @ rest) = Some (b, rest)" using assms(2) by (intro bracketBody_hit) auto
  ultimately show ?case by simp
next
  case (Cons c n)
  then show ?case by auto
qed

lemma xfind_skip: "CHR ''/'' \<notin> set n \<Longrightarrow> xfind (n @ s) = xfind s"
  by (induction n) auto

lemma xfind_plain:
  assumes "set n \<inter> {CHR ''/'', CHR ''[''} = {}" "at_slash rest"
  shows "xfind (''/'' @ n @ rest) = xfind rest"
proof -
  have "CHR ''['' \<notin> set (takeWhile (\<lambda>c. c \<noteq> CHR ''/'') (n @ rest))"
    using takeWhile_slash [OF assms(2), of n] assms(1) by auto
  then have "xgreedy [] (n @ rest) = None" by (rule xgreedy_none)
  moreover have "CHR ''/'' \<notin> set n" using assms(1) by auto
  ultimately show ?thesis by (simp add: xfind_skip)
qed

lemma skipAnds_stop: "s = [] \<or> hd s \<noteq> CHR '' '' \<Longrightarrow> skipAnds s = s"
  by (subst skipAnds.simps) (auto simp: hasPrefix_iff)

text \<open>A value ends at the first \<open>and\<close> between blanks, or with the text.\<close>

lemma and_straddle_q:
  assumes "\<not> contains '' and '' (c # v)" "last (c # v) = CHR 0x27"
  shows "\<not> hasPrefix '' and '' (c # v @ '' and '' @ r)"
proof
  assume "hasPrefix '' and '' (c # v @ '' and '' @ r)"
  then obtain t where t: "c # v @ '' and '' @ r = '' and '' @ t" by (auto simp: hasPrefix_iff)
  show False
  proof (cases "5 \<le> length (c # v)")
    case True
    have "take 5 (c # v @ '' and '' @ r) = take 5 ('' and '' @ t)" by (simp only: t)
    then have "take 5 (c # v @ '' and '' @ r) = '' and ''" by simp
    with True have "take 5 (c # v) = '' and ''" by simp
    then have "c # v = [] @ '' and '' @ drop 5 (c # v)" by (metis append_Nil append_take_drop_id)
    with assms(1) show False unfolding contains_iff by blast
  next
    case False
    then have l: "length v < 5" by simp
    have "(c # v @ '' and '' @ r) ! length v = last (c # v)"
      by (simp add: last_conv_nth nth_append nth_Cons')
    moreover have "('' and '' @ t) ! length v = '' and '' ! length v" using l by (subst nth_append) simp
    ultimately have "CHR 0x27 = '' and '' ! length v" unfolding t using assms(2) by metis
    moreover from l have "length v = 0 \<or> length v = 1 \<or> length v = 2 \<or> length v = 3 \<or> length v = 4" by linarith
    ultimately show False by (elim disjE) (simp_all only: nth_Cons_0 nth_Cons_Suc numeral_nat, simp_all)
  qed
qed

lemma kval_and:
  assumes "\<not> contains '' and '' v" "v \<noteq> []" "last v = CHR 0x27" "CHR 0x0A \<notin> set v" "r = [] \<or> hd r \<noteq> CHR '' ''"
  shows "kval (v @ '' and '' @ r) = Some (v, r)"
  using assms(1-4)
proof (induction v)
  case (Cons c v)
  then have "\<not> hasPrefix '' and '' (c # v @ '' and '' @ r)" by (intro and_straddle_q)
  moreover have "kval (v @ '' and '' @ r) = Some (v, r)"
  proof (cases "v = []")
    case True
    have "skipAnds ('' and '' @ r) = r" using assms(5) by (subst skipAnds.simps) (simp add: skipAnds_stop)
    with True show ?thesis by simp
  next
    case False
    with Cons show ?thesis by simp
  qed
  ultimately show ?case using Cons.prems by (auto simp del: hasPrefix.simps)
qed simp

lemma kval_end: "\<not> contains '' and '' v \<Longrightarrow> CHR 0x0A \<notin> set v \<Longrightarrow> kval v = Some (v, [])"
  by (induction v) (auto simp del: hasPrefix.simps)

lemma keyAt_key:
  assumes "\<forall>c \<in> set k. kclass c"
  shows "keyAt (k @ ''='' @ s) = map_option (\<lambda>(v, r). (k, v, r)) (kval s)"
proof -
  have e: "\<not> kclass CHR ''=''" by code_simp
  have "dropWhile kclass (k @ CHR ''='' # s) = CHR ''='' # s" using assms e by (induction k) auto
  moreover have "takeWhile kclass (k @ CHR ''='' # s) = k" using assms e by (induction k) auto
  ultimately show ?thesis by (simp add: keyAt_def)
qed

lemma kfind_keyAt: "keyAt s = Some (k, v, r) \<Longrightarrow> kfind s = (k, v) # kfind r"
  by (cases s) (simp_all add: keyAt_def)


section \<open>Rendered XML paths\<close>

text \<open>The syntax of the devices: \<open>/name[key='value' and key='value']\<close>.\<close>

type_synonym xelem = "string \<times> (string \<times> string) list"

definition xrender_kv :: "string \<times> string \<Rightarrow> string" where
  "xrender_kv kv = fst kv @ ''='' @ [CHR 0x27] @ snd kv @ [CHR 0x27]"

definition xrender_elem :: "xelem \<Rightarrow> string" where
  "xrender_elem e = ''/'' @ fst e @
     (if snd e = [] then [] else ''['' @ go_join (map xrender_kv (snd e)) '' and '' @ '']'')"

definition xrender :: "xelem list \<Rightarrow> string" where
  "xrender es = concat (map xrender_elem es)"

definition xpath_only :: "xelem list \<Rightarrow> string" where
  "xpath_only es = concat (map (\<lambda>e. ''/'' @ fst e) es)"

definition xkv_wf :: "string \<times> string \<Rightarrow> bool" where
  "xkv_wf kv \<longleftrightarrow> (\<forall>c \<in> set (fst kv). kclass c) \<and>
     set (snd kv) \<inter> {CHR ''['', CHR '']'', CHR 0x0A, CHR 0x27} = {} \<and> \<not> contains '' and '' (snd kv)"

definition xname_wf :: "string \<Rightarrow> bool" where
  "xname_wf n \<longleftrightarrow> set n \<inter> {CHR ''/'', CHR ''[''} = {} \<and> (n = [] \<or> (\<not> is_space (hd n) \<and> \<not> is_space (last n)))"

definition xelem_wf :: "xelem \<Rightarrow> bool" where
  "xelem_wf e \<longleftrightarrow> xname_wf (fst e) \<and> (\<forall>kv \<in> set (snd e). xkv_wf kv)"

text \<open>The tags of a path, in the order in which they are stored.\<close>

fun xtags :: "string \<Rightarrow> xelem list \<Rightarrow> (string \<times> string) list" where
  "xtags P [] = []"
| "xtags P (e # es) =
     map (\<lambda>(k, v). (P @ ''/'' @ fst e @ ''/@'' @ k, v)) (snd e) @ xtags (P @ ''/'' @ fst e) es"

lemma no_and_quoted:
  assumes "\<not> contains '' and '' v"
  shows "\<not> contains '' and '' ([CHR 0x27] @ v @ [CHR 0x27])"
proof
  assume "contains '' and '' ([CHR 0x27] @ v @ [CHR 0x27])"
  then obtain a b where ab: "[CHR 0x27] @ v @ [CHR 0x27] = a @ '' and '' @ b" by (auto simp: contains_iff)
  then obtain a' where a: "a = CHR 0x27 # a'" by (cases a) auto
  with ab have "v @ [CHR 0x27] = a' @ '' and '' @ b" by simp
  then have "b \<noteq> []" by (cases b rule: rev_cases) auto
  then obtain b' where "b = b' @ [CHR 0x27]" "v = a' @ '' and '' @ b'"
    using \<open>v @ [CHR 0x27] = a' @ '' and '' @ b\<close> by (cases b rule: rev_cases) auto
  with assms show False unfolding contains_iff by blast
qed

lemma kfind_render:
  "\<forall>kv \<in> set kvs. xkv_wf kv \<Longrightarrow>
   kfind (go_join (map xrender_kv kvs) '' and '') = map (\<lambda>kv. (fst kv, [CHR 0x27] @ snd kv @ [CHR 0x27])) kvs"
proof (induction kvs)
  case (Cons kv kvs)
  let ?q = "[CHR 0x27] @ snd kv @ [CHR 0x27]"
  have wf: "\<forall>c \<in> set (fst kv). kclass c" "CHR 0x0A \<notin> set ?q" "\<not> contains '' and '' ?q"
    using Cons.prems no_and_quoted [of "snd kv"] by (auto simp: xkv_wf_def)
  show ?case
  proof (cases kvs)
    case Nil
    then have "keyAt (xrender_kv kv) = Some (fst kv, ?q, [])"
      using keyAt_key [OF wf(1), of ?q] kval_end [OF wf(3,2)] by (simp add: xrender_kv_def)
    with Nil show ?thesis by (simp add: kfind_keyAt)
  next
    case C: (Cons kv' kvs')
    let ?rest = "go_join (map xrender_kv kvs) '' and ''"
    have nsp: "\<not> kclass CHR '' ''" by code_simp
    have "hd ?rest \<noteq> CHR '' ''"
    proof -
      have "hd (xrender_kv kv' @ s) \<noteq> CHR '' ''" for s
        using Cons.prems C nsp by (cases "fst kv'") (auto simp: xrender_kv_def xkv_wf_def)
      then show ?thesis using C by (cases kvs') (metis append_Nil2 go_join.simps(2) list.simps(8,9), simp add: go_join_Cons)
    qed
    then have "kval (?q @ '' and '' @ ?rest) = Some (?q, ?rest)"
      by (intro kval_and [OF wf(3) _ _ wf(2)]) auto
    then have "keyAt (xrender_kv kv @ '' and '' @ ?rest) = Some (fst kv, ?q, ?rest)"
      using keyAt_key [OF wf(1), of "?q @ '' and '' @ ?rest"] by (simp add: xrender_kv_def)
    then have "kfind (xrender_kv kv @ '' and '' @ ?rest) = (fst kv, ?q) # kfind ?rest" by (rule kfind_keyAt)
    with Cons C show ?thesis by (simp add: go_join_Cons)
  qed
qed simp

lemma set_xpred:
  assumes "\<forall>kv \<in> set kvs. xkv_wf kv"
  shows "set (go_join (map xrender_kv kvs) '' and '') \<inter> {CHR ''['', CHR '']'', CHR 0x0A} = {}"
proof -
  have k: "\<not> kclass CHR ''[''" "\<not> kclass CHR '']''" "\<not> kclass CHR 0x0A" by code_simp+
  have "set (xrender_kv kv) \<inter> {CHR ''['', CHR '']'', CHR 0x0A} = {}" if "kv \<in> set kvs" for kv
    using assms that k unfolding xkv_wf_def xrender_kv_def by fastforce
  moreover have "set '' and '' \<inter> {CHR ''['', CHR '']'', CHR 0x0A} = {}" by auto
  ultimately show ?thesis using set_go_join [of "map xrender_kv kvs" "'' and ''"] by fastforce
qed

lemma xrender_at_slash: "at_slash (xrender es)"
  by (cases es) (auto simp: at_slash_def xrender_def xrender_elem_def)

lemma xfind_render:
  "\<forall>e \<in> set es. xelem_wf e \<Longrightarrow>
   xfind (xrender es) =
     map (\<lambda>e. (xrender_elem e, fst e, go_join (map xrender_kv (snd e)) '' and '')) (filter (\<lambda>e. snd e \<noteq> []) es)"
proof (induction es)
  case Nil
  then show ?case by (simp add: xrender_def)
next
  case (Cons e es)
  let ?b = "go_join (map xrender_kv (snd e)) '' and ''"
  have n: "set (fst e) \<inter> {CHR ''/'', CHR ''[''} = {}" using Cons.prems by (simp add: xelem_wf_def xname_wf_def)
  show ?case
  proof (cases "snd e = []")
    case True
    then have "xrender (e # es) = ''/'' @ fst e @ xrender es" by (simp add: xrender_def xrender_elem_def)
    with True xfind_plain [OF n xrender_at_slash [of es]] Cons show ?thesis by simp
  next
    case False
    then have r: "xrender (e # es) = CHR ''/'' # fst e @ ''['' @ ?b @ '']'' @ xrender es"
      by (simp add: xrender_def xrender_elem_def)
    have "xgreedy [] (fst e @ ''['' @ ?b @ '']'' @ xrender es) = Some (fst e, ?b, xrender es)"
      using xgreedy_pred [OF n set_xpred [of "snd e"] xrender_at_slash [of es], of "[]"] Cons.prems by (simp add: xelem_wf_def)
    with False Cons show ?thesis by (simp add: r) (simp add: xrender_elem_def)
  qed
qed

lemma cut_here: "cut sep (sep @ r) = Some ([], r)"
proof (cases "sep @ r")
  case (Cons c cs)
  then have "hasPrefix sep (c # cs)" by (metis hasPrefix_append)
  moreover have "drop (length sep) (c # cs) = r" using Cons by (metis append_eq_conv_conj)
  ultimately show ?thesis unfolding Cons by simp
qed simp

text \<open>The first occurrence of an element with a predicate is after a front part without brackets.\<close>

lemma cut_bracket:
  assumes "CHR ''['' \<notin> set P" "CHR ''['' \<notin> set a"
  shows "cut (a @ CHR ''['' # b) (P @ a @ CHR ''['' # b @ rest) = Some (P, rest)"
  using assms(1)
proof (induction P)
  case Nil
  show ?case using cut_here [of "a @ CHR ''['' # b" rest] by simp
next
  case (Cons c P)
  have "\<not> hasPrefix (a @ CHR ''['' # b) (c # P @ a @ CHR ''['' # b @ rest)"
  proof
    assume "hasPrefix (a @ CHR ''['' # b) (c # P @ a @ CHR ''['' # b @ rest)"
    then obtain r where r: "(c # P @ a) @ CHR ''['' # b @ rest = a @ CHR ''['' # b @ r"
      by (auto simp: hasPrefix_iff)
    have "takeWhile (\<lambda>x. x \<noteq> CHR ''['') ((c # P @ a) @ CHR ''['' # b @ rest) = c # P @ a"
      using Cons.prems assms(2) by (subst takeWhile_append2) auto
    moreover have "takeWhile (\<lambda>x. x \<noteq> CHR ''['') (a @ CHR ''['' # b @ r) = a"
      using assms(2) by (subst takeWhile_append2) auto
    ultimately have "c # P @ a = a" using r by metis
    then have "length (c # P @ a) = length a" by metis
    then show False by simp
  qed
  with Cons show ?case by simp
qed

lemma go_split_hd_cut: "sep \<noteq> [] \<Longrightarrow> hd (go_split s sep) = (case cut sep s of None \<Rightarrow> s | Some (a, b) \<Rightarrow> a)"
proof -
  assume sep: "sep \<noteq> []"
  have "hd (go_split_acc sep acc s) = acc @ (case cut sep s of None \<Rightarrow> s | Some (a, b) \<Rightarrow> a)" for acc
    by (induction s arbitrary: acc) (auto simp: go_split_acc_Cons sep split: option.splits)
  then show ?thesis by (simp add: go_split_def)
qed

lemma trimSpace_quoted: "go_trimSpace ([CHR 0x27] @ v @ [CHR 0x27]) = [CHR 0x27] @ v @ [CHR 0x27]"
proof -
  have "\<not> is_space CHR 0x27" by code_simp
  then show ?thesis unfolding go_trimSpace_def by (intro trimBy_id) simp
qed

lemma trimSpace_key: "\<forall>c \<in> set k. kclass c \<Longrightarrow> go_trimSpace k = k"
proof -
  assume k: "\<forall>c \<in> set k. kclass c"
  have "\<not> (kclass c \<and> is_space c)" for c
    by (auto simp: is_space_def kclass_def is_letter_def is_digit_def less_eq_char_def)
  with k show ?thesis unfolding go_trimSpace_def by (intro trimBy_none) blast
qed

lemma addTags_render:
  assumes "xname_wf n" "\<forall>kv \<in> set kvs. xkv_wf kv"
  shows "addTags None P n tags (map (\<lambda>kv. (fst kv, [CHR 0x27] @ snd kv @ [CHR 0x27])) kvs) =
    mputs tags (map (\<lambda>(k, v). (P @ ''/'' @ n @ ''/@'' @ k, v)) kvs)"
  using assms(2)
proof (induction kvs arbitrary: tags)
  case Nil
  then show ?case by (simp add: addTags_def mputs_def)
next
  case (Cons kv kvs)
  have n: "go_trimSpace n = n"
    unfolding go_trimSpace_def using assms(1) by (intro trimBy_id) (auto simp: xname_wf_def)
  have k: "go_trimSpace (fst kv) = fst kv" using Cons.prems by (intro trimSpace_key) (simp add: xkv_wf_def)
  have "CHR 0x27 \<notin> set (snd kv)" using Cons.prems by (auto simp: xkv_wf_def)
  then have "filter (\<lambda>c. c \<noteq> CHR 0x27) (snd kv) = snd kv" by (induction "snd kv") (auto simp: filter_id_conv)
  with Cons n k trimSpace_quoted [of "snd kv"] show ?case
    by (simp add: addTags_def getAlias_def mputs_Cons case_prod_beta)
qed

lemma spitLoop_render:
  "\<forall>e \<in> set es. xelem_wf e \<Longrightarrow> CHR ''['' \<notin> set P \<Longrightarrow>
   spitLoop None (xfind (xrender es)) (P @ xrender es) tags = (P @ xpath_only es, mputs tags (xtags P es))"
proof (induction es arbitrary: P tags)
  case Nil
  then show ?case by (simp add: xrender_def xpath_only_def mputs_def)
next
  case (Cons e es)
  have wf: "xname_wf (fst e)" "\<forall>kv \<in> set (snd e). xkv_wf kv" using Cons.prems by (simp_all add: xelem_wf_def)
  have nb: "CHR ''['' \<notin> set (P @ ''/'' @ fst e)" "CHR ''['' \<notin> set (''/'' @ fst e)"
    using Cons.prems wf(1) by (auto simp: xname_wf_def)
  note IH = Cons.IH [OF _ nb(1)]
  have rn: "xrender (e # es) = xrender_elem e @ xrender es" by (simp add: xrender_def)
  show ?case
  proof (cases "snd e = []")
    case True
    then have "P @ xrender (e # es) = (P @ ''/'' @ fst e) @ xrender es" by (simp add: rn xrender_elem_def)
    moreover have "xfind (xrender (e # es)) = xfind (xrender es)"
      using True xfind_render [of "e # es"] xfind_render [of es] Cons.prems by simp
    ultimately show ?thesis using IH [of tags] Cons.prems True by (simp add: xpath_only_def)
  next
    case False
    let ?b = "go_join (map xrender_kv (snd e)) '' and ''"
    have re: "xrender_elem e = (''/'' @ fst e) @ CHR ''['' # (?b @ '']'')" using False by (simp add: xrender_elem_def)
    have cut: "cut (xrender_elem e) (P @ xrender (e # es)) = Some (P, xrender es)"
      using cut_bracket [OF _ nb(2), of P "?b @ '']''" "xrender es"] Cons.prems by (simp add: re rn)
    have n: "go_trimSpace (fst e) = fst e"
      unfolding go_trimSpace_def using wf(1) by (intro trimBy_id) (auto simp: xname_wf_def)
    have "hd (go_split (P @ xrender (e # es)) (xrender_elem e)) = P"
      using go_split_hd_cut [of "xrender_elem e"] cut by (simp add: re)
    moreover have "go_replace1 (P @ xrender (e # es)) (xrender_elem e) (''/'' @ go_trimSpace (fst e)) =
        (P @ ''/'' @ fst e) @ xrender es" by (simp add: go_replace1_def cut n)
    moreover have "xfind (xrender (e # es)) = (xrender_elem e, fst e, ?b) # xfind (xrender es)"
      using False xfind_render [of "e # es"] xfind_render [of es] Cons.prems by simp
    ultimately show ?thesis
      using IH Cons.prems kfind_render [OF wf(2)] addTags_render [OF wf]
      by (simp add: getAlias_def xpath_only_def mputs_append)
  qed
qed


section \<open>Lemmas: aliases\<close>

text \<open>An alias file as it is written: one \<open>name : path\<close> per line.\<close>

definition alias_line :: "string \<times> string \<Rightarrow> string" where
  "alias_line np = fst np @ '' : '' @ snd np @ [CHR 0x0A]"

definition alias_text :: "string \<Rightarrow> bool" where
  "alias_text t \<longleftrightarrow> set t \<inter> {CHR '':'', CHR 0x0A} = {} \<and> (t = [] \<or> (\<not> is_space (hd t) \<and> \<not> is_space (last t)))"

lemma is_space_simps [simp]: "is_space CHR '' ''" "is_space CHR 0x0A"
  by (simp_all add: is_space_def)

lemma trimSpace_pad:
  assumes "alias_text t" "\<forall>c \<in> set l. is_space c" "\<forall>c \<in> set r. is_space c"
  shows "go_trimSpace (l @ t @ r) = t"
  using trimBy_pad [OF assms(2,3), of t] trimBy_id [of t is_space] assms(1) by (simp add: go_trimSpace_def alias_text_def)

lemma aliasLines_render:
  "\<forall>np \<in> set nps. alias_text (fst np) \<and> alias_text (snd np) \<Longrightarrow>
   aliasLines m (map (\<lambda>np. fst np @ '' : '' @ snd np) nps) = Some (mputs m (map (\<lambda>np. (snd np, fst np)) nps))"
proof (induction nps arbitrary: m)
  case Nil
  then show ?case by (simp add: mputs_def)
next
  case (Cons np nps)
  have a: "alias_text (fst np)" "alias_text (snd np)" using Cons.prems by simp_all
  then have c: "CHR '':'' \<notin> set (fst np @ '' '')" "CHR '':'' \<notin> set ('' '' @ snd np @ [CHR 0x0A])"
    by (auto simp: alias_text_def)
  have "go_split ((fst np @ '' : '' @ snd np) @ [CHR 0x0A]) '':'' = [fst np @ '' '', '' '' @ snd np @ [CHR 0x0A]]"
    using go_split_char [OF c(1), of "'' '' @ snd np @ [CHR 0x0A]"] go_split_none [OF c(2)] by simp
  moreover have "go_trimSpace (fst np @ '' '') = fst np" using trimSpace_pad [OF a(1), of "[]" "'' ''"] by simp
  moreover have "go_trimSpace ('' '' @ snd np @ [CHR 0x0A]) = snd np" using trimSpace_pad [OF a(2), of "'' ''" "[CHR 0x0A]"] by simp
  ultimately show ?case using Cons by (simp add: mputs_Cons)
qed

lemma split_alias_file:
  "\<forall>np \<in> set nps. alias_text (fst np) \<and> alias_text (snd np) \<Longrightarrow> CHR 0x0A \<notin> set t \<Longrightarrow>
   go_split (concat (map alias_line nps) @ t) [CHR 0x0A] = map (\<lambda>np. fst np @ '' : '' @ snd np) nps @ [t]"
proof (induction nps)
  case (Cons np nps)
  then have "CHR 0x0A \<notin> set (fst np @ '' : '' @ snd np)" by (auto simp: alias_text_def)
  with Cons go_split_char [of "CHR 0x0A" "fst np @ '' : '' @ snd np" "concat (map alias_line nps) @ t"]
  show ?case by (simp add: alias_line_def [of np])
qed simp

lemma NewAlias_render:
  "\<forall>np \<in> set nps. alias_text (fst np) \<and> alias_text (snd np) \<Longrightarrow> CHR 0x0A \<notin> set t \<Longrightarrow>
   NewAlias (Some (concat (map alias_line nps) @ t)) = Some (mputs [] (map (\<lambda>np. (snd np, fst np)) nps))"
  using aliasLines_render [of nps "[]"] by (simp add: NewAlias_def split_alias_file)


section \<open>Properties\<close>

text \<open>
  C11. Round trip of an XML path with predicates: the path that comes back has no predicates, and the tags are those
  of the predicates, each named by the path up to its element followed by \<open>/@key\<close> (no aliases configured, keys
  made of letters, digits, dashes and slashes, quoted values without quotes, brackets, newlines and the word \<open>and\<close>
  between blanks; values may contain slashes).
\<close>

theorem spitTagsNPath_roundtrip:
  assumes "reCompiled (influxCtx jctx)" and "jalias jctx = None" and "\<forall>e \<in> set es. xelem_wf e"
  shows "spitTagsNPath jctx (xrender es) = Inr (xpath_only es, mputs [] (xtags [] es))"
  using assms spitLoop_render [of es "[]" "[]"] by (simp add: spitTagsNPath_def spit_def)

definition ex_jctx :: JCtx where
  "ex_jctx = zeroJCtx\<lparr>influxCtx := zeroInfluxCtx\<lparr>reCompiled := True\<rparr>\<rparr>"

theorem spitTagsNPath_roundtrip_witness:
  "spitTagsNPath ex_jctx (xrender [(''interfaces'', []), (''interface'', [(''name'', ''ge-0/0/0''), (''unit'', ''0'')]), (''state'', [])]) =
   Inr (''/interfaces/interface/state'',
     mputs [] [(''/interfaces/interface/@name'', ''ge-0/0/0''), (''/interfaces/interface/@unit'', ''0'')])"
proof -
  have wf: "\<forall>e \<in> set [(''interfaces'', []), (''interface'', [(''name'', ''ge-0/0/0''), (''unit'', ''0'')]), (''state'', [])]. xelem_wf e"
    by code_simp
  have c: "reCompiled (influxCtx ex_jctx)" "jalias ex_jctx = None" by (simp_all add: ex_jctx_def zero_defs)
  from spitTagsNPath_roundtrip [OF c wf] show ?thesis by (simp add: xpath_only_def)
qed

text \<open>
  An alias file of \<open>name : path\<close> lines gives, for every path in it, the name of its last line, and leaves every
  other text alone. A last line without a newline is ignored without an error.
\<close>

theorem NewAlias_getAlias:
  assumes "\<forall>np \<in> set nps. alias_text (fst np) \<and> alias_text (snd np)" and "CHR 0x0A \<notin> set t"
  shows "\<exists>a. NewAlias (Some (concat (map alias_line nps) @ t)) = Some a \<and>
    getAlias (Some a) p = (case map_of (rev (map (\<lambda>np. (snd np, fst np)) nps)) p of Some n \<Rightarrow> n | None \<Rightarrow> p)"
proof -
  have "mget (mputs [] l) p = map_of (rev l) p" for l :: "(string \<times> string) list"
    using gm.get_stores [of "[]" l p] by (simp add: mputs_eq_stores split: option.splits)
  then show ?thesis by (simp add: NewAlias_render [OF assms] getAlias_def split: option.splits)
qed

theorem NewAlias_getAlias_witness:
  "\<exists>a. NewAlias (Some (concat (map alias_line [(''ifname'', ''/interfaces/interface/@name'')]) @ ''last : /x'')) = Some a \<and>
     getAlias (Some a) ''/interfaces/interface/@name'' = ''ifname''"
proof -
  have h: "\<forall>np \<in> set [(''ifname'', ''/interfaces/interface/@name'')]. alias_text (fst np) \<and> alias_text (snd np)" by code_simp
  have t: "CHR 0x0A \<notin> set ''last : /x''" by simp
  from NewAlias_getAlias [OF h t, of "''/interfaces/interface/@name''"] show ?thesis by simp
qed

text \<open>
  A key of a predicate keeps only its part after the last character outside letters, digits, dash and slash: with
  an underscore in the key, or with blanks around the equals sign (where the key becomes empty), the tag does not
  have the name of the key.
\<close>

theorem kfind_truncates_key:
  assumes "\<not> kclass c" and "c \<noteq> CHR ''=''" and "\<forall>d \<in> set k. kclass d" and "CHR ''='' \<notin> set u"
    and "\<not> contains '' and '' v" and "CHR 0x0A \<notin> set v"
  shows "kfind (u @ [c] @ k @ ''='' @ v) = [(k, v)]"
  using assms(4)
proof (induction u)
  case Nil
  have e: "\<not> kclass CHR ''=''" by code_simp
  have "keyAt (c # k @ ''='' @ v) = None" using assms(1,2) by (simp add: keyAt_def)
  moreover have "keyAt (k @ ''='' @ v) = Some (k, v, [])"
    using keyAt_key [OF assms(3), of v] kval_end [OF assms(5,6)] by simp
  ultimately show ?case by (simp add: kfind_keyAt)
next
  case (Cons d u)
  have "keyAt (d # u @ [c] @ k @ ''='' @ v) = None"
  proof -
    obtain x xs where x: "dropWhile kclass (d # u @ [c] @ k @ ''='' @ v) = x # xs" "x \<in> set (d # u @ [c])"
    proof -
      have "dropWhile kclass ((d # u @ [c]) @ k @ ''='' @ v) = dropWhile kclass (d # u @ [c]) @ k @ ''='' @ v"
        using assms(1) by (intro dropWhile_append1) auto
      moreover obtain x xs where "dropWhile kclass (d # u @ [c]) = x # xs"
        using assms(1) dropWhile_eq_Nil_conv [of kclass "d # u @ [c]"] by (cases "dropWhile kclass (d # u @ [c])") auto
      moreover from this have "x \<in> set (d # u @ [c])" by (metis list.set_intros(1) set_dropWhileD)
      ultimately show thesis using that by simp
    qed
    with Cons.prems assms(2) have "x \<noteq> CHR ''=''" by auto
    with x(1) show ?thesis by (simp add: keyAt_def)
  qed
  with Cons show ?case by simp
qed

theorem kfind_truncates_key_witness: "kfind (''if'' @ [CHR ''_''] @ ''name'' @ ''='' @ ''x'') = [(''name'', ''x'')]"
  by (rule kfind_truncates_key) (simp_all add: kclass_def is_letter_def is_digit_def less_eq_char_def)

end
