(* ===== verification/InfluxBatch.thy ===== *)
theory InfluxBatch
  imports Context
begin

text \<open>
  The goroutines of influx.go that move points from the channels to the database: the accumulator
  \<open>pointAcculumator\<close> that merges the metrics of one tick, and the two batch writers \<open>dbBatchWrite\<close>
  and \<open>dbBatchWriteM\<close>. One definition models what one tick of the ticker does with the content of
  the channel; a write to the database is an element of the result, so that a failed write (which
  the code only logs) and a successful one look the same.

  The InfluxDB client library is a parameter \<open>influx_lib\<close>: \<open>NewPoint\<close>, which may refuse its
  arguments, and the method \<open>Fields\<close>. \<open>lib_ok\<close> states its documented behaviour. \<open>NewBatchPoints\<close>
  fails only for a precision that is not a time unit, and the precision is always \<open>ns\<close>.
\<close>

record influx_lib =
  il_NewPoint :: "string \<Rightarrow> (string, string) gomap \<Rightarrow> (string, gval) gomap \<Rightarrow> int \<Rightarrow> point option"
  il_Fields :: "point \<Rightarrow> (string, gval) gomap option"

text \<open>
  The documented behaviour: \<open>NewPoint\<close> refuses a point without fields or with a field that is not
  \<open>valid\<close> (the library refuses an empty name, NaN and the infinities); a point that is made has the
  name, the tags, the fields and the time it was made with, and \<open>Fields\<close> gives the fields back. A
  64-bit integer under the name of the device time stamp is valid. Series keys stay below the
  length limit of the library.
\<close>

definition lib_ok :: "influx_lib \<Rightarrow> (string \<Rightarrow> gval \<Rightarrow> bool) \<Rightarrow> bool" where
  "lib_ok lib valid \<longleftrightarrow>
     (\<forall>n t f tm. il_NewPoint lib n t f tm =
        (if f \<noteq> [] \<and> (\<forall>(k, v) \<in> set f. valid k v)
         then Some \<lparr>pt_name = n, pt_tags = t, pt_fields = f, pt_time = tm\<rparr> else None)) \<and>
     (\<forall>p. il_Fields lib p = Some (pt_fields p)) \<and>
     (\<forall>w. valid gDeviceTs (VInt64 w))"

section \<open>newMetricIDB, accumulate\<close>

definition newMetricIDB :: "(string, string) gomap \<Rightarrow> (string, gval) gomap \<Rightarrow> 64 word \<Rightarrow> metricIDB" where
  "newMetricIDB tags flds ts = \<lparr>m_tags = tags, m_fields = flds, m_ts = ts\<rparr>"

text \<open>Sending on a nil channel blocks for ever; here it leaves the context as it is.\<close>

definition accumulate :: "JCtx \<Rightarrow> metricIDB \<Rightarrow> JCtx" where
  "accumulate jctx m =
     (if influxClient (influxCtx jctx)
      then upd_influx (\<lambda>i. i\<lparr>accumulatorCh := map_option (\<lambda>q. q @ [m]) (accumulatorCh i)\<rparr>) jctx
      else jctx)"

section \<open>The accumulator\<close>

definition accMName :: "InfluxConfig \<Rightarrow> metricIDB \<Rightarrow> string" where
  "accMName cfg m =
     (if i_Measurement cfg \<noteq> [] then i_Measurement cfg
      else case mget (m_tags m) ''sensor'' of Some s \<Rightarrow> s | None \<Rightarrow> [])"

text \<open>A point of its own for a metric: the device time stamp is added to the fields.\<close>

definition ownPoint :: "InfluxConfig \<Rightarrow> influx_lib \<Rightarrow> int \<Rightarrow> metricIDB \<Rightarrow> point option" where
  "ownPoint cfg lib now m =
     il_NewPoint lib (accMName cfg m) (m_tags m) (mput (m_fields m) gDeviceTs (VInt64 (m_ts m))) now"

text \<open>The temporary point with which a metric is validated first.\<close>

definition tmpPointOk :: "influx_lib \<Rightarrow> int \<Rightarrow> metricIDB \<Rightarrow> bool" where
  "tmpPointOk lib now m =
     (case il_NewPoint lib ''tmpmeasure'' (m_tags m) (m_fields m) now of
        None \<Rightarrow> False
      | Some pt \<Rightarrow> il_Fields lib pt \<noteq> None)"

text \<open>Whether the metric has a field that the last point has already.\<close>

definition fieldFound :: "influx_lib \<Rightarrow> metricIDB \<Rightarrow> point \<Rightarrow> bool" where
  "fieldFound lib m lp =
     (case il_Fields lib lp of
        None \<Rightarrow> False
      | Some lastKV \<Rightarrow> list_ex (\<lambda>(mk, _). mget lastKV mk \<noteq> None) (m_fields m))"

text \<open>One iteration of the loop over the metrics; the state is \<open>lastPoint\<close> and \<open>points\<close>.\<close>

definition acc_step ::
  "InfluxConfig \<Rightarrow> influx_lib \<Rightarrow> point option \<times> point list \<Rightarrow> int \<times> metricIDB \<Rightarrow> point option \<times> point list" where
  "acc_step cfg lib st e =
     (case (st, e) of ((lastPoint, points), (now, m)) \<Rightarrow>
        if \<not> tmpPointOk lib now m then (lastPoint, points)
        else
          case lastPoint of
            None \<Rightarrow>
              (case ownPoint cfg lib now m of
                 None \<Rightarrow> (lastPoint, points)
               | Some pt \<Rightarrow> (Some pt, points))
          | Some lp \<Rightarrow>
              if meq (m_tags m) (pt_tags lp) \<and> \<not> fieldFound lib m lp then
                (case il_Fields lib lp of
                   None \<Rightarrow> (lastPoint, points)
                 | Some lastKV \<Rightarrow>
                     (case il_NewPoint lib (pt_name lp) (m_tags m) (mputs (m_fields m) lastKV) now of
                        None \<Rightarrow> (lastPoint, points)
                      | Some pt \<Rightarrow> (Some pt, points)))
              else
                (case ownPoint cfg lib now m of
                   None \<Rightarrow> (lastPoint, points)
                 | Some pt \<Rightarrow> (Some pt, points @ [lp])))"

text \<open>\<open>reflect.DeepEqual\<close> of two points.\<close>

definition point_deq :: "point \<Rightarrow> point \<Rightarrow> bool" where
  "point_deq p q \<longleftrightarrow>
     pt_name p = pt_name q \<and> meq (pt_tags p) (pt_tags q) \<and> meq (pt_fields p) (pt_fields q) \<and> pt_time p = pt_time q"

text \<open>
  What one tick writes for the metrics in the channel, each with the time at which it is handled:
  nothing, or one batch.
\<close>

definition acc_tick :: "InfluxConfig \<Rightarrow> influx_lib \<Rightarrow> (int \<times> metricIDB) list \<Rightarrow> point list list" where
  "acc_tick cfg lib ms =
     (case foldl (acc_step cfg lib) (None, []) ms of
        (lastPoint, points) \<Rightarrow>
          if points = [] then []
          else
            (case lastPoint of
               None \<Rightarrow> [points]
             | Some lp \<Rightarrow> if point_deq (last points) lp then [points] else [points @ [lp]]))"

section \<open>The batch writers\<close>

text \<open>\<open>dbBatchWrite\<close>: one batch with the points of all packets in the channel.\<close>

definition dbBatchWrite_tick :: "point list list \<Rightarrow> point list list" where
  "dbBatchWrite_tick ch = (if length ch = 0 then [] else [foldl (\<lambda>bp packet. foldl (\<lambda>b p. b @ [p]) bp packet) [] ch])"

text \<open>
  \<open>dbBatchWriteM\<close>: the packets are grouped by measurement; for each measurement a batch is written
  whenever it has reached the batch size, and the rest at the end.
\<close>

definition groupM :: "batchWMData list \<Rightarrow> (string, batchWMData list) gomap" where
  "groupM ch =
     foldl (\<lambda>m d. mput m (wm_measurement d)
        ((case mget m (wm_measurement d) of None \<Rightarrow> [] | Some v \<Rightarrow> v) @ [d])) [] ch"

definition addPointM :: "int \<Rightarrow> point list list \<times> point list \<Rightarrow> point \<Rightarrow> point list list \<times> point list" where
  "addPointM batchSize st p =
     (case st of (written, bp) \<Rightarrow>
        let bp' = bp @ [p]
        in if batchSize \<le> int (length bp') then (written @ [bp'], []) else (written, bp'))"

definition writeM :: "int \<Rightarrow> batchWMData list \<Rightarrow> point list list" where
  "writeM batchSize data =
     (case foldl (\<lambda>st d. foldl (addPointM batchSize) st (wm_points d)) ([], []) data of
        (written, bp) \<Rightarrow> if 0 < length bp then written @ [bp] else written)"

definition dbBatchWriteM_tick :: "int \<Rightarrow> batchWMData list \<Rightarrow> (string \<times> point list list) list" where
  "dbBatchWriteM_tick batchSize ch = map (\<lambda>(measurement, data). (measurement, writeM batchSize data)) (groupM ch)"

text \<open>
  Setting the writers up: \<open>dbBatchWrite\<close>, \<open>dbBatchWriteM\<close> and \<open>pointAcculumator\<close> make their channel.
  A negative capacity makes \<open>make(chan \<dots>)\<close> panic; the quotient of Go truncates towards zero.
\<close>

definition dbBatchWrite :: "JCtx \<Rightarrow> JCtx go" where
  "dbBatchWrite jctx =
     (if \<not> influxClient (influxCtx jctx) then Inr jctx
      else if i_BatchSize (Influx (config jctx)) < 0 then Inl ExplicitPanic
      else Inr (upd_influx (\<lambda>i. i\<lparr>batchWCh := Some []\<rparr>) jctx))"

definition dbBatchWriteM :: "JCtx \<Rightarrow> JCtx go" where
  "dbBatchWriteM jctx =
     (if \<not> influxClient (influxCtx jctx) then Inr jctx
      else if i_BatchSize (Influx (config jctx)) \<le> - 4 then Inl ExplicitPanic
      else Inr (upd_influx (\<lambda>i. i\<lparr>batchWMCh := Some []\<rparr>) jctx))"

definition pointAcculumator :: "JCtx \<Rightarrow> JCtx" where
  "pointAcculumator jctx = upd_influx (\<lambda>i. i\<lparr>accumulatorCh := Some []\<rparr>) jctx"


section \<open>The interface of a batch writer\<close>

text \<open>
  A batch writer turns the packets in its channel into batches. What its users rely on is that a
  tick writes the points of the packets, all of them and in order. A run is a sequence of sends
  and ticks; the locale gives conservation over a run: what has been written, followed by what is
  still in the channel, is what was sent.
\<close>

datatype 'q chan_event = Send 'q | Tick

locale batch_writer =
  fixes tick :: "'q list \<Rightarrow> 'p list list"
    and points_of :: "'q \<Rightarrow> 'p list"
  assumes tick_conserves: "concat (tick ch) = concat (map points_of ch)"
begin

fun run :: "'q list \<times> 'p list list \<Rightarrow> 'q chan_event list \<Rightarrow> 'q list \<times> 'p list list" where
  "run s [] = s"
| "run (ch, w) (Send q # es) = run (ch @ [q], w) es"
| "run (ch, w) (Tick # es) = run ([], w @ tick ch) es"

fun sent :: "'q chan_event list \<Rightarrow> 'q list" where
  "sent [] = []"
| "sent (Send q # es) = q # sent es"
| "sent (Tick # es) = sent es"

lemma run_conserves:
  "run (ch, w) es = (ch', w') \<Longrightarrow>
   concat w' @ concat (map points_of ch') = concat w @ concat (map points_of ch) @ concat (map points_of (sent es))"
  by (induction "(ch, w)" es arbitrary: ch w rule: run.induct) (auto simp: tick_conserves)

lemma sent_append: "sent (es @ fs) = sent es @ sent fs"
  by (induction es rule: sent.induct) auto

lemma run_append: "run s (es @ fs) = run (run s es) fs"
  by (induction s es rule: run.induct) auto

lemma run_final_tick:
  assumes "run ([], []) (es @ [Tick]) = (ch', w')"
  shows "ch' = [] \<and> concat w' = concat (map points_of (sent es))"
proof -
  obtain c u where cu: "run ([], []) es = (c, u)" by (cases "run ([], []) es")
  from assms have e: "ch' = []" by (simp add: run_append cu)
  from run_conserves [OF assms] show ?thesis by (simp add: e sent_append)
qed

end

lemma foldl_snoc [simp]: "foldl (\<lambda>b p. b @ [p]) a xs = a @ xs"
  by (induction xs arbitrary: a) auto

lemma foldl_append_concat: "foldl (\<lambda>bp packet. bp @ packet) a xs = a @ concat xs"
  by (induction xs arbitrary: a) auto

interpretation bw: batch_writer dbBatchWrite_tick "\<lambda>packet. packet"
  by unfold_locales (simp add: dbBatchWrite_tick_def foldl_append_concat)

text \<open>Chunking: the invariant of the loop of \<open>dbBatchWriteM\<close> over the points of a measurement.\<close>

definition chunk_inv :: "int \<Rightarrow> point list list \<times> point list \<Rightarrow> point list \<Rightarrow> bool" where
  "chunk_inv n st ps \<longleftrightarrow>
     (case st of (written, bp) \<Rightarrow>
        concat written @ bp = ps \<and> int (length bp) < n \<and> (\<forall>b \<in> set written. int (length b) = n))"

lemma addPointM_inv: "0 < n \<Longrightarrow> chunk_inv n st ps \<Longrightarrow> chunk_inv n (addPointM n st p) (ps @ [p])"
  by (cases st) (auto simp: chunk_inv_def addPointM_def Let_def)

lemma addPointsM_inv: "0 < n \<Longrightarrow> chunk_inv n st ps \<Longrightarrow> chunk_inv n (foldl (addPointM n) st qs) (ps @ qs)"
proof (induction qs arbitrary: st ps)
  case (Cons q qs)
  from Cons.IH [OF Cons.prems(1) addPointM_inv [OF Cons.prems, of q]] show ?case by simp
qed simp

lemma writeM_loop_inv:
  "0 < n \<Longrightarrow> chunk_inv n st ps \<Longrightarrow>
   chunk_inv n (foldl (\<lambda>st d. foldl (addPointM n) st (wm_points d)) st ds) (ps @ concat (map wm_points ds))"
proof (induction ds arbitrary: st ps)
  case (Cons d ds)
  from Cons.IH [OF Cons.prems(1) addPointsM_inv [OF Cons.prems, of "wm_points d"]]
  show ?case by simp
qed simp

lemma writeM_spec:
  assumes "0 < n"
  shows "concat (writeM n ds) = concat (map wm_points ds)"
    and "\<forall>b \<in> set (writeM n ds). b \<noteq> [] \<and> int (length b) \<le> n"
    and "\<forall>b \<in> set (butlast (writeM n ds)). int (length b) = n"
proof -
  obtain written bp where st: "foldl (\<lambda>st d. foldl (addPointM n) st (wm_points d)) ([], []) ds = (written, bp)"
    by (cases "foldl (\<lambda>st d. foldl (addPointM n) st (wm_points d)) ([], []) ds")
  have "chunk_inv n ([], []) []" using assms by (simp add: chunk_inv_def)
  from writeM_loop_inv [OF assms this, of ds] have inv: "chunk_inv n (written, bp) (concat (map wm_points ds))"
    by (simp add: st)
  then have w: "\<forall>b \<in> set written. int (length b) = n" by (simp add: chunk_inv_def)
  show "concat (writeM n ds) = concat (map wm_points ds)"
    using inv by (auto simp: writeM_def st chunk_inv_def)
  show "\<forall>b \<in> set (writeM n ds). b \<noteq> [] \<and> int (length b) \<le> n"
    using inv assms by (auto simp: writeM_def st chunk_inv_def)
  show "\<forall>b \<in> set (butlast (writeM n ds)). int (length b) = n"
    using w by (auto simp: writeM_def st dest: in_set_butlastD)
qed

interpretation bwm: batch_writer "writeM (int (Suc n))" wm_points for n
  by unfold_locales (rule writeM_spec(1), simp)

lemma groupM_snoc:
  "groupM (ch @ [d]) = mput (groupM ch) (wm_measurement d)
     ((case mget (groupM ch) (wm_measurement d) of None \<Rightarrow> [] | Some v \<Rightarrow> v) @ [d])"
  by (simp add: groupM_def)

lemma groupM_get:
  "mget (groupM ch) k =
     (if \<exists>d \<in> set ch. wm_measurement d = k then Some (filter (\<lambda>d. wm_measurement d = k) ch) else None)"
proof (induction ch rule: rev_induct)
  case Nil
  then show ?case by (simp add: groupM_def)
next
  case (snoc d ch)
  show ?case
  proof (cases "wm_measurement d = k")
    case True
    moreover have "filter (\<lambda>d. wm_measurement d = k) ch = []" if "\<not> (\<exists>d \<in> set ch. wm_measurement d = k)"
      using that by (auto simp: filter_empty_conv)
    ultimately show ?thesis using snoc.IH by (auto simp: groupM_snoc)
  next
    case False
    with snoc.IH show ?thesis by (auto simp: groupM_snoc)
  qed
qed

lemma groupM_wf: "mwf (groupM ch)"
proof (induction ch rule: rev_induct)
  case Nil
  then show ?case by (simp add: groupM_def gm.wf_emp)
next
  case (snoc d ch)
  then show ?case by (simp add: groupM_snoc gm.wf_put)
qed


section \<open>The accumulator keeps the metrics it merges\<close>

text \<open>A library with the documented behaviour, for concrete runs.\<close>

definition plain_valid :: "string \<Rightarrow> gval \<Rightarrow> bool" where
  "plain_valid k v \<longleftrightarrow> k \<noteq> [] \<and> (case v of VFloat64 w \<Rightarrow> f64_finite w | _ \<Rightarrow> True)"

definition plain_lib :: influx_lib where
  "plain_lib = \<lparr>
     il_NewPoint = (\<lambda>n t f tm. if f \<noteq> [] \<and> list_all (\<lambda>(k, v). plain_valid k v) f
        then Some \<lparr>pt_name = n, pt_tags = t, pt_fields = f, pt_time = tm\<rparr> else None),
     il_Fields = (\<lambda>p. Some (pt_fields p))\<rparr>"

lemma plain_lib_ok: "lib_ok plain_lib plain_valid"
  by (auto simp: lib_ok_def plain_lib_def list_all_iff plain_valid_def gDeviceTs_def)

text \<open>A point carries a metric: its tags, and its fields other than the device time stamp.\<close>

definition carries :: "point \<Rightarrow> metricIDB \<Rightarrow> bool" where
  "carries p m \<longleftrightarrow>
     mget (pt_tags p) = mget (m_tags m) \<and>
     (\<forall>k v. mget (m_fields m) k = Some v \<longrightarrow> k \<noteq> gDeviceTs \<longrightarrow> mget (pt_fields p) k = Some v)"

definition metric_wf :: "metricIDB \<Rightarrow> bool" where
  "metric_wf m \<longleftrightarrow> mwf (m_tags m) \<and> mwf (m_fields m)"

text \<open>The loop invariant after the metrics \<open>done\<close>.\<close>

definition point_wf :: "point \<Rightarrow> bool" where
  "point_wf p \<longleftrightarrow> mwf (pt_tags p) \<and> mwf (pt_fields p)"

definition metric_ok :: "(string \<Rightarrow> gval \<Rightarrow> bool) \<Rightarrow> metricIDB \<Rightarrow> bool" where
  "metric_ok valid m \<longleftrightarrow> m_fields m \<noteq> [] \<and> (\<forall>(k, v) \<in> set (m_fields m). valid k v)"

definition acc_inv :: "(string \<Rightarrow> gval \<Rightarrow> bool) \<Rightarrow> point option \<times> point list \<Rightarrow> metricIDB list \<Rightarrow> bool" where
  "acc_inv valid st done \<longleftrightarrow>
     (case st of (lastPoint, points) \<Rightarrow>
        (\<forall>m \<in> set done. metric_ok valid m \<longrightarrow> (\<exists>p \<in> set points \<union> set_option lastPoint. carries p m)) \<and>
        (lastPoint = None \<longrightarrow> points = []) \<and>
        (\<forall>p \<in> set points \<union> set_option lastPoint. point_wf p \<and> (\<forall>(k, v) \<in> set (pt_fields p). valid k v)))"

lemma carries_own:
  "metric_wf m \<Longrightarrow> pt_tags p = m_tags m \<Longrightarrow> pt_fields p = mput (m_fields m) gDeviceTs v \<Longrightarrow> carries p m"
  by (auto simp: carries_def)

lemma carries_deq: "point_deq p q \<Longrightarrow> point_wf p \<Longrightarrow> point_wf q \<Longrightarrow> carries q m \<Longrightarrow> carries p m"
  by (auto simp: point_deq_def point_wf_def carries_def meq_iff)

lemma set_mput: "set (mput m k v) \<subseteq> insert (k, v) (set m)"
  by (induction m) (auto simp: mput_def)

lemma mput_not_Nil [simp]: "mput m k v \<noteq> []"
  by (cases m) (auto simp: mput_def)

lemma set_mputs: "set (mputs m n) \<subseteq> set m \<union> set n"
proof (induction n arbitrary: m)
  case Nil
  then show ?case by (simp add: mputs_def)
next
  case (Cons e n)
  obtain k v where e: "e = (k, v)" by (cases e)
  have "mputs m (e # n) = mputs (mput m k v) n" by (simp add: mputs_def e)
  with Cons.IH [of "mput m k v"] set_mput [of m k v] show ?case by (auto simp: e)
qed

lemma lib_okD:
  assumes "lib_ok lib valid"
  shows "il_NewPoint lib n t f tm =
      (if f \<noteq> [] \<and> (\<forall>(k, v) \<in> set f. valid k v)
       then Some \<lparr>pt_name = n, pt_tags = t, pt_fields = f, pt_time = tm\<rparr> else None)"
    and "il_Fields lib p = Some (pt_fields p)"
    and "valid gDeviceTs (VInt64 w)"
  using assms unfolding lib_ok_def by blast+

lemma valid_mput_ts:
  "lib_ok lib valid \<Longrightarrow> \<forall>(k, v) \<in> set f. valid k v \<Longrightarrow> \<forall>(k, v) \<in> set (mput f gDeviceTs (VInt64 w)). valid k v"
  using set_mput [of f gDeviceTs "VInt64 w"] lib_okD(3) by blast

lemma lib_tmp:
  assumes "lib_ok lib valid"
  shows "tmpPointOk lib now m \<longleftrightarrow> metric_ok valid m"
  by (simp add: lib_okD(1,2) [OF assms] tmpPointOk_def metric_ok_def)

lemma lib_own:
  assumes "lib_ok lib valid" "metric_ok valid m"
  shows "ownPoint cfg lib now m = Some \<lparr>pt_name = accMName cfg m, pt_tags = m_tags m,
    pt_fields = mput (m_fields m) gDeviceTs (VInt64 (m_ts m)), pt_time = now\<rparr>"
proof -
  have "\<forall>(k, v) \<in> set (mput (m_fields m) gDeviceTs (VInt64 (m_ts m))). valid k v"
    using assms(2) by (intro valid_mput_ts [OF assms(1)]) (simp add: metric_ok_def)
  then show ?thesis by (simp add: ownPoint_def lib_okD(1) [OF assms(1)])
qed

lemma lib_found:
  assumes "lib_ok lib valid"
  shows "\<not> fieldFound lib m lp \<longleftrightarrow> (\<forall>(k, v) \<in> set (m_fields m). mget (pt_fields lp) k = None)"
  by (auto simp: lib_okD(2) [OF assms] fieldFound_def list_ex_iff)

lemma mputs_eq_Nil: "mputs m n = [] \<Longrightarrow> m = []"
proof (induction n arbitrary: m)
  case Nil
  then show ?case by (simp add: mputs_def)
next
  case (Cons e n)
  from Cons.prems have "mputs (mput m (fst e) (snd e)) n = []" by (simp add: mputs_def case_prod_beta)
  then have "mput m (fst e) (snd e) = []" by (rule Cons.IH)
  then show ?case by simp
qed

lemma lib_merge:
  assumes "lib_ok lib valid" "metric_ok valid m" "\<forall>(k, v) \<in> set kv. valid k v"
  shows "il_NewPoint lib n t (mputs (m_fields m) kv) now =
    Some \<lparr>pt_name = n, pt_tags = t, pt_fields = mputs (m_fields m) kv, pt_time = now\<rparr>"
proof -
  have "\<forall>(k, v) \<in> set (mputs (m_fields m) kv). valid k v"
    using assms(2,3) set_mputs [of "m_fields m" kv] unfolding metric_ok_def by blast
  moreover have "mputs (m_fields m) kv \<noteq> []"
    using assms(2) mputs_eq_Nil by (auto simp: metric_ok_def)
  ultimately show ?thesis using assms(1) by (simp add: lib_ok_def)
qed

lemma mwf_mputs: "mwf m \<Longrightarrow> mwf (mputs m n)"
  by (simp add: mputs_eq_stores gm.wf_stores)

text \<open>The three branches of an iteration, for a library with the documented behaviour.\<close>

lemma acc_step_cases:
  assumes "lib_ok lib valid" "\<forall>lp \<in> set_option (fst st). \<forall>(k, v) \<in> set (pt_fields lp). valid k v"
  obtains
    (skip) "\<not> metric_ok valid m" "acc_step cfg lib st (now, m) = st"
  | (own) p where "metric_ok valid m" "p = \<lparr>pt_name = accMName cfg m, pt_tags = m_tags m,
        pt_fields = mput (m_fields m) gDeviceTs (VInt64 (m_ts m)), pt_time = now\<rparr>"
      "acc_step cfg lib st (now, m) = (Some p, snd st @ (case fst st of None \<Rightarrow> [] | Some lp \<Rightarrow> [lp]))"
  | (merge) lp where "metric_ok valid m" "fst st = Some lp" "meq (m_tags m) (pt_tags lp)"
      "\<forall>(k, v) \<in> set (m_fields m). mget (pt_fields lp) k = None"
      "acc_step cfg lib st (now, m) =
        (Some \<lparr>pt_name = pt_name lp, pt_tags = m_tags m, pt_fields = mputs (m_fields m) (pt_fields lp), pt_time = now\<rparr>, snd st)"
proof (cases "metric_ok valid m")
  case False
  with assms(1) show thesis by (intro skip) (cases st, auto simp: acc_step_def lib_tmp)
next
  case True
  show thesis
  proof (cases "fst st")
    case None
    with True assms(1) show thesis
      by (intro own) (auto simp: acc_step_def lib_tmp lib_own split: prod.splits)
  next
    case (Some lp)
    show thesis
    proof (cases "meq (m_tags m) (pt_tags lp) \<and> \<not> fieldFound lib m lp")
      case True2: True
      have valid: "\<forall>(k, v) \<in> set (pt_fields lp). valid k v" using assms(2) Some by simp
      show thesis
      proof (rule merge [OF True Some])
        show "meq (m_tags m) (pt_tags lp)" using True2 by simp
        show "\<forall>(k, v) \<in> set (m_fields m). mget (pt_fields lp) k = None"
          using True2 lib_found [OF assms(1)] by simp
        show "acc_step cfg lib st (now, m) =
          (Some \<lparr>pt_name = pt_name lp, pt_tags = m_tags m, pt_fields = mputs (m_fields m) (pt_fields lp), pt_time = now\<rparr>, snd st)"
          using True True2 Some
          by (cases st) (simp add: acc_step_def lib_tmp [OF assms(1)] lib_okD(2) [OF assms(1)]
            lib_merge [OF assms(1) True valid])
      qed
    next
      case False
      with Some True assms(1) show thesis
        by (intro own) (auto simp: acc_step_def lib_tmp lib_own split: prod.splits)
    qed
  qed
qed

lemma carries_merged:
  assumes "point_wf lp" "metric_wf m" "meq (m_tags m) (pt_tags lp)"
    "\<forall>(k, v) \<in> set (m_fields m). mget (pt_fields lp) k = None"
    "pt_tags p = m_tags m" "pt_fields p = mputs (m_fields m) (pt_fields lp)"
  shows "carries p m" and "carries lp m' \<Longrightarrow> carries p m'"
proof -
  have get: "mget (pt_fields p) k = (case mget (pt_fields lp) k of Some v \<Rightarrow> Some v | None \<Rightarrow> mget (m_fields m) k)" for k
    using assms(1,6) by (simp add: mget_mputs point_wf_def)
  have "mget (pt_fields lp) k = None" if "mget (m_fields m) k = Some v" for k v
    using that assms(2,4) mget_mem [of "m_fields m" k v] by (auto simp: metric_wf_def)
  then show "carries p m" by (simp add: carries_def assms(5) get)
  have "mget (m_tags m) = mget (pt_tags lp)"
    using assms(1-3) by (simp add: meq_iff metric_wf_def point_wf_def)
  then show "carries lp m' \<Longrightarrow> carries p m'" by (auto simp: carries_def assms(5) get)
qed

lemma acc_step_inv:
  assumes lib: "lib_ok lib valid" and inv: "acc_inv valid st done" and wf: "metric_wf m"
  shows "acc_inv valid (acc_step cfg lib st (now, m)) (done @ [m])"
proof -
  have v: "\<forall>lp \<in> set_option (fst st). \<forall>(k, v) \<in> set (pt_fields lp). valid k v"
    using inv by (cases st) (auto simp: acc_inv_def)
  from lib v show ?thesis
  proof (cases rule: acc_step_cases [where m = m and cfg = cfg and now = now])
    case skip
    with inv show ?thesis by (auto simp: acc_inv_def split: prod.splits)
  next
    case (own p)
    have "carries p m" using carries_own [OF wf] own(2) by simp
    moreover have "point_wf p" using wf own(2) by (simp add: point_wf_def metric_wf_def gm.wf_put)
    moreover have "\<forall>(k, v) \<in> set (pt_fields p). valid k v"
      using own(1) by (simp add: own(2)) (intro valid_mput_ts [OF lib], simp add: metric_ok_def)
    ultimately show ?thesis
      using inv own(3) by (cases st; cases "fst st") (auto simp: acc_inv_def)
  next
    case (merge lp)
    define p where "p = \<lparr>pt_name = pt_name lp, pt_tags = m_tags m,
      pt_fields = mputs (m_fields m) (pt_fields lp), pt_time = now\<rparr>"
    have lp: "point_wf lp" "\<forall>(k, v) \<in> set (pt_fields lp). valid k v"
      using inv merge(2) by (auto simp: acc_inv_def split: prod.splits)
    have "carries p m" "\<And>m'. carries lp m' \<Longrightarrow> carries p m'"
      using carries_merged [OF lp(1) wf merge(3,4), of p] by (simp_all add: p_def)
    moreover have "point_wf p" using wf by (simp add: p_def point_wf_def metric_wf_def mwf_mputs)
    moreover have "\<forall>(k, v) \<in> set (pt_fields p). valid k v"
      using set_mputs [of "m_fields m" "pt_fields lp"] merge(1) lp(2) unfolding p_def metric_ok_def by auto
    moreover have "acc_step cfg lib st (now, m) = (Some p, snd st)" using merge(5) by (simp add: p_def)
    ultimately show ?thesis
      using inv merge(2) by (cases st) (auto simp: acc_inv_def)
  qed
qed

lemma acc_fold_inv:
  assumes "lib_ok lib valid" "\<forall>(t, m) \<in> set ms. metric_wf m"
  shows "acc_inv valid (foldl (acc_step cfg lib) (None, []) ms) (map snd ms)"
  using assms(2)
proof (induction ms rule: rev_induct)
  case Nil
  then show ?case by (simp add: acc_inv_def)
next
  case (snoc e ms)
  then show ?case
    using acc_step_inv [OF assms(1), of "foldl (acc_step cfg lib) (None, []) ms" "map snd ms" "snd e" cfg "fst e"]
    by (auto simp: case_prod_beta)
qed

text \<open>Metrics with the same tags and pairwise different field names all merge into one point.\<close>

definition field_names :: "(int \<times> metricIDB) list \<Rightarrow> string list" where
  "field_names ms = concat (map (\<lambda>e. map fst (m_fields (snd e))) ms)"

definition merging :: "(int \<times> metricIDB) list \<Rightarrow> (string, string) gomap \<Rightarrow> bool" where
  "merging ms tags \<longleftrightarrow>
     distinct (field_names ms) \<and> gDeviceTs \<notin> set (field_names ms) \<and> mwf tags \<and>
     (\<forall>e \<in> set ms. metric_wf (snd e) \<and> meq (m_tags (snd e)) tags)"

definition merge_inv ::
  "(string \<Rightarrow> gval \<Rightarrow> bool) \<Rightarrow> (string, string) gomap \<Rightarrow> string list \<Rightarrow> point option \<times> point list \<Rightarrow> bool" where
  "merge_inv valid tags names st \<longleftrightarrow>
     snd st = [] \<and>
     (\<forall>lp \<in> set_option (fst st). mwf (pt_tags lp) \<and> mget (pt_tags lp) = mget tags \<and>
        fst ` set (pt_fields lp) \<subseteq> insert gDeviceTs (set names) \<and> (\<forall>(k, v) \<in> set (pt_fields lp). valid k v))"

lemma fst_mput: "fst ` set (mput m k v) = insert k (fst ` set m)"
  by (simp add: mput_def dom_update)

lemma merge_step:
  assumes lib: "lib_ok lib valid" and inv: "merge_inv valid tags names st"
    and m: "metric_wf m" "meq (m_tags m) tags" "mwf tags"
    and names: "fst ` set (m_fields m) \<inter> insert gDeviceTs (set names) = {}"
  shows "merge_inv valid tags (names @ map fst (m_fields m)) (acc_step cfg lib st (now, m))"
proof -
  have tags: "mget (m_tags m) = mget tags" "mwf (m_tags m)" using m by (simp_all add: meq_iff metric_wf_def)
  have v: "\<forall>lp \<in> set_option (fst st). \<forall>(k, v) \<in> set (pt_fields lp). valid k v"
    using inv by (simp add: merge_inv_def)
  from lib v show ?thesis
  proof (cases rule: acc_step_cases [where m = m and cfg = cfg and now = now])
    case skip
    with inv show ?thesis by (auto simp: merge_inv_def)
  next
    case (own p)
    have "fst st = None"
    proof (rule ccontr)
      assume "fst st \<noteq> None"
      then obtain lp where lp: "fst st = Some lp" by blast
      with inv have w: "mwf (pt_tags lp)" "mget (pt_tags lp) = mget tags"
        "fst ` set (pt_fields lp) \<subseteq> insert gDeviceTs (set names)" by (simp_all add: merge_inv_def)
      with tags have "meq (m_tags m) (pt_tags lp)" by (simp add: meq_iff)
      moreover have "mget (pt_fields lp) k = None" if "(k, v) \<in> set (m_fields m)" for k v
      proof -
        have "k \<in> fst ` set (m_fields m)" using that by (force simp: image_iff)
        with w(3) names have "k \<notin> fst ` set (pt_fields lp)" by blast
        then show ?thesis using mget_dom [of "pt_fields lp" k] by simp
      qed
      then have "\<forall>(k, v) \<in> set (m_fields m). mget (pt_fields lp) k = None" by blast
      then have "\<not> fieldFound lib m lp" using lib_found [OF lib] by simp
      ultimately have "snd (acc_step cfg lib st (now, m)) = snd st"
        using own(1) lp by (cases st) (simp add: acc_step_def lib_tmp [OF lib] lib_okD(2) [OF lib] split: option.split)
      with own(3) lp show False by simp
    qed
    moreover have "\<forall>(k, v) \<in> set (pt_fields p). valid k v"
      using own(1) by (simp add: own(2)) (intro valid_mput_ts [OF lib], simp add: metric_ok_def)
    ultimately show ?thesis
      using inv own tags by (auto simp: merge_inv_def fst_mput)
  next
    case (merge lp)
    have lpv: "\<forall>(k, v) \<in> set (pt_fields lp). valid k v" "fst ` set (pt_fields lp) \<subseteq> insert gDeviceTs (set names)"
      using inv merge(2) by (simp_all add: merge_inv_def)
    have "\<forall>(k, v) \<in> set (mputs (m_fields m) (pt_fields lp)). valid k v"
      using set_mputs [of "m_fields m" "pt_fields lp"] merge(1) lpv(1) unfolding metric_ok_def by blast
    moreover have "fst ` set (mputs (m_fields m) (pt_fields lp)) \<subseteq> insert gDeviceTs (set (names @ map fst (m_fields m)))"
      using image_mono [OF set_mputs [of "m_fields m" "pt_fields lp"], of fst] lpv(2)
      by (simp add: image_Un) blast
    ultimately show ?thesis using inv merge tags by (auto simp: merge_inv_def)
  qed
qed

lemma merge_fold:
  assumes "lib_ok lib valid" "merging ms tags"
  shows "merge_inv valid tags (field_names ms) (foldl (acc_step cfg lib) (None, []) ms)"
  using assms(2)
proof (induction ms rule: rev_induct)
  case Nil
  then show ?case by (simp add: merge_inv_def)
next
  case (snoc e ms)
  then have "merging ms tags" by (auto simp: merging_def field_names_def)
  from merge_step [OF assms(1) snoc.IH [OF this], of "snd e" cfg "fst e"] snoc.prems
  show ?case by (auto simp: merging_def field_names_def)
qed


section \<open>Properties\<close>

text \<open>Example metrics: two of one device that merge, and one of another device.\<close>

definition ex_metrics :: "(int \<times> metricIDB) list" where
  "ex_metrics =
     [(1, newMetricIDB [(''device'', ''r1''), (''sensor'', ''s'')] [(''/a'', VBool True)] 7),
      (2, newMetricIDB [(''device'', ''r1''), (''sensor'', ''s'')] [(''/b'', VString ''x'')] 7),
      (3, newMetricIDB [(''device'', ''r2''), (''sensor'', ''s'')] [(''/a'', VBool False)] 8)]"

definition ex_point :: "int \<Rightarrow> point" where
  "ex_point t = \<lparr>pt_name = ''m'', pt_tags = [], pt_fields = [(''/a'', VBool True)], pt_time = t\<rparr>"

definition ex_packets :: "batchWMData list" where
  "ex_packets = [\<lparr>wm_measurement = ''m'', wm_points = [ex_point 1, ex_point 2]\<rparr>]"

text \<open>
  C20. When a tick of the accumulator writes, it writes one batch, and every metric of the channel
  whose fields the library accepts is carried by a point of it: its tags, and the values of all its
  fields. Merging loses no field value of an accepted metric.
\<close>

theorem acc_tick_carries:
  assumes "lib_ok lib valid" and "\<forall>(t, m) \<in> set ms. metric_wf m" and "acc_tick cfg lib ms \<noteq> []"
  shows "\<exists>b. acc_tick cfg lib ms = [b] \<and>
    (\<forall>(t, m) \<in> set ms. metric_ok valid m \<longrightarrow> (\<exists>p \<in> set b. carries p m))"
proof -
  obtain lastPoint points where st: "foldl (acc_step cfg lib) (None, []) ms = (lastPoint, points)"
    by (cases "foldl (acc_step cfg lib) (None, []) ms")
  with assms(3) have ne: "points \<noteq> []" by (auto simp: acc_tick_def)
  from acc_fold_inv [OF assms(1,2), of cfg] st have inv: "acc_inv valid (lastPoint, points) (map snd ms)" by simp
  with ne obtain lp where lp: "lastPoint = Some lp" by (auto simp: acc_inv_def)
  from inv lp have c: "\<exists>p \<in> set (points @ [lp]). carries p m" if "(t, m) \<in> set ms" "metric_ok valid m" for t m
    using that by (force simp: acc_inv_def)
  show ?thesis
  proof (cases "point_deq (last points) lp")
    case True
    have "point_wf (last points)" "point_wf lp" using inv lp ne by (simp_all add: acc_inv_def)
    with True ne c have "\<exists>p \<in> set points. carries p m" if "(t, m) \<in> set ms" "metric_ok valid m" for t m
      using that carries_deq [OF True] by (metis Un_iff last_in_set set_append set_ConsD empty_iff list.set(1))
    with True show ?thesis using st lp ne by (auto simp: acc_tick_def)
  next
    case False
    with c show ?thesis using st lp ne by (auto simp: acc_tick_def)
  qed
qed

lemma acc_tick_carries_witness:
  "acc_tick zeroInflux plain_lib ex_metrics \<noteq> [] \<and>
   (\<exists>b. acc_tick zeroInflux plain_lib ex_metrics = [b] \<and>
     (\<forall>(t, m) \<in> set ex_metrics. metric_ok plain_valid m \<longrightarrow> (\<exists>p \<in> set b. carries p m)))"
proof -
  have wf: "\<forall>(t, m) \<in> set ex_metrics. metric_wf m" by code_simp
  have ne: "acc_tick zeroInflux plain_lib ex_metrics \<noteq> []" by code_simp
  from acc_tick_carries [OF plain_lib_ok wf ne] ne show ?thesis by blast
qed

text \<open>
  A tick of the accumulator whose metrics all merge into one point (same tags, pairwise different
  field names) writes nothing: the point is lost. This holds for every tick with a single metric.
\<close>

theorem acc_tick_merged_lost:
  assumes "lib_ok lib valid" and "merging ms tags"
  shows "acc_tick cfg lib ms = []"
  using merge_fold [OF assms, of cfg] by (auto simp: acc_tick_def merge_inv_def split: prod.splits)

lemma acc_tick_merged_lost_witness:
  "merging (take 2 ex_metrics) [(''device'', ''r1''), (''sensor'', ''s'')] \<and>
   acc_tick zeroInflux plain_lib (take 2 ex_metrics) = []"
proof -
  have m: "merging (take 2 ex_metrics) [(''device'', ''r1''), (''sensor'', ''s'')]" by code_simp
  from acc_tick_merged_lost [OF plain_lib_ok m] m show ?thesis by blast
qed


text \<open>
  C12. With a positive batch size, \<open>dbBatchWriteM\<close> writes for each measurement the points of its
  packets, all of them and in order, in batches that are not empty and never larger than the batch
  size; every batch but the last of a measurement is full.
\<close>

theorem dbBatchWriteM_conserves:
  assumes "0 < n"
  shows "case mget (dbBatchWriteM_tick n ch) k of
      None \<Rightarrow> k \<notin> wm_measurement ` set ch
    | Some bs \<Rightarrow> k \<in> wm_measurement ` set ch \<and>
        concat bs = concat (map wm_points (filter (\<lambda>d. wm_measurement d = k) ch)) \<and>
        (\<forall>b \<in> set bs. b \<noteq> [] \<and> int (length b) \<le> n) \<and> (\<forall>b \<in> set (butlast bs). int (length b) = n)"
proof -
  have get: "mget (dbBatchWriteM_tick n ch) k = map_option (writeM n) (mget (groupM ch) k)"
    by (simp add: dbBatchWriteM_tick_def mget_def map_of_map)
  show ?thesis
  proof (cases "k \<in> wm_measurement ` set ch")
    case True
    then have "\<exists>d \<in> set ch. wm_measurement d = k" by auto
    then have "mget (dbBatchWriteM_tick n ch) k = Some (writeM n (filter (\<lambda>d. wm_measurement d = k) ch))"
      by (simp add: get groupM_get)
    with True writeM_spec [OF assms, of "filter (\<lambda>d. wm_measurement d = k) ch"] show ?thesis by simp
  next
    case False
    then show ?thesis by (auto simp: get groupM_get)
  qed
qed

lemma dbBatchWriteM_conserves_witness:
  "mget (dbBatchWriteM_tick 1 ex_packets) ''m'' = Some [[ex_point 1], [ex_point 2]] \<and>
   concat [[ex_point 1], [ex_point 2]] = concat (map wm_points (filter (\<lambda>d. wm_measurement d = ''m'') ex_packets))"
  using dbBatchWriteM_conserves [where n = 1 and ch = ex_packets and k = "''m''"]
  by (simp add: ex_packets_def dbBatchWriteM_tick_def groupM_def writeM_def addPointM_def mget_def mput_def)

end
