(* ===== verification/Influx.thy ===== *)
theory Influx
  imports XPath InfluxBatch
begin

text \<open>
  Native Junos telemetry to InfluxDB: \<open>mName\<close>, \<open>newRow\<close> and \<open>addIDB\<close> of influx.go. The messages of
  telemetry.proto are records with the fields the sources read. Writing test data to a file
  (\<open>testDataPoints\<close>) has no effect on the state and is left out.
\<close>

section \<open>Messages\<close>

text \<open>The elements of a leaf-list: \<open>Some s\<close> is a string element, \<^term>\<open>None\<close> an element of another type.\<close>

datatype oc_value =
    DoubleValue f64
  | IntValue "64 word"
  | UintValue "64 word"
  | SintValue "64 word"
  | BoolValue bool
  | StrValue string
  | BytesValue bytes
  | FloatValue f32
  | LeaflistValue "string option list"

record KeyValue =
  kv_Key :: string
  kv_Value :: "oc_value option"

record OpenConfigData =
  oc_SystemId :: string
  oc_ComponentId :: "32 word"
  oc_SubComponentId :: "32 word"
  oc_Path :: string
  oc_SequenceNumber :: "64 word"
  oc_Timestamp :: "64 word"
  oc_Kv :: "KeyValue list"
  oc_SyncResponse :: bool
  oc_Delete :: "string list"

definition GetStrValue :: "KeyValue \<Rightarrow> string" where
  "GetStrValue v = (case kv_Value v of Some (StrValue s) \<Rightarrow> s | _ \<Rightarrow> [])"

definition GetUintValue :: "KeyValue \<Rightarrow> 64 word" where
  "GetUintValue v = (case kv_Value v of Some (UintValue u) \<Rightarrow> u | _ \<Rightarrow> 0)"


section \<open>Rows\<close>

definition idbName :: "OpenConfigData option \<Rightarrow> Config \<Rightarrow> string" where
  "idbName ocData cfg =
     (if i_Measurement (Influx cfg) \<noteq> [] then i_Measurement (Influx cfg)
      else case ocData of Some d \<Rightarrow> SubscriptionPathFromPath (oc_Path d) | None \<Rightarrow> [])"

record row =
  row_tags :: "(string, string) gomap"
  row_fields :: "(string, gval) gomap"

definition newRow :: "(string, string) gomap \<Rightarrow> (string, gval) gomap \<Rightarrow> row" where
  "newRow tags flds = \<lparr>row_tags = tags, row_fields = flds\<rparr>"

text \<open>
  The value of a field; a leaf-list is joined with commas, and without a string element the last
  character of the empty text is cut off, which panics. The default branch stores nothing.
\<close>

definition leafListText :: "string option list \<Rightarrow> string" where
  "leafListText es = concat (map (\<lambda>e. case e of Some s \<Rightarrow> s @ '','' | None \<Rightarrow> []) es)"

definition idbFields :: "bool \<Rightarrow> string \<Rightarrow> oc_value option \<Rightarrow> (string, gval) gomap go" where
  "idbFields enableUint xmlpath v =
     (case v of
        None \<Rightarrow> Inr []
      | Some (StrValue s) \<Rightarrow> Inr [(xmlpath, VString s)]
      | Some (DoubleValue d) \<Rightarrow> Inr [(xmlpath, VFloat64 (checkAndCeilFloatValues None (Some d)))]
      | Some (IntValue i) \<Rightarrow> Inr [(xmlpath, VFloat64 (f64_of_int (sint i)))]
      | Some (UintValue u) \<Rightarrow>
          Inr [(xmlpath, if enableUint then VUint64 u else VFloat64 (f64_of_int (uint u)))]
      | Some (SintValue i) \<Rightarrow> Inr [(xmlpath, VFloat64 (f64_of_int (sint i)))]
      | Some (BoolValue b) \<Rightarrow> Inr [(xmlpath, VBool b)]
      | Some (BytesValue b) \<Rightarrow> Inr [(xmlpath, VBytes b)]
      | Some (FloatValue f) \<Rightarrow> Inr [(xmlpath, VFloat64 (checkAndCeilFloatValues (Some f) None))]
      | Some (LeaflistValue es) \<Rightarrow>
          (if leafListText es = [] then Inl SliceBounds
           else Inr [(xmlpath, VString (butlast (leafListText es)))]))"

text \<open>The variables \<open>prefix\<close>, \<open>prefixXmlpath\<close> and \<open>prefixTags\<close> of the loop.\<close>

record idb_prefix =
  ip_prefix :: string
  ip_xmlpath :: string
  ip_tags :: "(string, string) gomap option"

definition stdTags :: "Config \<Rightarrow> OpenConfigData \<Rightarrow> (string, string) gomap \<Rightarrow> (string, string) gomap" where
  "stdTags cfg oc tags =
     mput (mput (mput (mput tags ''device'' (Host cfg)) ''sensor'' (oc_Path oc))
       ''component_id'' (convertToString (VUint32 (oc_ComponentId oc))))
       ''sub_component_id'' (convertToString (VUint32 (oc_SubComponentId oc)))"

text \<open>
  One iteration up to the fields: the new prefix state, and the tags and fields of the leaf unless the iteration is
  skipped. The map of the prefix tags is shared by the rows that use it, and the standard tags are stored in it.
\<close>

definition idbLeaf ::
  "JCtx \<Rightarrow> OpenConfigData \<Rightarrow> idb_prefix \<Rightarrow> KeyValue \<Rightarrow> (idb_prefix \<times> ((string, string) gomap \<times> (string, gval) gomap) option) go" where
  "idbLeaf jctx oc ps v =
     (let cfg = config jctx;
          leaf = (\<lambda>ps' xmlpath tags.
            bindR (idbFields (EnableUintSupport cfg) xmlpath (kv_Value v)) (\<lambda>kv. Inr (ps', Some (stdTags cfg oc tags, kv))))
      in if kv_Key v = ''__prefix__'' then
           bindR (spitTagsNPath jctx (GetStrValue v)) (\<lambda>(x, t).
             Inr (\<lparr>ip_prefix = GetStrValue v, ip_xmlpath = x, ip_tags = Some t\<rparr>, None))
         else if hasPrefix ''__'' (kv_Key v) then Inr (ps, None)
         else
           bindR (at (kv_Key v) 0) (\<lambda>c.
             if c \<noteq> CHR ''/'' then
               (if contains ''['' (kv_Key v) then
                  bindR (spitTagsNPath jctx (ip_prefix ps @ kv_Key v)) (\<lambda>(x, t). leaf ps x t)
                else
                  (case ip_tags ps of
                     None \<Rightarrow> Inr (ps, None)
                   | Some t \<Rightarrow>
                       leaf (ps\<lparr>ip_tags := Some (stdTags cfg oc t)\<rparr>)
                         (getAlias (jalias jctx) (ip_xmlpath ps @ kv_Key v)) t))
             else bindR (spitTagsNPath jctx (kv_Key v)) (\<lambda>(x, t). leaf ps x t)))"

text \<open>The rest of the iteration: the fields are merged into the last row or start a new row.\<close>

definition addRow :: "OpenConfigData \<Rightarrow> row list \<Rightarrow> (string, string) gomap \<times> (string, gval) gomap \<Rightarrow> row list" where
  "addRow oc rows leaf =
     (case leaf of (tags, kv) \<Rightarrow>
        let fresh = newRow tags (mput kv gDeviceTs (VInt64 (oc_Timestamp oc)))
        in if kv = [] then rows
           else if rows \<noteq> [] then
             (if meq tags (row_tags (last rows))
              then butlast rows @ [(last rows)\<lparr>row_fields := mputs (row_fields (last rows)) kv\<rparr>]
              else rows @ [fresh])
           else [fresh])"

fun idbLoop :: "JCtx \<Rightarrow> OpenConfigData \<Rightarrow> idb_prefix \<Rightarrow> row list \<Rightarrow> KeyValue list \<Rightarrow> row list go" where
  "idbLoop jctx oc ps rows [] = Inr rows"
| "idbLoop jctx oc ps rows (v # vs) =
     bindR (idbLeaf jctx oc ps v) (\<lambda>(ps', leaf).
       idbLoop jctx oc ps'
         (case leaf of
            None \<Rightarrow> rows
          | Some l \<Rightarrow> if influxClient (influxCtx jctx) then addRow oc rows l else rows) vs)"

definition idbStart :: idb_prefix where
  "idbStart = \<lparr>ip_prefix = [], ip_xmlpath = [], ip_tags = None\<rparr>"

text \<open>The points made of the rows, and the send to the channel of the writer.\<close>

definition idbPoints :: "influx_lib \<Rightarrow> Config \<Rightarrow> OpenConfigData \<Rightarrow> int \<Rightarrow> row list \<Rightarrow> point list" where
  "idbPoints lib cfg oc rtime rows =
     List.map_filter (\<lambda>r. il_NewPoint lib (idbName (Some oc) cfg) (row_tags r) (row_fields r) rtime) rows"

definition sendPoints :: "string \<Rightarrow> point list \<Rightarrow> JCtx \<Rightarrow> JCtx" where
  "sendPoints measurement points jctx =
     (if i_WritePerMeasurement (Influx (config jctx)) then
        upd_influx (\<lambda>i. i\<lparr>batchWMCh :=
          map_option (\<lambda>q. q @ [\<lparr>wm_measurement = measurement, wm_points = points\<rparr>]) (batchWMCh i)\<rparr>) jctx
      else upd_influx (\<lambda>i. i\<lparr>batchWCh := map_option (\<lambda>q. q @ [points]) (batchWCh i)\<rparr>) jctx)"

definition addIDB :: "influx_lib \<Rightarrow> OpenConfigData \<Rightarrow> JCtx \<Rightarrow> int \<Rightarrow> JCtx go" where
  "addIDB lib oc jctx rtime =
     bindR (idbLoop jctx oc idbStart [] (oc_Kv oc)) (\<lambda>rows.
       let points = idbPoints lib (config jctx) oc rtime rows
       in Inr (if points \<noteq> [] then sendPoints (idbName (Some oc) (config jctx)) points jctx else jctx))"


section \<open>Lemmas: leaves and rows\<close>

text \<open>The leaves of a packet, without the rows.\<close>

fun idbLeaves ::
  "JCtx \<Rightarrow> OpenConfigData \<Rightarrow> idb_prefix \<Rightarrow> KeyValue list \<Rightarrow> ((string, string) gomap \<times> (string, gval) gomap) list go" where
  "idbLeaves jctx oc ps [] = Inr []"
| "idbLeaves jctx oc ps (v # vs) =
     bindR (idbLeaf jctx oc ps v) (\<lambda>(ps', leaf).
       bindR (idbLeaves jctx oc ps' vs) (\<lambda>ls. Inr (case leaf of None \<Rightarrow> ls | Some l \<Rightarrow> l # ls)))"

lemma idbLoop_leaves:
  "influxClient (influxCtx jctx) \<Longrightarrow>
   idbLoop jctx oc ps rows vs = bindR (idbLeaves jctx oc ps vs) (\<lambda>ls. Inr (foldl (addRow oc) rows ls))"
proof (induction vs arbitrary: ps rows)
  case (Cons v vs)
  show ?case
  proof (cases "idbLeaf jctx oc ps v")
    case (Inr r)
    obtain ps' leaf where "r = (ps', leaf)" by (cases r)
    with Inr Cons show ?thesis by (cases "idbLeaves jctx oc ps' vs") (auto split: option.splits)
  qed simp
qed simp

definition leaf_wf :: "(string, string) gomap \<times> (string, gval) gomap \<Rightarrow> bool" where
  "leaf_wf l \<longleftrightarrow> mwf (fst l) \<and> mwf (snd l)"

lemma foldl_mput_wf: "mwf m \<Longrightarrow> mwf (foldl (\<lambda>m (k, v). mput m (f k) (g v)) m kvs)"
  by (induction kvs arbitrary: m) (auto simp: gm.wf_put)

lemma spitLoop_wf: "mwf tags \<Longrightarrow> mwf (snd (spitLoop a subs x tags))"
  by (induction a subs x tags rule: spitLoop.induct)
    (auto simp: addTags_def intro!: foldl_mput_wf [where f = "\<lambda>k. getAlias _ (_ @ ''/'' @ _ @ ''/@'' @ go_trimSpace k)" and g = "\<lambda>v. filter _ (go_trimSpace v)", simplified])

lemma spit_wf: "spitTagsNPath jctx x = Inr (p, t) \<Longrightarrow> mwf t"
  using spitLoop_wf [of "[]" "jalias jctx" "xfind x" x]
  by (auto simp: spitTagsNPath_def spit_def gm.wf_emp split: if_splits)

lemma stdTags_wf: "mwf t \<Longrightarrow> mwf (stdTags cfg oc t)"
  by (simp add: stdTags_def gm.wf_put)

lemma idbFields_wf: "idbFields en x v = Inr kv \<Longrightarrow> mwf kv"
  by (auto simp: idbFields_def mwf_def split: option.splits oc_value.splits if_splits)

definition prefix_wf :: "idb_prefix \<Rightarrow> bool" where
  "prefix_wf ps \<longleftrightarrow> (\<forall>t \<in> set_option (ip_tags ps). mwf t)"

lemma idbLeaf_wf:
  "prefix_wf ps \<Longrightarrow> idbLeaf jctx oc ps v = Inr (ps', l) \<Longrightarrow> prefix_wf ps' \<and> (\<forall>x \<in> set_option l. leaf_wf x)"
  by (auto simp: idbLeaf_def Let_def prefix_wf_def leaf_wf_def bindR_Inr_iff
      dest!: spit_wf intro: stdTags_wf idbFields_wf split: if_splits option.splits)

lemma idbLeaves_wf:
  "prefix_wf ps \<Longrightarrow> idbLeaves jctx oc ps vs = Inr ls \<Longrightarrow> \<forall>l \<in> set ls. leaf_wf l"
proof (induction vs arbitrary: ps ls)
  case (Cons v vs)
  then obtain ps' l ls' where l: "idbLeaf jctx oc ps v = Inr (ps', l)" "idbLeaves jctx oc ps' vs = Inr ls'"
    and ls: "ls = (case l of None \<Rightarrow> ls' | Some x \<Rightarrow> x # ls')"
    by (auto simp: bindR_Inr_iff)
  with idbLeaf_wf [OF Cons.prems(1) l(1)] Cons.IH [OF _ l(2)] show ?case by (auto split: option.splits)
qed simp

definition row_wf :: "row \<Rightarrow> bool" where
  "row_wf r \<longleftrightarrow> mwf (row_tags r) \<and> mwf (row_fields r)"

text \<open>Some row has the tags and the value of a field.\<close>

definition row_has :: "row list \<Rightarrow> (string, string) gomap \<Rightarrow> string \<Rightarrow> gval \<Rightarrow> bool" where
  "row_has rows tags x v \<longleftrightarrow> (\<exists>r \<in> set rows. mget (row_tags r) = mget tags \<and> mget (row_fields r) x = Some v)"

lemma addRow_cases:
  obtains (none) "kv = []" "addRow oc rows (tags, kv) = rows"
  | (merge) rs r where "kv \<noteq> []" "rows = rs @ [r]" "meq tags (row_tags r)"
      "addRow oc rows (tags, kv) = rs @ [r\<lparr>row_fields := mputs (row_fields r) kv\<rparr>]"
  | (fresh) "kv \<noteq> []"
      "addRow oc rows (tags, kv) = rows @ [newRow tags (mput kv gDeviceTs (VInt64 (oc_Timestamp oc)))]"
proof (cases rows rule: rev_cases)
  case Nil
  then show thesis using none fresh by (cases "kv = []") (auto simp: addRow_def)
next
  case (snoc rs r)
  then show thesis using none fresh merge [of rs r]
    by (cases "kv = []"; cases "meq tags (row_tags r)") (auto simp: addRow_def)
qed

lemma addRow_wf:
  assumes "leaf_wf (tags, kv)" "\<forall>r \<in> set rows. row_wf r"
  shows "\<forall>r \<in> set (addRow oc rows (tags, kv)). row_wf r"
  by (cases rule: addRow_cases [of kv oc rows tags])
    (use assms in \<open>auto simp: row_wf_def leaf_wf_def newRow_def gm.wf_put mwf_mputs\<close>)

lemma addRow_has_new:
  assumes "leaf_wf (tags, kv)" "\<forall>r \<in> set rows. row_wf r" "mget kv x = Some v" "x \<noteq> gDeviceTs"
  shows "row_has (addRow oc rows (tags, kv)) tags x v"
proof (cases rule: addRow_cases [of kv oc rows tags])
  case none
  with assms show ?thesis by simp
next
  case (merge rs r)
  with assms have "mget (row_tags r) = mget tags" by (simp add: meq_iff leaf_wf_def row_wf_def)
  moreover have "mget (mputs (row_fields r) kv) x = Some v" using assms by (simp add: mget_mputs leaf_wf_def)
  ultimately show ?thesis unfolding merge(4) by (simp add: row_has_def)
next
  case fresh
  with assms show ?thesis by (simp add: row_has_def newRow_def)
qed

lemma addRow_has_old:
  assumes "leaf_wf (tags', kv)" "\<forall>r \<in> set rows. row_wf r" "row_has rows tags x v"
    and "\<not> (mget tags' = mget tags \<and> mget kv x \<noteq> None)"
  shows "row_has (addRow oc rows (tags', kv)) tags x v"
proof (cases rule: addRow_cases [of kv oc rows tags'])
  case none
  with assms show ?thesis by simp
next
  case (merge rs r)
  then have "mget tags' = mget (row_tags r)" using assms(1,2) by (simp add: meq_iff leaf_wf_def row_wf_def)
  moreover have "mget (mputs (row_fields r) kv) x = Some v"
    if "mget kv x = None" "mget (row_fields r) x = Some v"
    using that assms(1) by (simp add: mget_mputs leaf_wf_def)
  ultimately show ?thesis using assms(3,4) unfolding merge(4) by (auto simp: merge(2) row_has_def)
next
  case fresh
  with assms(3) show ?thesis by (auto simp: row_has_def)
qed

lemma addRows_wf:
  "\<forall>l \<in> set ls. leaf_wf l \<Longrightarrow> \<forall>r \<in> set rows. row_wf r \<Longrightarrow> \<forall>r \<in> set (foldl (addRow oc) rows ls). row_wf r"
proof (induction ls arbitrary: rows)
  case (Cons l ls)
  from addRow_wf [of "fst l" "snd l" rows oc] Cons.prems have "\<forall>r \<in> set (addRow oc rows l). row_wf r" by simp
  with Cons show ?case by simp
qed simp

lemma addRows_has:
  "\<forall>l \<in> set ls. leaf_wf l \<Longrightarrow> \<forall>r \<in> set rows. row_wf r \<Longrightarrow> row_has rows tags x v \<Longrightarrow>
   \<forall>l \<in> set ls. \<not> (mget (fst l) = mget tags \<and> mget (snd l) x \<noteq> None) \<Longrightarrow>
   row_has (foldl (addRow oc) rows ls) tags x v"
proof (induction ls arbitrary: rows)
  case (Cons l ls)
  have "\<forall>r \<in> set (addRow oc rows l). row_wf r" using addRow_wf [of "fst l" "snd l" rows oc] Cons.prems by simp
  moreover have "row_has (addRow oc rows l) tags x v"
    using addRow_has_old [of "fst l" "snd l" rows tags x v oc] Cons.prems by simp
  ultimately show ?case using Cons by simp
qed simp

lemma addRows_delivers:
  assumes "\<forall>l \<in> set (A @ (tags, kv) # B). leaf_wf l" "mget kv x = Some v" "x \<noteq> gDeviceTs"
    and "\<forall>l \<in> set B. \<not> (mget (fst l) = mget tags \<and> mget (snd l) x \<noteq> None)"
  shows "row_has (foldl (addRow oc) [] (A @ (tags, kv) # B)) tags x v"
proof -
  let ?rows = "foldl (addRow oc) [] A"
  have wf: "\<forall>r \<in> set ?rows. row_wf r" using assms(1) by (intro addRows_wf) auto
  have l: "leaf_wf (tags, kv)" using assms(1) by simp
  have "row_has (foldl (addRow oc) (addRow oc ?rows (tags, kv)) B) tags x v"
    using assms addRow_wf [OF l wf] addRow_has_new [OF l wf assms(2,3)] by (intro addRows_has) auto
  then show ?thesis by simp
qed

text \<open>Every field value of the rows is valid when those of the leaves are.\<close>

lemma addRow_valid:
  assumes "\<forall>(k, u) \<in> set kv. valid k u" "valid gDeviceTs (VInt64 (oc_Timestamp oc))"
    and "\<forall>r \<in> set rows. row_fields r \<noteq> [] \<and> (\<forall>(k, u) \<in> set (row_fields r). valid k u)"
  shows "\<forall>r \<in> set (addRow oc rows (tags, kv)). row_fields r \<noteq> [] \<and> (\<forall>(k, u) \<in> set (row_fields r). valid k u)"
proof (cases rule: addRow_cases [of kv oc rows tags])
  case none
  with assms show ?thesis by simp
next
  case (merge rs r)
  have "\<forall>(k, u) \<in> set (mputs (row_fields r) kv). valid k u"
    using set_mputs [of "row_fields r" kv] assms(1,3) merge(2) by fastforce
  moreover have "mputs (row_fields r) kv \<noteq> []" using mputs_eq_Nil [of "row_fields r" kv] assms(3) merge(2) by auto
  ultimately show ?thesis using assms(3) merge(2) unfolding merge(4) by simp
next
  case fresh
  have "\<forall>(k, u) \<in> set (mput kv gDeviceTs (VInt64 (oc_Timestamp oc))). valid k u"
    using set_mput [of kv gDeviceTs "VInt64 (oc_Timestamp oc)"] assms(1,2) by blast
  with fresh assms(3) show ?thesis by (auto simp: newRow_def)
qed

lemma addRows_valid:
  assumes "\<forall>l \<in> set ls. \<forall>(k, u) \<in> set (snd l). valid k u" "valid gDeviceTs (VInt64 (oc_Timestamp oc))"
  shows "\<forall>r \<in> set (foldl (addRow oc) [] ls). row_fields r \<noteq> [] \<and> (\<forall>(k, u) \<in> set (row_fields r). valid k u)"
  using assms(1)
proof (induction ls rule: rev_induct)
  case (snoc l ls)
  then show ?case using addRow_valid [of "snd l" valid oc "foldl (addRow oc) [] ls" "fst l"] assms(2) by simp
qed simp

text \<open>Values that do not make the loop panic.\<close>

definition kv_safe :: "KeyValue \<Rightarrow> bool" where
  "kv_safe v \<longleftrightarrow> kv_Key v \<noteq> [] \<and>
     (case kv_Value v of Some (LeaflistValue es) \<Rightarrow> \<exists>e \<in> set es. e \<noteq> None | _ \<Rightarrow> True)"

lemma kv_safe_fields: "kv_safe v \<Longrightarrow> \<exists>kv. idbFields en x (kv_Value v) = Inr kv"
  by (auto simp: kv_safe_def idbFields_def leafListText_def split: option.splits oc_value.splits)

lemma kv_safe_leaf:
  assumes "kv_safe v" "reCompiled (influxCtx jctx)"
  shows "\<exists>r. idbLeaf jctx oc ps v = Inr r"
proof -
  have f: "\<exists>kv. idbFields en x (kv_Value v) = Inr kv" for en x using kv_safe_fields [OF assms(1)] by blast
  have "\<exists>c. at (kv_Key v) 0 = Inr c" using assms(1) by (simp add: kv_safe_def at_def)
  then obtain c where c: "at (kv_Key v) 0 = Inr c" ..
  have l: "\<exists>r. bindR (idbFields en x (kv_Value v)) (\<lambda>kv. Inr (q, Some (t, kv))) = Inr r" for en x q t
    using f [of en x] by auto
  show ?thesis
    using assms(2) l by (auto simp: idbLeaf_def Let_def spitTagsNPath_def c split: prod.splits option.splits)
qed

lemma kv_safe_leaves:
  "\<forall>v \<in> set vs. kv_safe v \<Longrightarrow> reCompiled (influxCtx jctx) \<Longrightarrow> \<exists>ls. idbLeaves jctx oc ps vs = Inr ls"
proof (induction vs arbitrary: ps)
  case (Cons v vs)
  then obtain ps' l where "idbLeaf jctx oc ps v = Inr (ps', l)" using kv_safe_leaf [of v jctx oc ps] by auto
  moreover obtain ls where "idbLeaves jctx oc ps' vs = Inr ls" using Cons by fastforce
  ultimately show ?case by simp
qed simp


section \<open>Properties\<close>


definition ex_oc :: OpenConfigData where
  "ex_oc = \<lparr>oc_SystemId = ''r1'', oc_ComponentId = 1, oc_SubComponentId = 0, oc_Path = ''s:/a/:/a/:PFE'', oc_SequenceNumber = 1,
     oc_Timestamp = 5, oc_Kv =
       [\<lparr>kv_Key = ''__prefix__'', kv_Value = Some (StrValue (''/a/b[n='' @ [CHR 0x27] @ ''x'' @ [CHR 0x27] @ '']/''))\<rparr>,
        \<lparr>kv_Key = ''up'', kv_Value = Some (BoolValue True)\<rparr>, \<lparr>kv_Key = ''name'', kv_Value = Some (StrValue ''q'')\<rparr>],
     oc_SyncResponse = False, oc_Delete = []\<rparr>"

definition ex_idb_jctx :: JCtx where
  "ex_idb_jctx = zeroJCtx\<lparr>influxCtx := zeroInfluxCtx\<lparr>influxClient := True, reCompiled := True, batchWCh := Some []\<rparr>\<rparr>"

definition ex_tags :: "(string, string) gomap" where
  "ex_tags = stdTags zeroConfig ex_oc [(''/a/b/@n'', ''x'')]"


text \<open>
  A leaf with an empty key, and a leaf-list without a string element under an absolute key, make \<open>addIDB\<close> panic,
  whatever follows them in the packet.
\<close>

theorem addIDB_panics:
  "addIDB lib (oc\<lparr>oc_Kv := \<lparr>kv_Key = [], kv_Value = val\<rparr> # vs\<rparr>) jctx rtime = Inl IndexOutOfRange \<and>
   (reCompiled (influxCtx jctx) \<longrightarrow>
      addIDB lib (oc\<lparr>oc_Kv := \<lparr>kv_Key = CHR ''/'' # k, kv_Value = Some (LeaflistValue (replicate n None))\<rparr> # vs\<rparr>) jctx rtime =
      Inl SliceBounds)"
proof -
  have "concat (map (\<lambda>e. case e of None \<Rightarrow> [] | Some s \<Rightarrow> s @ '','') (replicate n (None :: string option))) = []"
    by (induction n) auto
  then show ?thesis
    by (simp add: addIDB_def idbLeaf_def at_def spitTagsNPath_def idbFields_def leafListText_def Let_def split: prod.splits)
qed

theorem addIDB_panics_witness:
  "addIDB plain_lib (ex_oc\<lparr>oc_Kv := [\<lparr>kv_Key = ''/a'', kv_Value = Some (LeaflistValue (replicate 2 None))\<rparr>]\<rparr>) ex_idb_jctx 9 =
   Inl SliceBounds"
proof -
  have "reCompiled (influxCtx ex_idb_jctx)" by (simp add: ex_idb_jctx_def)
  with addIDB_panics [where lib = plain_lib and oc = ex_oc and vs = "[]" and jctx = ex_idb_jctx and rtime = 9 and k = "''a''" and n = 2] show ?thesis by simp
qed

end
