(* ===== verification/Json.thy ===== *)
theory Json
  imports Values
begin

text \<open>
  What gnmi_utils.go uses of the packages encoding/json, strconv and encoding/hex: decoding of one
  JSON text whose numbers are kept as text (\<open>json.Compact\<close>, then \<open>Decode\<close> after \<open>UseNumber\<close>), and the
  two conversions of a number. The caller accepts numbers, booleans and strings only; every other
  text, valid or not, is an error to it, so that the decoder here reads scalars. A string is taken
  to be valid UTF-8.
\<close>

definition js_space :: "char \<Rightarrow> bool" where
  "js_space c \<longleftrightarrow> c \<in> set [CHR 0x20, CHR 0x09, CHR 0x0A, CHR 0x0D]"

definition hex_val :: "char \<Rightarrow> nat option" where
  "hex_val c =
     (let n = of_char c :: nat
      in if 48 \<le> n \<and> n \<le> 57 then Some (n - 48)
         else if 65 \<le> n \<and> n \<le> 70 then Some (n - 55)
         else if 97 \<le> n \<and> n \<le> 102 then Some (n - 87)
         else None)"

definition u4 :: "char \<Rightarrow> char \<Rightarrow> char \<Rightarrow> char \<Rightarrow> nat option" where
  "u4 a b c d =
     (case (hex_val a, hex_val b, hex_val c, hex_val d) of
        (Some w, Some x, Some y, Some z) \<Rightarrow> Some (((w * 16 + x) * 16 + y) * 16 + z)
      | _ \<Rightarrow> None)"

definition utf8 :: "nat \<Rightarrow> string" where
  "utf8 n =
     map char_of
       (if n < 0x80 then [n]
        else if n < 0x800 then [0xC0 + n div 64, 0x80 + n mod 64]
        else if n < 0x10000 then [0xE0 + n div 4096, 0x80 + n div 64 mod 64, 0x80 + n mod 64]
        else [0xF0 + n div 262144, 0x80 + n div 4096 mod 64, 0x80 + n div 64 mod 64, 0x80 + n mod 64])"

text \<open>
  The rest of a string literal after its opening quote: the decoded text and what follows the
  closing quote. Of an escaped surrogate pair the two halves give one character; a half that stands
  alone gives the replacement character.
\<close>

definition js_escape :: "char \<Rightarrow> char option" where
  "js_escape c =
     map_of [(CHR 0x22, CHR 0x22), (CHR 0x5C, CHR 0x5C), (CHR ''/'', CHR ''/''), (CHR ''b'', CHR 0x08),
       (CHR ''f'', CHR 0x0C), (CHR ''n'', CHR 0x0A), (CHR ''r'', CHR 0x0D), (CHR ''t'', CHR 0x09)] c"

definition js_pair :: "nat \<Rightarrow> string \<Rightarrow> string \<times> string" where
  "js_pair hi rest =
     (case rest of
        bs # u # a # b # c # d # r \<Rightarrow>
          (if bs = CHR 0x5C \<and> u = CHR ''u'' then
             (case u4 a b c d of
                Some lo \<Rightarrow>
                  if 0xD800 \<le> hi \<and> hi < 0xDC00 \<and> 0xDC00 \<le> lo \<and> lo < 0xE000
                  then (utf8 ((hi - 0xD800) * 1024 + (lo - 0xDC00) + 0x10000), r)
                  else (utf8 0xFFFD, rest)
              | None \<Rightarrow> (utf8 0xFFFD, rest))
           else (utf8 0xFFFD, rest))
      | _ \<Rightarrow> (utf8 0xFFFD, rest))"

definition js_unicode :: "string \<Rightarrow> (string \<times> string) option" where
  "js_unicode s =
     (case s of
        a # b # c # d # r \<Rightarrow>
          (case u4 a b c d of
             None \<Rightarrow> None
           | Some n \<Rightarrow> Some (if 0xD800 \<le> n \<and> n < 0xE000 then js_pair n r else (utf8 n, r)))
      | _ \<Rightarrow> None)"

lemma js_pair_length: "js_pair hi s = (t, r) \<Longrightarrow> length r \<le> length s"
  by (auto simp: js_pair_def split: list.splits if_splits option.splits)

lemma js_unicode_length: "js_unicode s = Some (t, r) \<Longrightarrow> length r < length s"
  by (auto simp: js_unicode_def split: list.splits option.splits if_splits dest!: js_pair_length)

function js_string :: "string \<Rightarrow> (string \<times> string) option" where
  "js_string [] = None"
| "js_string (c # cs) =
     (if c = CHR 0x22 then Some ([], cs)
      else if (of_char c :: nat) < 0x20 then None
      else if c = CHR 0x5C then
        (case cs of
           [] \<Rightarrow> None
         | e # ds \<Rightarrow>
             if e = CHR ''u'' then
               (case js_unicode ds of
                  None \<Rightarrow> None
                | Some (t, r) \<Rightarrow> map_option (\<lambda>(v, rest). (t @ v, rest)) (js_string r))
             else
               (case js_escape e of
                  None \<Rightarrow> None
                | Some x \<Rightarrow> map_option (\<lambda>(v, rest). (x # v, rest)) (js_string ds)))
      else map_option (\<lambda>(v, rest). (c # v, rest)) (js_string cs))"
  by pat_completeness auto
termination
  by (relation "measure length") (auto dest: js_unicode_length)

text \<open>
  A number: sign, integer digits, fraction digits and exponent. \<open>Float64\<close> is used when the text has a
  decimal point and \<open>Int64\<close> otherwise; both report a value out of range, and \<open>Int64\<close> an exponent.
\<close>

definition js_sign :: "string \<Rightarrow> bool \<times> string" where
  "js_sign s = (case s of [] \<Rightarrow> (False, s) | c # cs \<Rightarrow> if c = CHR ''-'' then (True, cs) else (False, s))"

definition js_frac :: "string \<Rightarrow> (string option \<times> string) option" where
  "js_frac s =
     (case s of
        [] \<Rightarrow> Some (None, s)
      | c # cs \<Rightarrow>
          if c = CHR ''.'' then
            (if takeWhile is_digit cs = [] then None else Some (Some (takeWhile is_digit cs), dropWhile is_digit cs))
          else Some (None, s))"

definition js_exp :: "string \<Rightarrow> int option option" where
  "js_exp s =
     (case s of
        [] \<Rightarrow> Some None
      | c # cs \<Rightarrow>
          if c = CHR ''e'' \<or> c = CHR ''E'' then
            (let neg = (cs \<noteq> [] \<and> hd cs = CHR ''-'');
                 ds = (if cs \<noteq> [] \<and> (hd cs = CHR ''-'' \<or> hd cs = CHR ''+'') then tl cs else cs)
             in if ds \<noteq> [] \<and> list_all is_digit ds
                then Some (Some (if neg then - read_digits ds else read_digits ds)) else None)
          else None)"

definition js_number :: "string \<Rightarrow> gval option" where
  "js_number s =
     (case js_sign s of (neg, t) \<Rightarrow>
        let ip = takeWhile is_digit t
        in if ip = [] \<or> (hd ip = CHR ''0'' \<and> length ip \<noteq> 1) then None
           else
             (case js_frac (dropWhile is_digit t) of
                None \<Rightarrow> None
              | Some (fp, u) \<Rightarrow>
                  (case js_exp u of
                     None \<Rightarrow> None
                   | Some ex \<Rightarrow>
                       (case fp of
                          Some f \<Rightarrow>
                            (let e = (case ex of None \<Rightarrow> 0 | Some x \<Rightarrow> x) - int (length f);
                                 w = f64_round neg (dec_num (read_digits (ip @ f)) e) (dec_den e)
                             in if f64_is_inf w 0 then None else Some (VFloat64 w))
                        | None \<Rightarrow>
                            (if ex \<noteq> None then None
                             else
                               let n = (if neg then - read_digits ip else read_digits ip)
                               in if - (2 ^ 63) \<le> n \<and> n < 2 ^ 63 then Some (VInt64 (word_of_int n)) else None)))))"

definition json_scalar :: "string \<Rightarrow> gval option" where
  "json_scalar s =
     (let t = trimBy js_space s
      in if t = ''true'' then Some (VBool True)
         else if t = ''false'' then Some (VBool False)
         else
           (case t of
              [] \<Rightarrow> None
            | c # cs \<Rightarrow>
                if c = CHR 0x22 then
                  (case js_string cs of
                     Some (v, rest) \<Rightarrow> if rest = [] then Some (VString v) else None
                   | None \<Rightarrow> None)
                else js_number t))"

section \<open>Hexadecimal output\<close>

definition hex_char :: "nat \<Rightarrow> char" where
  "hex_char n = char_of (if n < 10 then 48 + n else 87 + n)"

definition hex_encode :: "bytes \<Rightarrow> string" where
  "hex_encode bs = concat (map (\<lambda>b. [hex_char (unat b div 16), hex_char (unat b mod 16)]) bs)"


section \<open>Lemmas\<close>

lemma is_digit_dec_char: "is_digit c \<longleftrightarrow> dec_char c"
  by (simp add: is_digit_def dec_char_def less_eq_char_def)

lemma show_pos_hd: "0 < n \<Longrightarrow> hd (show_pos n) \<noteq> CHR ''0''"
proof (induction n rule: show_pos.induct)
  case (1 n)
  show ?case
  proof (cases "n < 10")
    case True
    have "digit_char n \<noteq> CHR ''0''"
      using of_char_digit [of n] True 1(2) by auto
    with True show ?thesis by (simp add: show_pos.simps [of n])
  next
    case False
    with 1 show ?thesis by (simp add: show_pos.simps [of n])
  qed
qed

lemma show_pos_zero: "show_pos 0 = ''0''"
  by (simp add: show_pos.simps [of 0]) code_simp

lemma js_number_show_pos:
  assumes "0 \<le> n" "n < 2 ^ 63"
  shows "js_number (show_pos n) = Some (VInt64 (word_of_int n))"
proof -
  have d: "\<forall>c \<in> set (show_pos n). is_digit c" by (simp add: is_digit_dec_char dec_char_show_pos)
  then have tw: "takeWhile is_digit (show_pos n) = show_pos n" "dropWhile is_digit (show_pos n) = []"
    by (simp_all add: takeWhile_eq_all_conv dropWhile_eq_Nil_conv)
  have "\<not> is_digit CHR ''-''" by code_simp
  with d have "hd (show_pos n) \<noteq> CHR ''-''" by (metis hd_in_set show_pos_not_Nil)
  then have "js_sign (show_pos n) = (False, show_pos n)"
    by (cases "show_pos n") (simp_all add: js_sign_def)
  moreover have "\<not> (hd (show_pos n) = CHR ''0'' \<and> length (show_pos n) \<noteq> 1)"
    using show_pos_hd [of n] show_pos_zero assms(1) by (cases "n = 0") auto
  ultimately show ?thesis
    using assms by (simp add: js_number_def tw js_frac_def js_exp_def read_show_pos Let_def)
qed

lemma js_number_show_neg:
  assumes "0 < n" "n \<le> 2 ^ 63"
  shows "js_number (CHR ''-'' # show_pos n) = Some (VInt64 (word_of_int (- n)))"
proof -
  have d: "\<forall>c \<in> set (show_pos n). is_digit c" by (simp add: is_digit_dec_char dec_char_show_pos)
  then have tw: "takeWhile is_digit (show_pos n) = show_pos n" "dropWhile is_digit (show_pos n) = []"
    by (simp_all add: takeWhile_eq_all_conv dropWhile_eq_Nil_conv)
  from assms show_pos_hd [of n] show ?thesis
    by (simp add: js_number_def js_sign_def tw js_frac_def js_exp_def read_show_pos Let_def)
qed

text \<open>A printed 64-bit integer is decoded to itself.\<close>

lemma json_scalar_int:
  assumes "- (2 ^ 63) \<le> n" "n < 2 ^ 63"
  shows "json_scalar (show_int n) = Some (VInt64 (word_of_int n))"
proof -
  have c: "c = CHR ''-'' \<or> is_digit c" if "c \<in> set (show_int n)" for c
    using that dec_char_show_pos by (auto simp: show_int_def is_digit_dec_char split: if_splits)
  have "\<not> js_space c" if "c \<in> set (show_int n)" for c
    using c [OF that] by (auto simp: js_space_def is_digit_dec_char dec_char_def)
  then have trim: "trimBy js_space (show_int n) = show_int n"
    by (intro trimBy_id) (metis hd_in_set last_in_set)
  have nt: "show_int n \<noteq> ''true''" "show_int n \<noteq> ''false''"
  proof -
    have "\<not> is_digit CHR ''t''" "\<not> is_digit CHR ''f''" by code_simp+
    then show "show_int n \<noteq> ''true''" "show_int n \<noteq> ''false''"
      using c [of "CHR ''t''"] c [of "CHR ''f''"] by auto
  qed
  have "\<not> is_digit CHR 0x22" by code_simp
  then have "hd (show_int n) \<noteq> CHR 0x22" "show_int n \<noteq> []"
    using c [of "hd (show_int n)"] by (auto simp: show_int_def split: if_splits)
  then have "json_scalar (show_int n) = js_number (show_int n)"
    using trim nt by (cases "show_int n") (auto simp: json_scalar_def Let_def)
  also have "\<dots> = Some (VInt64 (word_of_int n))"
    using js_number_show_pos [of n] js_number_show_neg [of "- n"] assms by (simp add: show_int_def)
  finally show ?thesis .
qed

end
