(* ===== verification/GnmiParse.thy ===== *)
theory GnmiParse
  imports GnmiPath Json
begin

text \<open>
  Parsing of a gNMI notification: \<open>gnmiParsePath\<close>, \<open>gnmiParseValue\<close>, \<open>gnmiParseUpdates\<close>,
  \<open>gnmiParseDeletes\<close> and \<open>formJuniperTelemetryHdr\<close> of gnmi_utils.go, \<open>gnmiParseHeader\<close> and
  \<open>gnmiParseNotification\<close> of subscribe_gnmi.go. A returned error is \<open>Inl\<close> with its text where the
  caller looks at the text and an option otherwise; a panic is the outer \<open>Inl\<close>. The decoders of
  the protobuf runtime are a parameter \<open>pb_lib\<close>.
\<close>

section \<open>Messages\<close>

datatype TypedValue =
    StringVal string
  | IntVal "64 word"
  | UintVal "64 word"
  | JsonIetfVal "string option"
  | JsonVal "string option"
  | ProtoBytes bytes
  | BoolVal bool
  | BytesVal bytes
  | AsciiVal string
  | AnyVal any_msg
  | DoubleVal f64
  | DecimalVal "64 word" "32 word"
  | FloatVal f32
  | LeaflistVal "TypedValue list"

record Update =
  u_Path :: "gnmi_Path option"
  u_Val :: "TypedValue option"

record Notification =
  n_Timestamp :: "64 word"
  n_Prefix :: "gnmi_Path option"
  n_Update :: "Update list"
  n_Delete :: "gnmi_Path list"

text \<open>An extension with its registered identifier and message; no registered extension reads as identifier 0.\<close>

record Extension =
  e_Id :: int
  e_Msg :: bytes

record SubscribeResponse =
  r_Update :: "Notification option"
  r_SyncResponse :: bool
  r_Extension :: "Extension list"

text \<open>The fields of the two Juniper headers that the sources read.\<close>

record TelemetryHeader =
  h_Path :: string
  h_SequenceNumber :: "64 word"

record TelemetryHeaderExt =
  x_SystemId :: string
  x_ComponentId :: "32 word"
  x_SubComponentId :: "32 word"
  x_SensorName :: string
  x_SubscribedPath :: string
  x_StreamedPath :: string
  x_Component :: string
  x_SequenceNumber :: "64 word"
  x_PayloadGetTimestamp :: "64 word"
  x_StreamCreationTimestamp :: "64 word"
  x_ExportTimestamp :: "64 word"

record juniperGnmiHeaderDetails =
  jh_hdr :: "TelemetryHeader option"
  jh_hdrExt :: "TelemetryHeaderExt option"

record jnprXpathDetails =
  jx_xPaths :: "(string, gval) gomap"
  jx_hdrXpath :: string
  jx_publishTsXpath :: string

record gnmiParseOutputT =
  prefixPath :: string
  kvpairs :: "(string, string) gomap"
  xpaths :: "(string, gval) gomap"
  sensorVal :: string
  mName :: string
  jXpaths :: "jnprXpathDetails option"
  jHeader :: "juniperGnmiHeaderDetails option"
  inKvs :: "64 word"

text \<open>
  The protobuf runtime: the message name in the type URL of an \<open>Any\<close>, and the two decoders. The
  decoder of the header returns what it has read even when it fails, and the code ignores its error.
\<close>

record pb_lib =
  pb_AnyMessageName :: "any_msg \<Rightarrow> string option"
  pb_UnmarshalHdr :: "any_msg \<Rightarrow> TelemetryHeader"
  pb_UnmarshalExt :: "bytes \<Rightarrow> TelemetryHeaderExt option"

definition gGnmiJuniperHeaderFieldName :: string where
  "gGnmiJuniperHeaderFieldName = ''__juniper_telemetry_header__''"
definition gGnmiJuniperPublishTsFieldName :: string where
  "gGnmiJuniperPublishTsFieldName = ''__timestamp__''"
definition gGnmiJuniperHeaderMsgName :: string where
  "gGnmiJuniperHeaderMsgName = ''GnmiJuniperTelemetryHeader''"
definition gGnmiJtimonProducerTsName :: string where
  "gGnmiJtimonProducerTsName = ''__producer_timestamp__''"
definition gGnmiJtimonExportTsName :: string where
  "gGnmiJtimonExportTsName = ''__export_timestamp__''"

lemmas gnmi_names = gGnmiJuniperHeaderFieldName_def gGnmiJuniperPublishTsFieldName_def
  gGnmiJuniperHeaderMsgName_def gGnmiJtimonProducerTsName_def gGnmiJtimonExportTsName_def gDeviceTs_def


section \<open>Paths and values\<close>

text \<open>One element of a path; the third component collects the internal fields that were looked for.\<close>

definition parseElem ::
  "string list \<Rightarrow> string \<times> (string, string) gomap \<times> string list \<Rightarrow> PathElem \<Rightarrow> string \<times> (string, string) gomap \<times> string list" where
  "parseElem lookFor st pe =
     (case st of (prefix, kvs, found) \<Rightarrow>
        let prefix' = prefix @ ''/'' @ pe_Name pe
        in (prefix',
            foldl (\<lambda>m (k, v). mput m (prefix' @ ''/'' @ ''@'' @ k) v) kvs (pe_Key pe),
            if lookFor \<noteq> [] \<and> hasPrefix ''__'' (pe_Name pe) \<and> pe_Name pe \<in> set lookFor
            then found @ [pe_Name pe] else found))"

definition gnmiParsePath ::
  "string \<Rightarrow> PathElem list \<Rightarrow> (string, string) gomap \<Rightarrow> string list \<Rightarrow> string \<times> (string, string) gomap \<times> string list" where
  "gnmiParsePath prefix pes kvs lookFor = foldl (parseElem lookFor) (prefix, kvs, []) pes"

definition le_word32 :: "bytes \<Rightarrow> f32" where
  "le_word32 bs = word_of_int (foldr (\<lambda>b a. uint b + 256 * a) bs 0)"

text \<open>
  The typed slices of a leaf-list and the value, which is the slice that was last appended to. Elements of
  other dynamic types (among them the floating point numbers) are skipped.
\<close>

record leaf_acc =
  la_ints :: "64 word list"
  la_bools :: "bool list"
  la_strings :: "string list"
  la_bytes :: "bytes list"
  la_value :: gval

definition leaf_empty :: leaf_acc where
  "leaf_empty = \<lparr>la_ints = [], la_bools = [], la_strings = [], la_bytes = [], la_value = VNil\<rparr>"

fun leafStep :: "leaf_acc \<Rightarrow> gval \<Rightarrow> leaf_acc" where
  "leafStep a (VInt64 i) = a\<lparr>la_ints := la_ints a @ [i], la_value := VInts (la_ints a @ [i])\<rparr>"
| "leafStep a (VBool b) = a\<lparr>la_bools := la_bools a @ [b], la_value := VBools (la_bools a @ [b])\<rparr>"
| "leafStep a (VString s) = a\<lparr>la_strings := la_strings a @ [s], la_value := VStrings (la_strings a @ [s])\<rparr>"
| "leafStep a (VBytes b) = a\<lparr>la_bytes := la_bytes a @ [b], la_value := VBytess (la_bytes a @ [b])\<rparr>"
| "leafStep a v = a"

text \<open>The JSON part: \<^term>\<open>None\<close> is an error.\<close>

definition parseJson :: "string option \<Rightarrow> gval option" where
  "parseJson jsonVal = (case jsonVal of None \<Rightarrow> Some VNil | Some s \<Rightarrow> json_scalar s)"

fun gnmiParseValue :: "TypedValue \<Rightarrow> bool \<Rightarrow> bool \<Rightarrow> gval option" where
  "gnmiParseValue (StringVal s) ts enableUint = Some (VString s)"
| "gnmiParseValue (IntVal i) ts enableUint = Some (VInt64 i)"
| "gnmiParseValue (UintVal u) ts enableUint =
     Some (if enableUint then VUint64 u
           else if \<not> ts then VFloat64 (f64_of_int (uint u))
           else VInt64 u)"
| "gnmiParseValue (JsonIetfVal j) ts enableUint = parseJson j"
| "gnmiParseValue (JsonVal j) ts enableUint = parseJson j"
| "gnmiParseValue (ProtoBytes b) ts enableUint = Some (VBytes b)"
| "gnmiParseValue (BoolVal b) ts enableUint = Some (VBool b)"
| "gnmiParseValue (BytesVal b) ts enableUint =
     Some (VString (if length b = 4 then f64_fixed 2 (f64_of_f32 (le_word32 b)) else hex_encode b))"
| "gnmiParseValue (AsciiVal s) ts enableUint = Some (VString s)"
| "gnmiParseValue (AnyVal a) ts enableUint = Some (VAny a)"
| "gnmiParseValue (DoubleVal d) ts enableUint = Some (VFloat64 d)"
| "gnmiParseValue (DecimalVal digits precision) ts enableUint =
     Some (VFloat64 (checkAndCeilFloatValues None
       (Some (f64_div (f64_of_int (sint digits)) (pow10 (unat precision))))))"
| "gnmiParseValue (FloatVal f) ts enableUint = Some (VFloat64 (checkAndCeilFloatValues (Some f) None))"
| "gnmiParseValue (LeaflistVal vals) ts enableUint =
     Some (la_value (foldl leafStep leaf_empty
       (map (\<lambda>v. case gnmiParseValue v False enableUint of None \<Rightarrow> VNil | Some g \<Rightarrow> g) vals)))"

text \<open>A value that is absent reads as the empty string.\<close>

definition parseVal :: "TypedValue option \<Rightarrow> bool \<Rightarrow> bool \<Rightarrow> gval option" where
  "parseVal v ts enableUint = (case v of None \<Rightarrow> Some (VString []) | Some t \<Rightarrow> gnmiParseValue t ts enableUint)"


section \<open>Updates and deletes\<close>

definition get_Elem :: "gnmi_Path option \<Rightarrow> PathElem list" where
  "get_Elem p = (case p of None \<Rightarrow> [] | Some q \<Rightarrow> gp_Elem q)"

definition get_Origin :: "gnmi_Path option \<Rightarrow> string" where
  "get_Origin p = (case p of None \<Rightarrow> [] | Some q \<Rightarrow> gp_Origin q)"

definition get_Target :: "gnmi_Path option \<Rightarrow> string" where
  "get_Target p = (case p of None \<Rightarrow> [] | Some q \<Rightarrow> gp_Target q)"

text \<open>The start of both functions: the prefix is parsed unless it is known already.\<close>

definition parsePrefix ::
  "bool \<Rightarrow> gnmi_Path option \<Rightarrow> gnmiParseOutputT \<Rightarrow> string \<times> (string, string) gomap" where
  "parsePrefix parseOrigin prefix po =
     (if prefixPath po = [] then
        let p0 = (if parseOrigin then (if get_Origin prefix \<noteq> [] then get_Origin prefix @ '':'' else []) else [])
        in case gnmiParsePath p0 (get_Elem prefix) (kvpairs po) [] of (p, kvs, _) \<Rightarrow> (p, kvs)
      else (prefixPath po, kvpairs po))"

text \<open>The loop over the updates; the state is \<open>kvpairs\<close>, \<open>xpathValue\<close>, \<open>tmpJXpaths\<close> and whether \<open>jXpaths\<close> is set.\<close>

type_synonym upd_state = "(string, string) gomap \<times> (string, gval) gomap \<times> jnprXpathDetails \<times> bool"

definition orNil :: "gval option \<Rightarrow> gval" where
  "orNil v = (case v of None \<Rightarrow> VNil | Some g \<Rightarrow> g)"

definition updateStep :: "string \<Rightarrow> bool \<Rightarrow> upd_state \<Rightarrow> Update \<Rightarrow> upd_state option" where
  "updateStep prefix enableUint st u =
     (case st of (kvs, xpathValue, jx, jset) \<Rightarrow>
        case u_Path u of
          None \<Rightarrow> Some st
        | Some path \<Rightarrow>
            (case gnmiParsePath prefix (gp_Elem path) kvs
                    [gGnmiJuniperHeaderFieldName, gGnmiJuniperPublishTsFieldName] of
               (xpath, kvs', internalFields) \<Rightarrow>
                 if internalFields = [] then
                   (case parseVal (u_Val u) False enableUint of
                      None \<Rightarrow> None
                    | Some v \<Rightarrow> Some (kvs', mput xpathValue xpath v, jx, jset))
                 else if gGnmiJuniperHeaderFieldName \<in> set internalFields then
                   Some (kvs', xpathValue,
                     jx\<lparr>jx_hdrXpath := xpath,
                        jx_xPaths := mput (jx_xPaths jx) xpath (orNil (parseVal (u_Val u) False enableUint))\<rparr>, True)
                 else if gGnmiJuniperPublishTsFieldName \<in> set internalFields then
                   Some (kvs', xpathValue,
                     jx\<lparr>jx_publishTsXpath := xpath,
                        jx_xPaths := mput (jx_xPaths jx) xpath (orNil (parseVal (u_Val u) True enableUint))\<rparr>, True)
                 else Some (kvs', xpathValue, jx, True)))"

fun updateLoop :: "string \<Rightarrow> bool \<Rightarrow> upd_state \<Rightarrow> Update list \<Rightarrow> upd_state option" where
  "updateLoop prefix enableUint st [] = Some st"
| "updateLoop prefix enableUint st (u # us) =
     (case updateStep prefix enableUint st u of
        None \<Rightarrow> None
      | Some st' \<Rightarrow> updateLoop prefix enableUint st' us)"

definition gnmiParseUpdates ::
  "bool \<Rightarrow> gnmi_Path option \<Rightarrow> Update list \<Rightarrow> gnmiParseOutputT \<Rightarrow> bool \<Rightarrow> gnmiParseOutputT option" where
  "gnmiParseUpdates parseOrigin prefix updates po enableUint =
     (case parsePrefix parseOrigin prefix po of (p, kvs) \<Rightarrow>
        case updateLoop p enableUint
               (kvs, xpaths po, \<lparr>jx_xPaths = [], jx_hdrXpath = [], jx_publishTsXpath = []\<rparr>, False) updates of
          None \<Rightarrow> None
        | Some (kvs', xs, jx, jset) \<Rightarrow>
            Some (po\<lparr>prefixPath := p, kvpairs := kvs', xpaths := xs, jXpaths := (if jset then Some jx else None)\<rparr>))"

definition deleteStep ::
  "string \<Rightarrow> (string, string) gomap \<times> (string, gval) gomap \<Rightarrow> gnmi_Path \<Rightarrow> (string, string) gomap \<times> (string, gval) gomap" where
  "deleteStep prefix st d =
     (case st of (kvs, xs) \<Rightarrow>
        case gnmiParsePath prefix (gp_Elem d) kvs [] of (xpath, kvs', _) \<Rightarrow> (kvs', mput xs xpath VNil))"

definition gnmiParseDeletes ::
  "bool \<Rightarrow> gnmi_Path option \<Rightarrow> gnmi_Path list \<Rightarrow> gnmiParseOutputT \<Rightarrow> gnmiParseOutputT" where
  "gnmiParseDeletes parseOrigin prefix deletes po =
     (case parsePrefix parseOrigin prefix po of (p, kvs) \<Rightarrow>
        case foldl (deleteStep p) (kvs, xpaths po) deletes of (kvs', xs) \<Rightarrow>
          po\<lparr>prefixPath := p, kvpairs := kvs', xpaths := xs\<rparr>)"


section \<open>The Juniper header\<close>

text \<open>
  The result of \<open>formJuniperTelemetryHdr\<close>: no header (the error is not used by the caller), a header that
  cannot be read, or a header.
\<close>

datatype hdr_result = NoHdr | HdrError | Hdr juniperGnmiHeaderDetails

definition juniperExt :: "Extension list \<Rightarrow> Extension option" where
  "juniperExt exts = find (\<lambda>e. e_Id e = 1) exts"

definition extHdr :: "pb_lib \<Rightarrow> bytes \<Rightarrow> hdr_result" where
  "extHdr pb msg =
     (case pb_UnmarshalExt pb msg of
        None \<Rightarrow> HdrError
      | Some h \<Rightarrow> Hdr \<lparr>jh_hdr = None, jh_hdrExt = Some h\<rparr>)"

definition emptyHdr :: TelemetryHeader where
  "emptyHdr = \<lparr>h_Path = [], h_SequenceNumber = 0\<rparr>"

text \<open>
  A header value that is neither nil nor an \<open>Any\<close> leaves both parts of the result nil; a nil value is
  read as an empty extension message.
\<close>

definition formJuniperTelemetryHdr :: "pb_lib \<Rightarrow> jnprXpathDetails option \<Rightarrow> Extension list \<Rightarrow> hdr_result" where
  "formJuniperTelemetryHdr pb jx exts =
     (case jx of
        Some x \<Rightarrow>
          (case mget (jx_xPaths x) (jx_hdrXpath x) of
             None \<Rightarrow> NoHdr
           | Some VNil \<Rightarrow> extHdr pb []
           | Some (VAny a) \<Rightarrow>
               (case pb_AnyMessageName pb a of
                  None \<Rightarrow> HdrError
                | Some n \<Rightarrow>
                    Hdr \<lparr>jh_hdr = Some (if n = gGnmiJuniperHeaderMsgName then pb_UnmarshalHdr pb a else emptyHdr),
                         jh_hdrExt = None\<rparr>)
           | Some _ \<Rightarrow> Hdr \<lparr>jh_hdr = None, jh_hdrExt = None\<rparr>)
      | None \<Rightarrow>
          (case juniperExt exts of
             None \<Rightarrow> NoHdr
           | Some e \<Rightarrow> extHdr pb (e_Msg e)))"

text \<open>The millisecond time stamps; the quotient truncates towards zero.\<close>

definition tsMillis :: "64 word \<Rightarrow> 64 word" where
  "tsMillis ts = word_of_int (if 0 \<le> sint ts then sint ts div 1000000 else - (- sint ts div 1000000))"

definition putTs :: "string \<Rightarrow> 64 word \<Rightarrow> (string, gval) gomap \<Rightarrow> (string, gval) gomap" where
  "putTs p ts m =
     mput (mput m (p @ ''/'' @ gGnmiJtimonProducerTsName) (VInt64 (tsMillis ts))) gDeviceTs (VInt64 (tsMillis ts))"

definition emptyExt :: TelemetryHeaderExt where
  "emptyExt = \<lparr>x_SystemId = [], x_ComponentId = 0, x_SubComponentId = 0, x_SensorName = [], x_SubscribedPath = [],
     x_StreamedPath = [], x_Component = [], x_SequenceNumber = 0, x_PayloadGetTimestamp = 0,
     x_StreamCreationTimestamp = 0, x_ExportTimestamp = 0\<rparr>"

text \<open>
  \<open>gnmiParseHeader\<close>: \<open>Inl\<close> inside is a returned error. The getters of a nil extension header give zero
  values.
\<close>

definition gnmiParseHeader ::
  "pb_lib \<Rightarrow> SubscribeResponse \<Rightarrow> gnmiParseOutputT \<Rightarrow> (unit + gnmiParseOutputT) go" where
  "gnmiParseHeader pb rsp po =
     (let p = prefixPath po;
          ts = (case r_Update rsp of None \<Rightarrow> 0 | Some n \<Rightarrow> n_Timestamp n)
      in case formJuniperTelemetryHdr pb (jXpaths po) (r_Extension rsp) of
           NoHdr \<Rightarrow>
             if ts = 0 then Inr (Inl ())
             else Inr (Inr (po\<lparr>sensorVal := p, mName := p @ ''/'', xpaths := putTs p ts (xpaths po)\<rparr>))
         | HdrError \<Rightarrow> Inr (Inl ())
         | Hdr d \<Rightarrow>
             (case jh_hdr d of
                Some h \<Rightarrow>
                  bindR (at (go_split (h_Path h) '':'') 2) (\<lambda>subscribed.
                    let xs = (case jXpaths po of
                                Some jx \<Rightarrow>
                                  if jx_publishTsXpath jx \<noteq> [] then
                                    mput (xpaths po) (p @ ''/'' @ gGnmiJtimonExportTsName)
                                      (orNil (mget (jx_xPaths jx) (jx_publishTsXpath jx)))
                                  else xpaths po
                              | None \<Rightarrow> xpaths po)
                    in Inr (Inr (po\<lparr>xpaths := putTs p ts xs, jHeader := Some d, sensorVal := h_Path h,
                         mName := (if subscribed \<noteq> [] then subscribed else p @ ''/'')\<rparr>)))
              | None \<Rightarrow>
                  let x = (case jh_hdrExt d of Some e \<Rightarrow> e | None \<Rightarrow> emptyExt);
                      xs = mput (xpaths po) (p @ ''/'' @ gGnmiJtimonExportTsName) (VInt64 (x_ExportTimestamp x))
                  in Inr (Inr (po\<lparr>xpaths := putTs p ts xs, jHeader := Some d,
                       sensorVal := x_SensorName x @ '':'' @ x_StreamedPath x @ '':'' @ x_SubscribedPath x @ '':'' @ x_Component x,
                       mName := (if x_SubscribedPath x \<noteq> [] then x_SubscribedPath x else p @ ''/'')\<rparr>))))"

definition gnmiParseNotification ::
  "pb_lib \<Rightarrow> bool \<Rightarrow> SubscribeResponse \<Rightarrow> gnmiParseOutputT \<Rightarrow> bool \<Rightarrow> (unit + gnmiParseOutputT) go" where
  "gnmiParseNotification pb parseOrigin rsp po0 enableUint =
     (case r_Update rsp of
        None \<Rightarrow> Inr (Inl ())
      | Some notif \<Rightarrow>
          (case (if n_Update notif \<noteq> []
                 then gnmiParseUpdates parseOrigin (n_Prefix notif) (n_Update notif) po0 enableUint
                 else Some po0) of
             None \<Rightarrow> Inr (Inl ())
           | Some po1 \<Rightarrow>
               let po2 = (if n_Delete notif \<noteq> []
                          then gnmiParseDeletes parseOrigin (n_Prefix notif) (n_Delete notif) po1 else po1);
                   po3 = po2\<lparr>inKvs := inKvs po2 + of_nat (length (xpaths po2)) +
                              (case jXpaths po2 of None \<Rightarrow> 0 | Some jx \<Rightarrow> of_nat (length (jx_xPaths jx)))\<rparr>;
                   po4 = (if get_Target (n_Prefix notif) \<noteq> []
                          then po3\<lparr>kvpairs := mput (kvpairs po3) ''target'' (get_Target (n_Prefix notif))\<rparr> else po3);
                   po5 = (if get_Origin (n_Prefix notif) \<noteq> []
                          then po4\<lparr>kvpairs := mput (kvpairs po4) ''origin'' (get_Origin (n_Prefix notif))\<rparr> else po4)
               in gnmiParseHeader pb rsp po5))"


section \<open>Lemmas: paths\<close>

definition path_text :: "PathElem list \<Rightarrow> string" where
  "path_text pes = concat (map (\<lambda>pe. ''/'' @ pe_Name pe) pes)"

text \<open>The tags a path stands for, in the order in which they are stored.\<close>

fun path_tags :: "string \<Rightarrow> PathElem list \<Rightarrow> (string \<times> string) list" where
  "path_tags prefix [] = []"
| "path_tags prefix (pe # pes) =
     map (\<lambda>(k, v). (prefix @ ''/'' @ pe_Name pe @ ''/@'' @ k, v)) (pe_Key pe) @
     path_tags (prefix @ ''/'' @ pe_Name pe) pes"

lemma foldl_put_map:
  "foldl (\<lambda>m (k, v). mput m (f k) v) m kvs = mputs m (map (\<lambda>(k, v). (f k, v)) kvs)"
  by (induction kvs arbitrary: m) (auto simp: mputs_def)

lemma parsePath_fold:
  "foldl (parseElem lf) (prefix, kvs, found) pes =
     (prefix @ path_text pes, mputs kvs (path_tags prefix pes),
      found @ filter (\<lambda>n. hasPrefix ''__'' n \<and> n \<in> set lf) (map pe_Name pes))"
proof (induction pes arbitrary: prefix kvs found)
  case Nil
  then show ?case by (simp add: path_text_def mputs_def)
next
  case (Cons pe pes)
  then show ?case
    by (auto simp: parseElem_def Let_def path_text_def foldl_put_map mputs_append)
qed

lemma gnmiParsePath_eq:
  "gnmiParsePath prefix pes kvs lf =
     (prefix @ path_text pes, mputs kvs (path_tags prefix pes),
      filter (\<lambda>n. hasPrefix ''__'' n \<and> n \<in> set lf) (map pe_Name pes))"
  by (simp add: gnmiParsePath_def parsePath_fold)

text \<open>Keys without a slash give tags that do not collide.\<close>

definition keys_ok :: "PathElem list \<Rightarrow> bool" where
  "keys_ok pes \<longleftrightarrow> (\<forall>pe \<in> set pes. mwf (pe_Key pe) \<and> (\<forall>(k, v) \<in> set (pe_Key pe). CHR ''/'' \<notin> set k))"

lemma path_tags_below:
  "(t, v) \<in> set (path_tags prefix pes) \<Longrightarrow> \<exists>n r. t = prefix @ ''/'' @ n @ ''/'' @ r"
  by (induction pes arbitrary: prefix) fastforce+

lemma path_tags_own:
  assumes "CHR ''/'' \<notin> set k"
  shows "(prefix @ ''/@'' @ k, v) \<notin> set (path_tags prefix pes)"
proof
  assume "(prefix @ ''/@'' @ k, v) \<in> set (path_tags prefix pes)"
  then obtain n r where "prefix @ ''/@'' @ k = prefix @ ''/'' @ n @ ''/'' @ r" using path_tags_below by blast
  then have "CHR ''@'' # k = n @ ''/'' @ r" by simp
  then have "CHR ''/'' \<in> set (CHR ''@'' # k)" by simp
  with assms show False by simp
qed

lemma path_tags_distinct: "keys_ok pes \<Longrightarrow> distinct (map fst (path_tags prefix pes))"
proof (induction pes arbitrary: prefix)
  case (Cons pe pes)
  let ?p = "prefix @ ''/'' @ pe_Name pe"
  have own: "distinct (map fst (map (\<lambda>(k, v). (?p @ ''/@'' @ k, v)) (pe_Key pe)))"
  proof -
    have "map fst (map (\<lambda>(k, v). (?p @ ''/@'' @ k, v)) (pe_Key pe)) = map (\<lambda>k. ?p @ ''/@'' @ k) (map fst (pe_Key pe))"
      by auto
    then show ?thesis using Cons.prems by (auto simp: keys_ok_def mwf_def distinct_map inj_on_def)
  qed
  moreover have "fst ` set (map (\<lambda>(k, v). (?p @ ''/@'' @ k, v)) (pe_Key pe)) \<inter> fst ` set (path_tags ?p pes) = {}"
    using path_tags_own [of _ ?p] Cons.prems by (fastforce simp: keys_ok_def)
  moreover have "distinct (map fst (path_tags ?p pes))" using Cons by (simp add: keys_ok_def)
  ultimately show ?case unfolding path_tags.simps map_append distinct_append append_assoc set_map by blast
qed simp


section \<open>Lemmas: updates\<close>

text \<open>An update of an ordinary leaf, and its path below the prefix.\<close>

definition plain_update :: "Update \<Rightarrow> bool" where
  "plain_update u \<longleftrightarrow>
     (case u_Path u of
        None \<Rightarrow> False
      | Some path \<Rightarrow>
          \<forall>pe \<in> set (gp_Elem path). pe_Name pe \<noteq> gGnmiJuniperHeaderFieldName \<and> pe_Name pe \<noteq> gGnmiJuniperPublishTsFieldName)"

definition upd_xpath :: "string \<Rightarrow> Update \<Rightarrow> string" where
  "upd_xpath p u = p @ path_text (get_Elem (u_Path u))"

definition upd_val :: "bool \<Rightarrow> Update \<Rightarrow> gval option" where
  "upd_val enableUint u = parseVal (u_Val u) False enableUint"

lemma updateStep_plain:
  assumes "plain_update u"
  shows "updateStep p en (kvs, xs, jx, jset) u =
    map_option (\<lambda>v. (mputs kvs (path_tags p (get_Elem (u_Path u))), mput xs (upd_xpath p u) v, jx, jset)) (upd_val en u)"
proof -
  from assms obtain path where path: "u_Path u = Some path"
    and ok: "\<forall>pe \<in> set (gp_Elem path). pe_Name pe \<noteq> gGnmiJuniperHeaderFieldName \<and> pe_Name pe \<noteq> gGnmiJuniperPublishTsFieldName"
    by (auto simp: plain_update_def split: option.splits)
  from ok have "filter (\<lambda>n. hasPrefix ''__'' n \<and> n \<in> set [gGnmiJuniperHeaderFieldName, gGnmiJuniperPublishTsFieldName])
      (map pe_Name (gp_Elem path)) = []"
    by (auto simp: filter_empty_conv)
  then show ?thesis
    by (simp add: updateStep_def path gnmiParsePath_eq get_Elem_def upd_xpath_def upd_val_def split: option.splits)
qed

text \<open>
  The loop over plain updates: it fails exactly when a value cannot be decoded; otherwise the values are stored
  in order, and so are the tags.
\<close>

lemma updateLoop_plain:
  assumes "\<forall>u \<in> set us. plain_update u \<and> upd_val en u \<noteq> None"
  shows "updateLoop p en (kvs, xs, jx, jset) us =
    Some (mputs kvs (concat (map (\<lambda>u. path_tags p (get_Elem (u_Path u))) us)),
          mputs xs (map (\<lambda>u. (upd_xpath p u, the (upd_val en u))) us), jx, jset)"
  using assms
proof (induction us arbitrary: kvs xs)
  case Nil
  then show ?case by (simp add: mputs_def)
next
  case (Cons u us)
  then obtain v where "upd_val en u = Some v" by auto
  with Cons show ?case by (simp add: updateStep_plain mputs_append mputs_Cons)
qed

lemma updateLoop_fails:
  "\<forall>u \<in> set us. plain_update u \<Longrightarrow> \<exists>u \<in> set us. upd_val en u = None \<Longrightarrow>
   updateLoop p en st us = None"
proof (induction us arbitrary: st)
  case (Cons u us)
  obtain kvs xs jx jset where st: "st = (kvs, xs, jx, jset)" by (cases st)
  show ?case
  proof (cases "upd_val en u")
    case None
    with Cons.prems show ?thesis by (simp add: st updateStep_plain)
  next
    case (Some v)
    with Cons show ?thesis by (simp add: st updateStep_plain)
  qed
qed simp

lemma mget_mputs_rev: "mget (mputs m kvs) k = (case map_of (rev kvs) k of Some v \<Rightarrow> Some v | None \<Rightarrow> mget m k)"
  by (simp add: mputs_eq_stores gm.get_stores)

definition emptyOutput :: gnmiParseOutputT where
  "emptyOutput = \<lparr>prefixPath = [], kvpairs = [], xpaths = [], sensorVal = [], mName = [], jXpaths = None,
     jHeader = None, inKvs = 0\<rparr>"

definition prefix_text :: "bool \<Rightarrow> gnmi_Path option \<Rightarrow> string" where
  "prefix_text parseOrigin prefix =
     (if parseOrigin \<and> get_Origin prefix \<noteq> [] then get_Origin prefix @ '':'' else []) @ path_text (get_Elem prefix)"

lemma parsePrefix_empty:
  "prefixPath po = [] \<Longrightarrow> fst (parsePrefix org prefix po) = prefix_text org prefix"
  by (simp add: parsePrefix_def gnmiParsePath_eq prefix_text_def Let_def)


section \<open>Properties\<close>

text \<open>
  Parsing a gNMI path appends \<open>/name\<close> for every element, and when the keys of the path contain no slash,
  the tag \<open>path-to-element/@key\<close> reads the value of that key of that element; the tags of the elements never
  overwrite one another, and tags that were present stay unless the path has them too.
\<close>

theorem gnmiParsePath_tags:
  assumes "keys_ok pes"
  shows "\<exists>kvs' fs. gnmiParsePath prefix pes kvs lf = (prefix @ path_text pes, kvs', fs) \<and>
    (\<forall>i < length pes. \<forall>(k, v) \<in> set (pe_Key (pes ! i)).
       mget kvs' (prefix @ path_text (take (Suc i) pes) @ ''/@'' @ k) = Some v) \<and>
    (\<forall>t. t \<notin> fst ` set (path_tags prefix pes) \<longrightarrow> mget kvs' t = mget kvs t)"
proof -
  let ?kvs = "mputs kvs (path_tags prefix pes)"
  have get: "mget ?kvs t = (case map_of (path_tags prefix pes) t of Some v \<Rightarrow> Some v | None \<Rightarrow> mget kvs t)" for t
    using mget_mputs [of "path_tags prefix pes" kvs t] path_tags_distinct [OF assms, of prefix]
    by (simp add: mwf_def mget_def)
  have mem: "(prefix @ path_text (take (Suc i) pes) @ ''/@'' @ k, v) \<in> set (path_tags prefix pes)"
    if "i < length pes" "(k, v) \<in> set (pe_Key (pes ! i))" for i k v
    using that
  proof (induction pes arbitrary: prefix i)
    case (Cons pe pes)
    show ?case
    proof (cases i)
      case 0
      with Cons.prems show ?thesis by (force simp: path_text_def)
    next
      case (Suc j)
      with Cons.prems Cons.IH [of j "prefix @ ''/'' @ pe_Name pe"] show ?thesis by (simp add: path_text_def)
    qed
  qed simp
  have "mget ?kvs (prefix @ path_text (take (Suc i) pes) @ ''/@'' @ k) = Some v"
    if "i < length pes" "(k, v) \<in> set (pe_Key (pes ! i))" for i k v
    using map_of_is_SomeI [OF path_tags_distinct [OF assms, of prefix] mem [OF that]] by (simp add: get)
  moreover have "mget ?kvs t = mget kvs t" if "t \<notin> fst ` set (path_tags prefix pes)" for t
    using that by (simp add: get map_of_eq_None_iff [THEN iffD2])
  ultimately show ?thesis by (auto simp: gnmiParsePath_eq)
qed

definition ex_elems :: "PathElem list" where
  "ex_elems = [\<lparr>pe_Name = ''interfaces'', pe_Key = []\<rparr>, \<lparr>pe_Name = ''interface'', pe_Key = [(''name'', ''ge-0/0/0'')]\<rparr>]"

theorem gnmiParsePath_tags_witness:
  "\<exists>kvs' fs. gnmiParsePath [] ex_elems [] [] = (''/interfaces/interface'', kvs', fs) \<and>
     mget kvs' ''/interfaces/interface/@name'' = Some ''ge-0/0/0''"
proof -
  have "keys_ok ex_elems" by code_simp
  from gnmiParsePath_tags [OF this, of "[]" "[]" "[]"] obtain kvs' fs where
    r: "gnmiParsePath [] ex_elems [] [] = (path_text ex_elems, kvs', fs)"
    and g: "\<forall>i < length ex_elems. \<forall>(k, v) \<in> set (pe_Key (ex_elems ! i)).
       mget kvs' (path_text (take (Suc i) ex_elems) @ ''/@'' @ k) = Some v" by auto
  from g [rule_format, of 1 "(''name'', ''ge-0/0/0'')"] r show ?thesis by (simp add: ex_elems_def path_text_def)
qed

text \<open>
  C30. The updates of a notification with ordinary leaves: parsing fails exactly when the value of some update
  cannot be decoded, and otherwise every path maps to the value of the last update that has it.
\<close>

theorem gnmiParseUpdates_values:
  assumes "\<forall>u \<in> set us. plain_update u"
  shows "if \<exists>u \<in> set us. upd_val en u = None
    then gnmiParseUpdates org prefix us emptyOutput en = None
    else \<exists>po. gnmiParseUpdates org prefix us emptyOutput en = Some po \<and>
      prefixPath po = prefix_text org prefix \<and> jXpaths po = None \<and>
      mget (xpaths po) = map_of (rev (map (\<lambda>u. (upd_xpath (prefix_text org prefix) u, the (upd_val en u))) us))"
proof (cases "\<exists>u \<in> set us. upd_val en u = None")
  case True
  with updateLoop_fails [OF assms True] show ?thesis
    by (simp add: gnmiParseUpdates_def split: prod.splits)
next
  case False
  obtain kvs where kvs: "parsePrefix org prefix emptyOutput = (prefix_text org prefix, kvs)"
    using parsePrefix_empty [of emptyOutput org prefix]
    by (cases "parsePrefix org prefix emptyOutput") (simp add: emptyOutput_def)
  from False assms have "\<forall>u \<in> set us. plain_update u \<and> upd_val en u \<noteq> None" by auto
  note loop = updateLoop_plain [OF this]
  have get: "mget (mputs [] l) = map_of (rev l)" for l :: "(string \<times> gval) list"
    by (auto simp: mget_mputs_rev split: option.splits)
  have "xpaths emptyOutput = []" "jXpaths emptyOutput = None" by (simp_all add: emptyOutput_def)
  then have "\<exists>po. gnmiParseUpdates org prefix us emptyOutput en = Some po \<and>
      prefixPath po = prefix_text org prefix \<and> jXpaths po = None \<and>
      mget (xpaths po) = map_of (rev (map (\<lambda>u. (upd_xpath (prefix_text org prefix) u, the (upd_val en u))) us))"
    by (simp add: gnmiParseUpdates_def kvs loop get)
  with False show ?thesis by meson
qed

definition ex_update :: "string \<Rightarrow> TypedValue \<Rightarrow> Update" where
  "ex_update n v = \<lparr>u_Path = Some \<lparr>gp_Origin = [], gp_Target = [], gp_Elem = [\<lparr>pe_Name = n, pe_Key = []\<rparr>]\<rparr>, u_Val = Some v\<rparr>"

theorem gnmiParseUpdates_values_witness:
  "\<exists>po. gnmiParseUpdates True None [ex_update ''a'' (IntVal 1), ex_update ''b'' (JsonVal (Some ''true''))] emptyOutput False = Some po \<and>
     mget (xpaths po) ''/b'' = Some (VBool True)"
proof -
  let ?us = "[ex_update ''a'' (IntVal 1), ex_update ''b'' (JsonVal (Some ''true''))]"
  have p: "\<forall>u \<in> set ?us. plain_update u" by code_simp
  have v: "\<not> (\<exists>u \<in> set ?us. upd_val False u = None)" by code_simp
  have x: "map_of (rev (map (\<lambda>u. (upd_xpath (prefix_text True None) u, the (upd_val False u))) ?us)) ''/b'' = Some (VBool True)"
    by code_simp
  from gnmiParseUpdates_values [OF p, of False True None] v x show ?thesis by (auto simp del: set_simps)
qed

text \<open>
  Unsigned counters: with unsigned support the value is kept as it is; without it, the value written is a
  floating point number that determines the counter for all counters below \<open>2 ^ 53\<close>, while \<open>2 ^ 53\<close> and
  \<open>2 ^ 53 + 1\<close> give the same value; a time stamp is kept as the signed 64-bit number with the same bits.
\<close>

theorem gnmiParseValue_uint:
  "gnmiParseValue (UintVal u) ts True = Some (VUint64 u) \<and>
   gnmiParseValue (UintVal u) True False = Some (VInt64 u) \<and>
   (uint u < 2 ^ 53 \<and> uint v < 2 ^ 53 \<longrightarrow>
      (gnmiParseValue (UintVal u) False False = gnmiParseValue (UintVal v) False False \<longleftrightarrow> u = v)) \<and>
   gnmiParseValue (UintVal (2 ^ 53)) False False = gnmiParseValue (UintVal (2 ^ 53 + 1)) False False"
proof -
  have inj: "u = v" if "uint u < 2 ^ 53" "uint v < 2 ^ 53" "f64_of_int (uint u) = f64_of_int (uint v)"
  proof -
    have "\<bar>uint u\<bar> < 2 ^ 53" "\<bar>uint v\<bar> < 2 ^ 53" using that(1,2) by simp_all
    from f64_of_int_inj [OF this that(3)] show ?thesis by (simp add: word_uint_eq_iff)
  qed
  have c: "f64_of_int (uint (2 ^ 53 + 1 :: 64 word)) = f64_of_int (uint (2 ^ 53 :: 64 word))"
    using f64_of_int_collision by simp
  show ?thesis using inj c by auto
qed

theorem gnmiParseValue_uint_witness:
  "gnmiParseValue (UintVal 3) False False \<noteq> gnmiParseValue (UintVal 4) False False"
proof -
  have "uint (3 :: 64 word) < 2 ^ 53 \<and> uint (4 :: 64 word) < 2 ^ 53" by simp
  with gnmiParseValue_uint [of 3 True 4] show ?thesis by simp
qed

text \<open>
  A 64-bit integer in JSON text, as \<open>json\<close> and \<open>json_ietf\<close> encodings send it, is decoded to the integer.
\<close>

theorem gnmiParseValue_json_int:
  "gnmiParseValue (JsonVal (Some (show_int (sint w)))) ts en = Some (VInt64 w) \<and>
   gnmiParseValue (JsonIetfVal (Some (show_int (sint w)))) ts en = Some (VInt64 w)"
proof -
  have "- (2 ^ 63) \<le> sint w" "sint w < 2 ^ 63"
    using sint_ge [of w] sint_lt [of w] by simp_all
  from json_scalar_int [OF this] show ?thesis by (simp add: parseJson_def)
qed

text \<open>
  Leaf-lists: a list of strings is kept as the list of strings, and likewise for booleans and signed integers.
  A list of unsigned or floating point numbers is lost: its value is nil, because the elements are
  converted to \<open>float64\<close> and the loop collects no \<open>float64\<close>.
\<close>

theorem gnmiParseValue_leaflist:
  "(ss \<noteq> [] \<longrightarrow> gnmiParseValue (LeaflistVal (map StringVal ss)) ts en = Some (VStrings ss)) \<and>
   (bs \<noteq> [] \<longrightarrow> gnmiParseValue (LeaflistVal (map BoolVal bs)) ts en = Some (VBools bs)) \<and>
   (is \<noteq> [] \<longrightarrow> gnmiParseValue (LeaflistVal (map IntVal is)) ts en = Some (VInts is)) \<and>
   gnmiParseValue (LeaflistVal (map UintVal us)) ts en = Some VNil \<and>
   gnmiParseValue (LeaflistVal (map DoubleVal ds)) ts en = Some VNil \<and>
   gnmiParseValue (LeaflistVal (map FloatVal fs)) ts en = Some VNil"
proof -
  have s: "foldl leafStep a (map VString xs) =
      (if xs = [] then a else a\<lparr>la_strings := la_strings a @ xs, la_value := VStrings (la_strings a @ xs)\<rparr>)" for a xs
    by (induction xs arbitrary: a) auto
  have b: "foldl leafStep a (map VBool xs) =
      (if xs = [] then a else a\<lparr>la_bools := la_bools a @ xs, la_value := VBools (la_bools a @ xs)\<rparr>)" for a xs
    by (induction xs arbitrary: a) auto
  have i: "foldl leafStep a (map VInt64 xs) =
      (if xs = [] then a else a\<lparr>la_ints := la_ints a @ xs, la_value := VInts (la_ints a @ xs)\<rparr>)" for a xs
    by (induction xs arbitrary: a) auto
  have skip: "foldl leafStep a vs = a" if "\<forall>v \<in> set vs. \<forall>c. leafStep c v = c" for a vs
    using that by (induction vs arbitrary: a) auto
  show ?thesis
    by (auto simp: o_def leaf_empty_def s [unfolded map_map [symmetric]] b i skip)
qed

theorem gnmiParseValue_leaflist_witness:
  "gnmiParseValue (LeaflistVal (map StringVal [''a'', ''b''])) False False = Some (VStrings [''a'', ''b''])"
  using gnmiParseValue_leaflist [of "[''a'', ''b'']" False False] by blast

text \<open>
  Reading the header panics exactly when the device sends a header in the updates whose path has fewer than
  three parts separated by colons.
\<close>

theorem gnmiParseHeader_panic:
  "(\<exists>e. gnmiParseHeader pb rsp po = Inl e) \<longleftrightarrow>
   (\<exists>d h. formJuniperTelemetryHdr pb (jXpaths po) (r_Extension rsp) = Hdr d \<and> jh_hdr d = Some h \<and>
      length (go_split (h_Path h) '':'') < 3)"
  by (auto simp: gnmiParseHeader_def Let_def at_def split: hdr_result.splits option.splits)

end
