(* ===== verification/Prom.thy ===== *)
theory Prom
  imports Influx GnmiParse
begin

text \<open>
  The Prometheus exporter (prometheus_exporter.go) and \<open>publishToPrometheus\<close> of subscribe_gnmi.go. The channel of the
  exporter is unbuffered, so that a send and its receive are one event; the metrics a function sends are its
  result, in order. \<open>promName\<close> and the quoting of \<open>getMapKey\<close> are those of ASCII text. A time is a number of
  nanoseconds.
\<close>

section \<open>Names\<close>

definition prom_char :: "char \<Rightarrow> bool" where
  "prom_char c \<longleftrightarrow> is_letter c \<or> is_digit c \<or> c = CHR ''_''"

definition promName :: "string \<Rightarrow> string" where
  "promName input = map (\<lambda>c. if prom_char c then c else CHR ''_'') input"

text \<open>The text before and after the last slash.\<close>

definition cutLast :: "string \<Rightarrow> (string \<times> string) option" where
  "cutLast s =
     (if CHR ''/'' \<in> set s
      then Some (rev (tl (dropWhile (\<lambda>c. c \<noteq> CHR ''/'') (rev s))), rev (takeWhile (\<lambda>c. c \<noteq> CHR ''/'') (rev s)))
      else None)"

definition convertToTag :: "string \<Rightarrow> string" where
  "convertToTag input = (case cutLast input of None \<Rightarrow> input | Some (a, b) \<Rightarrow> a @ ''/@'' @ b)"

text \<open>\<open>strconv.Quote\<close>, and the verb \<open>%q\<close> on a slice of strings.\<close>

definition q_esc :: "char \<Rightarrow> string" where
  "q_esc c =
     (if c = CHR 0x22 \<or> c = CHR 0x5C then [CHR 0x5C, c]
      else if 32 \<le> (of_char c :: nat) \<and> (of_char c :: nat) < 127 then [c]
      else
        case map_of [(CHR 0x07, CHR ''a''), (CHR 0x08, CHR ''b''), (CHR 0x0C, CHR ''f''), (CHR 0x0A, CHR ''n''),
            (CHR 0x0D, CHR ''r''), (CHR 0x09, CHR ''t''), (CHR 0x0B, CHR ''v'')] c of
          Some e \<Rightarrow> [CHR 0x5C, e]
        | None \<Rightarrow> [CHR 0x5C, CHR ''x'', hex_char (of_char c div 16), hex_char (of_char c mod 16)])"

definition quote :: "string \<Rightarrow> string" where
  "quote s = [CHR 0x22] @ concat (map q_esc s) @ [CHR 0x22]"

definition show_quoted :: "string list \<Rightarrow> string" where
  "show_quoted xs = ''['' @ go_join (map quote xs) '' '' @ '']''"


section \<open>Metrics\<close>

record jtimonMetric =
  mapKey :: string
  metricName :: string
  metricLabels :: "(string, string) gomap"
  metricValue :: f64
  metricExpiration :: int

definition labelOf :: "(string, string) gomap \<Rightarrow> string \<Rightarrow> string" where
  "labelOf m l = (case mget m l of Some v \<Rightarrow> v | None \<Rightarrow> [])"

definition getMapKey :: "jtimonMetric \<Rightarrow> string" where
  "getMapKey metric =
     show_quoted (metricName metric #
       concat (map (\<lambda>l. [l, labelOf (metricLabels metric) l]) (sort (map fst (metricLabels metric)))))"

definition newMetric :: "string \<Rightarrow> (string, string) gomap \<Rightarrow> f64 \<Rightarrow> int \<Rightarrow> jtimonMetric" where
  "newMetric name labels val now =
     (let m = \<lparr>mapKey = [], metricName = name, metricLabels = labels, metricValue = val, metricExpiration = now\<rparr>
      in m\<lparr>mapKey := getMapKey m\<rparr>)"


section \<open>The exporter\<close>

type_synonym exporter = "(string, jtimonMetric) gomap"

definition newJTIMONPExporter :: exporter where
  "newJTIMONPExporter = []"

definition recvMetric :: "exporter \<Rightarrow> jtimonMetric \<Rightarrow> exporter" where
  "recvMetric m s = mput m (mapKey s) s"

definition minute :: int where "minute = 60000000000"

definition expire :: "int \<Rightarrow> exporter \<Rightarrow> exporter" where
  "expire now m = filter (\<lambda>(k, metric). \<not> metricExpiration metric < now - minute) m"

text \<open>The loop as a step relation; the first argument says which metrics are sent to it.\<close>

inductive processJTIMONMetric :: "(jtimonMetric \<Rightarrow> bool) \<Rightarrow> exporter \<Rightarrow> exporter \<Rightarrow> bool" for sent where
  recv: "sent s \<Longrightarrow> processJTIMONMetric sent m (recvMetric m s)"
| tick: "processJTIMONMetric sent m (expire now m)"

inductive_cases process_cases: "processJTIMONMetric sent m m'"

definition Collect_metrics :: "exporter \<Rightarrow> jtimonMetric list" where
  "Collect_metrics m = map snd m"


section \<open>Native telemetry\<close>

definition promLeaflist :: "string option list \<Rightarrow> string" where
  "promLeaflist es = (let s = leafListText es in if s \<noteq> [] then go_trimSuffix s '','' else s)"

definition bool_f64 :: "bool \<Rightarrow> f64" where
  "bool_f64 b = f64_of_int (if b then 1 else 0)"

text \<open>
  The value and the tags of a leaf; \<^term>\<open>None\<close> when the leaf is skipped.
\<close>

definition promValue ::
  "string \<Rightarrow> (string, string) gomap \<Rightarrow> oc_value option \<Rightarrow> (f64 \<times> (string, string) gomap) option" where
  "promValue field tags v =
     (case v of
        Some (DoubleValue d) \<Rightarrow> Some (d, tags)
      | Some (IntValue i) \<Rightarrow> Some (f64_of_int (sint i), tags)
      | Some (UintValue u) \<Rightarrow> Some (f64_of_int (uint u), tags)
      | Some (SintValue i) \<Rightarrow> Some (f64_of_int (sint i), tags)
      | Some (BoolValue b) \<Rightarrow> Some (bool_f64 b, tags)
      | Some (StrValue s) \<Rightarrow>
          (if mget tags (convertToTag field) = None
           then Some (f64_of_int 0, mput tags (convertToTag field) s) else None)
      | Some (LeaflistValue es) \<Rightarrow> Some (f64_of_int 0, mput tags ''csLLStrValue'' (promLeaflist es))
      | _ \<Rightarrow> None)"

definition promLabels :: "(string, string) gomap \<Rightarrow> (string, string) gomap" where
  "promLabels tags = foldl (\<lambda>m (k, v). mput m (promName k) v) [] tags"

fun promLoop :: "JCtx \<Rightarrow> int \<Rightarrow> string \<Rightarrow> KeyValue list \<Rightarrow> jtimonMetric list go" where
  "promLoop jctx now prefix [] = Inr []"
| "promLoop jctx now prefix (v # vs) =
     (if kv_Key v = ''__prefix__'' then promLoop jctx now (GetStrValue v) vs
      else if hasPrefix ''__'' (kv_Key v) then promLoop jctx now prefix vs
      else
        bindR (spitTagsNPath jctx (if \<not> hasPrefix ''/'' (kv_Key v) then prefix @ kv_Key v else kv_Key v)) (\<lambda>(field, tags).
          case promValue field (mput tags ''device'' (Host (config jctx))) (kv_Value v) of
            None \<Rightarrow> promLoop jctx now prefix vs
          | Some (val, tags') \<Rightarrow>
              bindR (promLoop jctx now prefix vs) (\<lambda>ms. Inr (newMetric (promName field) (promLabels tags') val now # ms))))"

definition addPrometheus :: "OpenConfigData \<Rightarrow> JCtx \<Rightarrow> int \<Rightarrow> jtimonMetric list go" where
  "addPrometheus oc jctx now = promLoop jctx now [] (oc_Kv oc)"


section \<open>gNMI\<close>

text \<open>
  One iteration of \<open>publishToPrometheus\<close>: the labels, and the metrics sent so far. Values of the types \<open>uint64\<close> and
  list, and nil, are not supported.
\<close>

definition gnmiPromStep ::
  "Alias option \<Rightarrow> int \<Rightarrow> (string, string) gomap \<times> jtimonMetric list \<Rightarrow> string \<times> gval \<Rightarrow> (string, string) gomap \<times> jtimonMetric list" where
  "gnmiPromStep a now st pv =
     (case (st, pv) of ((labels, ms), (p, v)) \<Rightarrow>
        let send = (\<lambda>ls val. (ls, ms @ [newMetric (promName (getAlias a p)) ls val now]));
            leafTag = promName (getAlias a (convertToTag p))
        in if hasPrefix ''__'' (last (go_split p ''/'')) then st
           else
             (case v of
                VInt64 i \<Rightarrow> send labels (f64_of_int (sint i))
              | VFloat64 d \<Rightarrow> send labels d
              | VBool b \<Rightarrow> send labels (bool_f64 b)
              | VString s \<Rightarrow> (if mget labels leafTag = None then send (mput labels leafTag s) (f64_of_int 0) else st)
              | VAny _ \<Rightarrow> send labels (f64_of_int 0)
              | VBytes _ \<Rightarrow> send labels (f64_of_int 0)
              | _ \<Rightarrow> st))"

text \<open>
  The metrics of one notification share one map of labels: a tag that a later string leaf adds is in the labels of the
  metrics sent before, whose map key was made without it.
\<close>

definition publishToPrometheus :: "JCtx \<Rightarrow> int \<Rightarrow> gnmiParseOutputT \<Rightarrow> jtimonMetric list" where
  "publishToPrometheus jctx now po =
     (let labels0 = foldl (\<lambda>m (k, v). mput m (promName (getAlias (jalias jctx) k)) v) [] (kvpairs po)
      in case foldl (gnmiPromStep (jalias jctx) now) (labels0, []) (xpaths po) of
           (labels, ms) \<Rightarrow> map (\<lambda>m. m\<lparr>metricLabels := labels\<rparr>) ms)"


section \<open>Lemmas: map keys\<close>

lemma hex_val_char: "n < 16 \<Longrightarrow> hex_val (hex_char n) = Some n"
  by (auto simp: hex_val_def hex_char_def)

text \<open>A decoder of one character of a quoted text.\<close>

definition q_dec :: "string \<Rightarrow> (char \<times> string) option" where
  "q_dec s =
     (case s of
        [] \<Rightarrow> None
      | c # cs \<Rightarrow>
          if c \<noteq> CHR 0x5C then Some (c, cs)
          else
            (case cs of
               [] \<Rightarrow> None
             | e # r \<Rightarrow>
                 if e = CHR ''x'' then
                   Some (char_of (the (hex_val (r ! 0)) * 16 + the (hex_val (r ! 1))), drop 2 r)
                 else
                   map_option (\<lambda>d. (d, r))
                     (map_of [(CHR 0x22, CHR 0x22), (CHR 0x5C, CHR 0x5C), (CHR ''a'', CHR 0x07), (CHR ''b'', CHR 0x08),
                        (CHR ''f'', CHR 0x0C), (CHR ''n'', CHR 0x0A), (CHR ''r'', CHR 0x0D), (CHR ''t'', CHR 0x09),
                        (CHR ''v'', CHR 0x0B)] e)))"

lemma q_dec_esc: "q_dec (q_esc c @ s) = Some (c, s)"
proof (cases "c \<in> {CHR 0x22, CHR 0x5C, CHR 0x07, CHR 0x08, CHR 0x0C, CHR 0x0A, CHR 0x0D, CHR 0x09, CHR 0x0B}")
  case True
  then show ?thesis by (auto simp: q_esc_def q_dec_def)
next
  case False
  then have m: "map_of [(CHR 0x07, CHR ''a''), (CHR 0x08, CHR ''b''), (CHR 0x0C, CHR ''f''), (CHR 0x0A, CHR ''n''),
            (CHR 0x0D, CHR ''r''), (CHR 0x09, CHR ''t''), (CHR 0x0B, CHR ''v'')] c = None" by auto
  show ?thesis
  proof (cases "32 \<le> (of_char c :: nat) \<and> (of_char c :: nat) < 127")
    case True
    with False show ?thesis by (simp add: q_esc_def q_dec_def)
  next
    case F: False
    let ?n = "of_char c :: nat"
    have "?n < 16 * 16" by simp
    then have "?n div 16 < 16" by (rule less_mult_imp_div_less)
    then have "hex_val (hex_char (?n div 16)) = Some (?n div 16)" "hex_val (hex_char (?n mod 16)) = Some (?n mod 16)"
      by (simp_all add: hex_val_char)
    moreover have "q_esc c = [CHR 0x5C, CHR ''x'', hex_char (?n div 16), hex_char (?n mod 16)]"
      unfolding q_esc_def m using False F by auto
    moreover have "char_of (?n div 16 * 16 + ?n mod 16) = c" by simp
    ultimately show ?thesis by (simp add: q_dec_def)
  qed
qed

lemma q_esc_hd: "\<exists>d r. q_esc c = d # r \<and> d \<noteq> CHR 0x22"
  by (auto simp: q_esc_def split: option.splits)

lemma quote_inj_append:
  "concat (map q_esc s) @ CHR 0x22 # r = concat (map q_esc t) @ CHR 0x22 # r' \<Longrightarrow> s = t \<and> r = r'"
proof (induction s arbitrary: t)
  case Nil
  show ?case
  proof (cases t)
    case (Cons d t')
    with Nil q_esc_hd [of d] show ?thesis by auto
  qed (use Nil in simp)
next
  case (Cons c s)
  show ?case
  proof (cases t)
    case Nil
    with Cons.prems q_esc_hd [of c] show ?thesis by auto
  next
    case C: (Cons d t')
    have "q_esc c @ concat (map q_esc s) @ CHR 0x22 # r = q_esc d @ concat (map q_esc t') @ CHR 0x22 # r'"
      using Cons.prems C by simp
    from arg_cong [OF this, of q_dec]
    have "c = d" "concat (map q_esc s) @ CHR 0x22 # r = concat (map q_esc t') @ CHR 0x22 # r'"
      unfolding q_dec_esc by simp_all
    with Cons.IH [OF this(2)] C show ?thesis by simp
  qed
qed

lemma join_quote_Cons: "go_join (map quote (x # xs)) '' '' @ '']'' =
    CHR 0x22 # concat (map q_esc x) @ CHR 0x22 # (if xs = [] then '']'' else CHR '' '' # go_join (map quote xs) '' '' @ '']'')"
  by (cases xs) (simp_all add: quote_def)

lemma show_quoted_inj: "show_quoted xs = show_quoted ys \<Longrightarrow> xs = ys"
proof -
  have "go_join (map quote xs) '' '' @ '']'' = go_join (map quote ys) '' '' @ '']'' \<Longrightarrow> xs = ys"
  proof (induction xs arbitrary: ys)
    case Nil
    then show ?case using join_quote_Cons [of "hd ys" "tl ys"] by (cases ys) auto
  next
    case (Cons x xs)
    show ?case
    proof (cases ys)
      case Nil
      with Cons.prems join_quote_Cons [of x xs] show ?thesis by auto
    next
      case C: (Cons y ys')
      let ?r = "\<lambda>zs. if zs = [] then '']'' else CHR '' '' # go_join (map quote zs) '' '' @ '']''"
      from Cons.prems have "concat (map q_esc x) @ CHR 0x22 # ?r xs = concat (map q_esc y) @ CHR 0x22 # ?r ys'"
        unfolding C join_quote_Cons by (simp only: list.inject)
      from quote_inj_append [OF this] have "x = y" "?r xs = ?r ys'" by simp_all
      with Cons.IH [of ys'] C show ?thesis by (simp split: if_splits)
    qed
  qed
  then show "show_quoted xs = show_quoted ys \<Longrightarrow> xs = ys" by (simp add: show_quoted_def)
qed

lemma labels_flat_inj:
  "concat (map (\<lambda>l. [l, f l]) xs) = concat (map (\<lambda>l. [l, g l]) ys) \<Longrightarrow> xs = ys \<and> (\<forall>l \<in> set xs. f l = g l)"
proof (induction xs arbitrary: ys)
  case Nil
  then show ?case by (cases ys) auto
next
  case (Cons x xs)
  then show ?case by (cases ys) auto
qed

lemma getMapKey_eq:
  assumes "mwf (metricLabels m)" "mwf (metricLabels n)"
  shows "getMapKey m = getMapKey n \<longleftrightarrow> metricName m = metricName n \<and> mget (metricLabels m) = mget (metricLabels n)"
proof
  assume "getMapKey m = getMapKey n"
  then have name: "metricName m = metricName n" and
    l: "sort (map fst (metricLabels m)) = sort (map fst (metricLabels n))"
    "\<forall>l \<in> set (sort (map fst (metricLabels m))). labelOf (metricLabels m) l = labelOf (metricLabels n) l"
    unfolding getMapKey_def using show_quoted_inj labels_flat_inj by blast+
  have dom: "fst ` set (metricLabels m) = fst ` set (metricLabels n)" using arg_cong [OF l(1), of set] by simp
  have "mget (metricLabels m) k = mget (metricLabels n) k" for k
  proof (cases "k \<in> fst ` set (metricLabels m)")
    case True
    with dom obtain v w where "mget (metricLabels m) k = Some v" "mget (metricLabels n) k = Some w"
      using mget_dom [of "metricLabels m" k] mget_dom [of "metricLabels n" k] by auto
    moreover have "labelOf (metricLabels m) k = labelOf (metricLabels n) k" using l(2) True unfolding set_sort set_map by blast
    ultimately show ?thesis by (simp add: labelOf_def)
  next
    case False
    with dom show ?thesis using mget_dom [of "metricLabels m" k] mget_dom [of "metricLabels n" k] by auto
  qed
  with name show "metricName m = metricName n \<and> mget (metricLabels m) = mget (metricLabels n)" by auto
next
  assume eq: "metricName m = metricName n \<and> mget (metricLabels m) = mget (metricLabels n)"
  then have "set (metricLabels m) = set (metricLabels n)" using assms by (auto simp: mget_mem)
  then have "set (map fst (metricLabels m)) = set (map fst (metricLabels n))" by simp
  then have "sort (map fst (metricLabels m)) = sort (map fst (metricLabels n))"
    using assms by (intro sorted_distinct_set_unique) (simp_all add: mwf_def)
  with eq show "getMapKey m = getMapKey n" by (simp add: getMapKey_def labelOf_def)
qed

section \<open>Lemmas: the exporter\<close>

text \<open>A metric whose map key is made of its name and labels, and the invariant of the exporter.\<close>

definition honest :: "jtimonMetric \<Rightarrow> bool" where
  "honest m \<longleftrightarrow> mapKey m = getMapKey m \<and> mwf (metricLabels m)"

definition exp_inv :: "exporter \<Rightarrow> bool" where
  "exp_inv m \<longleftrightarrow> mwf m \<and> (\<forall>(k, x) \<in> set m. mapKey x = k \<and> honest x)"

lemma exp_inv_recv: "exp_inv m \<Longrightarrow> honest s \<Longrightarrow> exp_inv (recvMetric m s)"
  using set_mput [of m "mapKey s" s] by (auto simp: exp_inv_def recvMetric_def gm.wf_put)

lemma mwf_filter: "mwf m \<Longrightarrow> mwf (filter P m)"
  by (simp add: mwf_def distinct_map_filter)

lemma exp_inv_expire: "exp_inv m \<Longrightarrow> exp_inv (expire now m)"
  by (auto simp: exp_inv_def expire_def mwf_filter)

lemma exp_inv_new: "exp_inv newJTIMONPExporter"
  by (simp add: newJTIMONPExporter_def exp_inv_def gm.wf_emp)

interpretation px: step_system "\<lambda>m. m = newJTIMONPExporter" "processJTIMONMetric honest" exp_inv
  by unfold_locales (auto simp: exp_inv_new elim!: process_cases intro: exp_inv_recv exp_inv_expire)

lemma newMetric_honest: "mwf ls \<Longrightarrow> honest (newMetric n ls v now)"
  by (simp add: honest_def newMetric_def Let_def getMapKey_def)

lemma promLabels_wf: "mwf (promLabels tags)"
  unfolding promLabels_def using foldl_mput_wf [of "[]" promName "\<lambda>v. v" tags] by (simp add: gm.wf_emp)

lemma promLoop_honest: "promLoop jctx now prefix vs = Inr ms \<Longrightarrow> \<forall>m \<in> set ms. honest m"
  by (induction vs arbitrary: prefix ms)
    (auto simp: bindR_Inr_iff newMetric_honest promLabels_wf split: if_splits option.splits prod.splits)

lemma mget_expire:
  assumes "mwf m"
  shows "mget (expire now m) k = (case mget m k of Some x \<Rightarrow> if metricExpiration x < now - minute then None else Some x | None \<Rightarrow> None)"
proof -
  have "mget (expire now m) k = Some x \<longleftrightarrow> mget m k = Some x \<and> \<not> metricExpiration x < now - minute" for x
    unfolding mget_mem [OF assms, symmetric] expire_def mget_mem [OF mwf_filter [OF assms], symmetric] by simp
  note iff = this
  show ?thesis
  proof (cases "mget m k")
    case None
    then have "mget (expire now m) k = None" using iff by (cases "mget (expire now m) k") auto
    with None show ?thesis by simp
  next
    case (Some x)
    then have "mget (expire now m) k = Some y \<Longrightarrow> y = x" for y using iff by simp
    with Some iff [of x] show ?thesis by (cases "mget (expire now m) k") auto
  qed
qed

lemma map_idI_iff: "map f xs = xs \<longleftrightarrow> (\<forall>x \<in> set xs. f x = x)"
  by (induction xs) simp_all

section \<open>Properties\<close>

text \<open>
  C23. Metrics from native telemetry carry the map key of their name and labels, two metrics have the same map key
  exactly when they have the same name and the same labels, and so in every state the exporter reaches from such
  metrics, a scrape never returns two metrics with the same name and labels.
\<close>

theorem exporter_unique:
  assumes "(processJTIMONMetric honest)\<^sup>*\<^sup>* newJTIMONPExporter m"
  shows "(\<forall>oc jctx now ms. addPrometheus oc jctx now = Inr ms \<longrightarrow> (\<forall>x \<in> set ms. honest x)) \<and>
    (\<forall>i j. i < j \<longrightarrow> j < length (Collect_metrics m) \<longrightarrow>
       \<not> (metricName (Collect_metrics m ! i) = metricName (Collect_metrics m ! j) \<and>
          mget (metricLabels (Collect_metrics m ! i)) = mget (metricLabels (Collect_metrics m ! j))))"
proof -
  from px.inv_reachable [OF refl assms] have inv: "exp_inv m" .
  have "\<not> (metricName (Collect_metrics m ! i) = metricName (Collect_metrics m ! j) \<and>
          mget (metricLabels (Collect_metrics m ! i)) = mget (metricLabels (Collect_metrics m ! j)))"
    if "i < j" "j < length m" for i j
  proof
    assume eq: "metricName (Collect_metrics m ! i) = metricName (Collect_metrics m ! j) \<and>
      mget (metricLabels (Collect_metrics m ! i)) = mget (metricLabels (Collect_metrics m ! j))"
    have k: "mapKey (snd (m ! l)) = fst (m ! l)" "honest (snd (m ! l))" if "l < length m" for l
      using inv nth_mem [OF that] by (auto simp: exp_inv_def)
    have "getMapKey (snd (m ! i)) = getMapKey (snd (m ! j))"
      using eq k(2) [of i] k(2) [of j] that by (simp add: Collect_metrics_def honest_def getMapKey_eq)
    then have "fst (m ! i) = fst (m ! j)" using k [of i] k [of j] that by (simp add: honest_def)
    moreover have "distinct (map fst m)" using inv by (simp add: exp_inv_def mwf_def)
    ultimately show False using that nth_eq_iff_index_eq [of "map fst m" i j] by simp
  qed
  moreover have "\<forall>x \<in> set ms. honest x" if "addPrometheus oc jctx now = Inr ms" for oc jctx now ms
    using that promLoop_honest by (simp add: addPrometheus_def)
  ultimately show ?thesis by (simp add: Collect_metrics_def)
qed

definition ex_metric :: jtimonMetric where
  "ex_metric = newMetric ''m'' [(''device'', ''r1'')] 0 1"

theorem exporter_unique_witness:
  "(processJTIMONMetric honest)\<^sup>*\<^sup>* newJTIMONPExporter (recvMetric newJTIMONPExporter ex_metric) \<and>
   length (Collect_metrics (recvMetric newJTIMONPExporter ex_metric)) = 1 \<and>
   \<not> (\<exists>j. 0 < j \<and> j < length (Collect_metrics (recvMetric newJTIMONPExporter ex_metric)) \<and>
      metricName (Collect_metrics (recvMetric newJTIMONPExporter ex_metric) ! 0) =
        metricName (Collect_metrics (recvMetric newJTIMONPExporter ex_metric) ! j) \<and>
      mget (metricLabels (Collect_metrics (recvMetric newJTIMONPExporter ex_metric) ! 0)) =
        mget (metricLabels (Collect_metrics (recvMetric newJTIMONPExporter ex_metric) ! j)))"
proof -
  have "honest ex_metric" by (simp add: ex_metric_def newMetric_honest mwf_def)
  then have r: "(processJTIMONMetric honest)\<^sup>*\<^sup>* newJTIMONPExporter (recvMetric newJTIMONPExporter ex_metric)"
    by (intro r_into_rtranclp recv)
  from exporter_unique [OF r] r show ?thesis
    by (simp add: Collect_metrics_def recvMetric_def newJTIMONPExporter_def mput_def)
qed



text \<open>
  A Prometheus name consists of letters, digits and underscores; a name that does already is left alone, and
  the length does not change.
\<close>

theorem promName_valid:
  "list_all prom_char (promName s) \<and> length (promName s) = length s \<and>
   (promName s = s \<longleftrightarrow> list_all prom_char s)"
proof -
  have u: "prom_char CHR ''_''" by code_simp
  have "prom_char (if prom_char c then c else CHR ''_'')" for c using u by metis
  then have "\<forall>c \<in> set (promName s). prom_char c" unfolding promName_def set_map by blast
  moreover have "promName s = s \<longleftrightarrow> (\<forall>c \<in> set s. (if prom_char c then c else CHR ''_'') = c)"
    unfolding promName_def by (rule map_idI_iff)
  moreover have "(if prom_char c then c else CHR ''_'') = c \<longleftrightarrow> prom_char c" for c using u by metis
  moreover have "length (promName s) = length s" unfolding promName_def by (rule length_map)
  ultimately show ?thesis unfolding list_all_iff by blast
qed

definition ex_po :: "(string, gval) gomap \<Rightarrow> gnmiParseOutputT" where
  "ex_po xs = emptyOutput\<lparr>kvpairs := [(''device'', ''r1'')], xpaths := xs\<rparr>"

definition ex_scrape :: "jtimonMetric list" where
  "ex_scrape = Collect_metrics (foldl recvMetric newJTIMONPExporter
     (publishToPrometheus zeroJCtx 1 (ex_po [(''/i/up'', VBool True), (''/i/name'', VString ''ge'')]) @
      publishToPrometheus zeroJCtx 2 (ex_po [(''/i/name'', VString ''ge''), (''/i/up'', VBool True)])))"

text \<open>
  The metrics of a gNMI notification share one map of labels, so that the exporter can hold two metrics with the
  same name and the same labels: the same notification, iterated over in two orders, leaves two entries
  for one leaf.
\<close>

theorem publishToPrometheus_duplicates:
  "\<exists>i j. i < j \<and> j < length ex_scrape \<and> metricName (ex_scrape ! i) = metricName (ex_scrape ! j) \<and>
     metricLabels (ex_scrape ! i) = metricLabels (ex_scrape ! j)"
proof -
  have "length ex_scrape = 3 \<and> metricName (ex_scrape ! 0) = metricName (ex_scrape ! 2) \<and>
     metricLabels (ex_scrape ! 0) = metricLabels (ex_scrape ! 2)" by code_simp
  then show ?thesis by (intro exI [of _ 0] exI [of _ 2]) simp
qed

end
