(* ===== verification/GnmiHandle.thy ===== *)
theory GnmiHandle
  imports Prom
begin

text \<open>
  Handling of gNMI responses: \<open>updateStats\<close> and \<open>updateStatsKV\<close> of statshandler.go, \<open>publishToInflux\<close>,
  \<open>gnmiHandleResponse\<close> and \<open>subscribegNMI\<close> of subscribe_gnmi.go. The logs are not modelled. The metrics sent to the
  Prometheus exporter are part of the result. The clock reading is an argument.

  A stream is a list of what \<open>Recv\<close> returns, mixed with the signals on the control channel in the order in which the
  select statement sees them. \<open>subscribegNMI\<close> is the configuration in which responses are handled in the receive
  loop (\<open>noppgoroutines\<close>); the interleavings of the default configuration, where a goroutine is started for every
  response, are the step relation \<open>gstep\<close>.
\<close>

section \<open>Statistics\<close>

definition updateStats :: "Flags \<Rightarrow> JCtx \<Rightarrow> JCtx" where
  "updateStats fl jctx =
     (if \<not> f_statsHandler fl then jctx else jctx\<lparr>stats := (stats jctx)\<lparr>totalIn := totalIn (stats jctx) + 1\<rparr>\<rparr>)"

definition updateStatsKV :: "Flags \<Rightarrow> JCtx \<Rightarrow> 64 word \<Rightarrow> JCtx" where
  "updateStatsKV fl jctx count =
     (if \<not> f_statsHandler fl then jctx else jctx\<lparr>stats := (stats jctx)\<lparr>totalKV := totalKV (stats jctx) + count\<rparr>\<rparr>)"


section \<open>Publishing to InfluxDB\<close>

definition joinLeaflist :: "gval \<Rightarrow> gval" where
  "joinLeaflist v = (case v of VStrings members \<Rightarrow> VString (go_join members '','') | _ \<Rightarrow> v)"

text \<open>\<^term>\<open>None\<close> is the error that the point cannot be made.\<close>

definition publishToInflux ::
  "influx_lib \<Rightarrow> JCtx \<Rightarrow> string \<Rightarrow> (string, string) gomap \<Rightarrow> (string, gval) gomap \<Rightarrow> int \<Rightarrow> JCtx option" where
  "publishToInflux lib jctx name kvs xs now =
     (if \<not> influxClient (influxCtx jctx) then Some jctx
      else
        (case il_NewPoint lib name kvs (map (\<lambda>(k, v). (k, joinLeaflist v)) xs) now of
           None \<Rightarrow> None
         | Some pt \<Rightarrow> Some (sendPoints name [pt] jctx)))"


section \<open>One response\<close>

datatype handle_err = ParseFailed | DroppedSync | NoMeasurement | PublishFailed

text \<open>The packets of the initial synchronisation are numbered from \<open>2 ^ 21\<close> to \<open>2 ^ 22 - 1\<close>.\<close>

definition isyncSeq :: "64 word \<Rightarrow> bool" where
  "isyncSeq n \<longleftrightarrow> 2 ^ 21 \<le> n \<and> n \<le> 2 ^ 22 - 1"

definition dropInitialSync :: "gnmiParseOutputT \<Rightarrow> bool" where
  "dropInitialSync po =
     (case jHeader po of
        None \<Rightarrow> True
      | Some d \<Rightarrow>
          (case jh_hdr d of Some h \<Rightarrow> isyncSeq (h_SequenceNumber h) | None \<Rightarrow> False) \<or>
          (case jh_hdrExt d of Some x \<Rightarrow> isyncSeq (x_SequenceNumber x) | None \<Rightarrow> False))"

text \<open>
  The header fields that become tags when the packet is printed or logged verbosely: the extension header goes
  through JSON, which leaves zero values out and reads numbers back as \<open>float64\<close>.
\<close>

definition headerTags :: "gnmiParseOutputT \<Rightarrow> (string, string) gomap" where
  "headerTags po =
     (case jHeader po of
        None \<Rightarrow> []
      | Some d \<Rightarrow>
          (case (jh_hdr d, jh_hdrExt d) of
             (None, Some x) \<Rightarrow>
               (if x_Component x \<noteq> [] \<and> x_Component x \<noteq> ''Unsupported type''
                then [(''component'', convertToString (VString (x_Component x)))] else []) @
               (if x_ComponentId x \<noteq> 0
                then [(''component_id'', convertToString (VFloat64 (f64_of_int (uint (x_ComponentId x)))))] else []) @
               (if x_SubComponentId x \<noteq> 0
                then [(''sub_component_id'', convertToString (VFloat64 (f64_of_int (uint (x_SubComponentId x)))))] else [])
           | _ \<Rightarrow> []))"

definition finishOutput :: "JCtx \<Rightarrow> gnmiParseOutputT \<Rightarrow> gnmiParseOutputT" where
  "finishOutput jctx po =
     po\<lparr>kvpairs := mput (mput (kvpairs po) ''device'' (Host (config jctx))) ''sensor'' (sensorVal po),
        xpaths := mput (xpaths po) ''vendor'' (VString ''gnmi'')\<rparr>"

definition eosEnabled :: "JCtx \<Rightarrow> bool" where
  "eosEnabled jctx =
     (if isInternalJtimonLogging jctx then ij_GnmiEOS (InternalJtimon (config jctx)) else EOS (config jctx))"

type_synonym handled = "handle_err option \<times> JCtx \<times> jtimonMetric list"

text \<open>The part after parsing (lines 346 to 450), and the whole handler.\<close>

definition gnmiDeliver :: "Flags \<Rightarrow> influx_lib \<Rightarrow> int \<Rightarrow> JCtx \<Rightarrow> gnmiParseOutputT \<Rightarrow> handled" where
  "gnmiDeliver fl lib now jctx po =
     (if \<not> eosEnabled jctx \<and> \<not> receivedSyncRsp jctx \<and> dropInitialSync po then (Some DroppedSync, jctx, [])
      else if mName po = [] then (Some NoMeasurement, jctx, [])
      else
        let po1 = finishOutput jctx po;
            metrics = (if f_prom fl then publishToPrometheus jctx now po1 else []);
            kvs = (if f_print fl \<or> IsVerboseLogging jctx then mputs (kvpairs po1) (headerTags po1) else kvpairs po1)
        in case publishToInflux lib jctx (mName po1) kvs (xpaths po1) now of
             None \<Rightarrow> (Some PublishFailed, jctx, metrics)
           | Some jctx' \<Rightarrow> (None, jctx', metrics))"

definition gnmiHandleResponse ::
  "Flags \<Rightarrow> influx_lib \<Rightarrow> pb_lib \<Rightarrow> int \<Rightarrow> JCtx \<Rightarrow> SubscribeResponse \<Rightarrow> handled go" where
  "gnmiHandleResponse fl lib pb now jctx0 rsp =
     (let jctx = updateStats fl jctx0
      in if r_SyncResponse rsp then Inr (None, jctx\<lparr>receivedSyncRsp := True\<rparr>, [])
         else
           bindR (gnmiParseNotification pb (\<not> v_RemoveNS (Vendor (config jctx))) rsp emptyOutput
             (EnableUintSupport (config jctx))) (\<lambda>parsed.
             case parsed of
               Inl _ \<Rightarrow> Inr (Some ParseFailed, jctx, [])
             | Inr po \<Rightarrow> Inr (gnmiDeliver fl lib now (updateStatsKV fl jctx (inKvs po)) po)))"


section \<open>The subscription\<close>

datatype SubErrorCode = SubRcConnRetry | SubRcSighupRestart | SubRcSighupNoRestart | SubRcRPCFailedNoRetry | SubRcOnceComplete

datatype grpc_code = OK | Unimplemented | InvalidArgument | Unavailable | OtherCode

datatype os_signal = SIGHUP | Interrupt

datatype 'r stream_event = Received 'r | EndOfStream | RecvError grpc_code | Control os_signal

text \<open>
  What a failed receive returns. The code asks for the status of \<open>err\<close>, the variable of the enclosing function, which
  is nil once the request has been sent; the status of a nil error is \<open>OK\<close>.
\<close>

definition recvErrorCode :: "grpc_code \<Rightarrow> SubErrorCode" where
  "recvErrorCode err1 =
     (let sc = OK
      in if sc = Unimplemented \<or> sc = InvalidArgument \<or> sc = Unavailable then SubRcRPCFailedNoRetry else SubRcConnRetry)"

definition signalCode :: "os_signal \<Rightarrow> SubErrorCode" where
  "signalCode s = (case s of SIGHUP \<Rightarrow> SubRcSighupRestart | Interrupt \<Rightarrow> SubRcSighupNoRestart)"

text \<open>\<open>SubscriptionList.ONCE\<close> is mode 1. No code while the stream goes on.\<close>

fun gnmiReceive ::
  "Flags \<Rightarrow> influx_lib \<Rightarrow> pb_lib \<Rightarrow> int \<Rightarrow> int \<Rightarrow> JCtx \<Rightarrow> jtimonMetric list \<Rightarrow> SubscribeResponse stream_event list \<Rightarrow>
   (SubErrorCode option \<times> JCtx \<times> jtimonMetric list) go" where
  "gnmiReceive fl lib pb now mode jctx ms [] = Inr (None, jctx, ms)"
| "gnmiReceive fl lib pb now mode jctx ms (e # es) =
     (case e of
        Control s \<Rightarrow> Inr (Some (signalCode s), jctx, ms)
      | EndOfStream \<Rightarrow>
          Inr (Some (if mode = 1 \<and> receivedSyncRsp jctx then SubRcOnceComplete else SubRcConnRetry), jctx, ms)
      | RecvError c \<Rightarrow> Inr (Some (recvErrorCode c), jctx, ms)
      | Received rsp \<Rightarrow>
          bindR (gnmiHandleResponse fl lib pb now jctx rsp) (\<lambda>(_, jctx', ms').
            gnmiReceive fl lib pb now mode jctx' (ms @ ms') es))"

text \<open>What the network does: whether the stream is created, whether the request is sent, and the stream.\<close>

record gnmi_net =
  gn_subscribe_ok :: bool
  gn_send_ok :: bool
  gn_events :: "SubscribeResponse stream_event list"

datatype Encoding = JSON | JSON_IETF | PROTO

record SubscriptionList =
  sl_Mode :: int
  sl_Encoding :: Encoding
  sl_Subscription :: "Subscription list"
  sl_Target :: "string option"

definition gnmiEncoding :: "JCtx \<Rightarrow> Encoding" where
  "gnmiEncoding jctx =
     (case v_Gnmi (Vendor (config jctx)) of
        None \<Rightarrow> JSON
      | Some g \<Rightarrow>
          if gc_Encoding g = ''json'' then JSON
          else if gc_Encoding g = ''json_ietf'' then JSON_IETF
          else PROTO)"

definition firstTarget :: "PathsConfig list \<Rightarrow> string option" where
  "firstTarget paths = map_option p_Target (find (\<lambda>p. p_Target p \<noteq> []) paths)"

text \<open>The request; \<open>cfg.Vendor.Gnmi\<close> is dereferenced without a check.\<close>

definition gnmiRequest :: "JCtx \<Rightarrow> Config \<Rightarrow> PathsConfig list \<Rightarrow> (string + SubscriptionList) go" where
  "gnmiRequest jctx cfg paths =
     (case v_Gnmi (Vendor cfg) of
        None \<Rightarrow> Inl NilDeref
      | Some g \<Rightarrow>
          bindR (xPathsTognmiSubscription paths None) (\<lambda>r.
            Inr (bindR r (\<lambda>subs.
              Inr \<lparr>sl_Mode = gc_Mode g, sl_Encoding = gnmiEncoding jctx, sl_Subscription = subs,
                   sl_Target = firstTarget paths\<rparr>))))"

definition subscribegNMI ::
  "Flags \<Rightarrow> influx_lib \<Rightarrow> pb_lib \<Rightarrow> int \<Rightarrow> gnmi_net \<Rightarrow> JCtx \<Rightarrow> Config \<Rightarrow> PathsConfig list \<Rightarrow>
   (SubErrorCode option \<times> JCtx \<times> jtimonMetric list) go" where
  "subscribegNMI fl lib pb now net jctx cfg paths =
     bindR (gnmiRequest jctx cfg paths) (\<lambda>req.
       case req of
         Inl _ \<Rightarrow> Inr (Some SubRcConnRetry, jctx, [])
       | Inr subs \<Rightarrow>
           if \<not> gn_subscribe_ok net \<or> \<not> gn_send_ok net then Inr (Some SubRcConnRetry, jctx, [])
           else gnmiReceive fl lib pb now (sl_Mode subs) jctx [] (gn_events net))"


section \<open>A goroutine per response\<close>

text \<open>
  The variable \<open>rsp\<close> is declared outside the loop and shared with the goroutines: a goroutine that runs late handles
  the response received last. The state is the variable, the number of goroutines that have not run yet, and the
  responses handled.
\<close>

record 'r gstate =
  gs_rsp :: "'r option"
  gs_pending :: nat
  gs_handled :: "'r list"

inductive gstep :: "'r gstate \<Rightarrow> 'r gstate \<Rightarrow> bool" where
  g_recv: "gstep s (s\<lparr>gs_rsp := Some r, gs_pending := Suc (gs_pending s)\<rparr>)"
| g_run: "gs_pending s = Suc n \<Longrightarrow> gs_rsp s = Some r \<Longrightarrow>
    gstep s (s\<lparr>gs_pending := n, gs_handled := gs_handled s @ [r]\<rparr>)"

inductive_cases gstep_cases: "gstep s t"

definition ginit :: "'r gstate" where
  "ginit = \<lparr>gs_rsp = None, gs_pending = 0, gs_handled = []\<rparr>"

section \<open>Lemmas\<close>

lemma updateStats_simps [simp]:
  "influxCtx (updateStats fl j) = influxCtx j" "config (updateStats fl j) = config j" "jalias (updateStats fl j) = jalias j"
  "receivedSyncRsp (updateStats fl j) = receivedSyncRsp j"
  "influxCtx (updateStatsKV fl j n) = influxCtx j" "config (updateStatsKV fl j n) = config j" "jalias (updateStatsKV fl j n) = jalias j"
  "receivedSyncRsp (updateStatsKV fl j n) = receivedSyncRsp j"
  by (simp_all add: updateStats_def updateStatsKV_def)

lemma upd_influx_simps [simp]:
  "receivedSyncRsp (upd_influx f j) = receivedSyncRsp j" "config (upd_influx f j) = config j"
  by (simp_all add: upd_influx_def)

lemma sendPoints_simps [simp]:
  "receivedSyncRsp (sendPoints n ps j) = receivedSyncRsp j" "config (sendPoints n ps j) = config j"
  by (simp_all add: sendPoints_def)

lemma publishToInflux_simps:
  "publishToInflux lib j n kvs xs now = Some j' \<Longrightarrow> receivedSyncRsp j' = receivedSyncRsp j \<and> config j' = config j"
  by (auto simp: publishToInflux_def split: if_splits option.splits)

lemma eosEnabled_stats [simp]:
  "eosEnabled (updateStats fl j) = eosEnabled j" "eosEnabled (updateStatsKV fl j n) = eosEnabled j"
  by (simp_all add: eosEnabled_def isInternalJtimonLogging_def)

text \<open>A response changes neither the configuration nor forgets that the synchronisation is over.\<close>

lemma gnmiDeliver_frame:
  "gnmiDeliver fl lib now jctx po = (err, jctx', ms) \<Longrightarrow>
   config jctx' = config jctx \<and> receivedSyncRsp jctx' = receivedSyncRsp jctx"
  by (auto simp: gnmiDeliver_def Let_def dest: publishToInflux_simps split: if_splits option.splits)

text \<open>The outcomes of a response.\<close>

lemma gnmiHandle_cases:
  assumes "gnmiHandleResponse fl lib pb now jctx rsp = Inr (err, jctx', ms)"
  obtains (sync) "r_SyncResponse rsp" "err = None" "jctx' = (updateStats fl jctx)\<lparr>receivedSyncRsp := True\<rparr>" "ms = []"
  | (failed) "\<not> r_SyncResponse rsp" "err = Some ParseFailed" "jctx' = updateStats fl jctx" "ms = []"
  | (parsed) po where "\<not> r_SyncResponse rsp"
      "gnmiDeliver fl lib now (updateStatsKV fl (updateStats fl jctx) (inKvs po)) po = (err, jctx', ms)"
proof (cases "r_SyncResponse rsp")
  case True
  with assms sync show thesis by (simp add: gnmiHandleResponse_def Let_def)
next
  case False
  let ?r = "gnmiParseNotification pb (\<not> v_RemoveNS (Vendor (config jctx))) rsp emptyOutput (EnableUintSupport (config jctx))"
  from assms False obtain r where r: "?r = Inr r" by (cases ?r) (simp_all add: gnmiHandleResponse_def Let_def)
  show thesis
  proof (cases r)
    case (Inl u)
    with assms False r failed show thesis by (simp add: gnmiHandleResponse_def Let_def)
  next
    case (Inr po)
    with assms False r parsed show thesis by (simp add: gnmiHandleResponse_def Let_def)
  qed
qed

lemma gnmiHandle_frame:
  assumes "gnmiHandleResponse fl lib pb now jctx rsp = Inr (err, jctx', ms)"
  shows "config jctx' = config jctx \<and> (receivedSyncRsp jctx' \<longleftrightarrow> receivedSyncRsp jctx \<or> r_SyncResponse rsp)"
  using assms by (cases rule: gnmiHandle_cases) (auto dest: gnmiDeliver_frame)

lemma gnmiDeliver_dropped:
  "gnmiDeliver fl lib now jctx po = (Some DroppedSync, jctx', ms) \<longleftrightarrow>
   \<not> eosEnabled jctx \<and> \<not> receivedSyncRsp jctx \<and> dropInitialSync po \<and> jctx' = jctx \<and> ms = []"
  by (auto simp: gnmiDeliver_def Let_def split: if_splits option.splits)

lemma parsePrefix_emptyOutput: "fst (parsePrefix org prefix emptyOutput) = prefix_text org prefix"
  by (rule parsePrefix_empty) (simp add: emptyOutput_def)

text \<open>Parsing a notification without deletes and without a Juniper header.\<close>

definition plain_response :: "bool \<Rightarrow> SubscribeResponse \<Rightarrow> Notification \<Rightarrow> bool" where
  "plain_response en rsp n \<longleftrightarrow>
     r_Update rsp = Some n \<and> \<not> r_SyncResponse rsp \<and> juniperExt (r_Extension rsp) = None \<and> n_Timestamp n \<noteq> 0 \<and>
     n_Update n \<noteq> [] \<and> n_Delete n = [] \<and> (\<forall>u \<in> set (n_Update n). plain_update u \<and> upd_val en u \<noteq> None)"

definition notif_values :: "bool \<Rightarrow> bool \<Rightarrow> Notification \<Rightarrow> (string \<times> gval) list" where
  "notif_values org en n =
     map (\<lambda>u. (upd_xpath (prefix_text org (n_Prefix n)) u, the (upd_val en u))) (n_Update n)"

lemma parse_plain_response:
  assumes "plain_response en rsp n"
  shows "\<exists>po. gnmiParseNotification pb org rsp emptyOutput en = Inr (Inr po) \<and> mName po = prefix_text org (n_Prefix n) @ ''/'' \<and>
    sensorVal po = prefix_text org (n_Prefix n) \<and> jHeader po = None \<and>
    xpaths po = putTs (prefix_text org (n_Prefix n)) (n_Timestamp n) (mputs [] (notif_values org en n))"
proof -
  let ?p = "prefix_text org (n_Prefix n)"
  obtain kvs where kvs: "parsePrefix org (n_Prefix n) emptyOutput = (?p, kvs)"
    using parsePrefix_emptyOutput [of org "n_Prefix n"] by (metis prod.collapse)
  from assms have u: "\<forall>u \<in> set (n_Update n). plain_update u \<and> upd_val en u \<noteq> None" by (simp add: plain_response_def)
  have e: "xpaths emptyOutput = []" "jHeader emptyOutput = None" by (simp_all add: emptyOutput_def)
  have "gnmiParseUpdates org (n_Prefix n) (n_Update n) emptyOutput en =
      Some (emptyOutput\<lparr>prefixPath := ?p, kvpairs := mputs kvs (concat (map (\<lambda>u. path_tags ?p (get_Elem (u_Path u))) (n_Update n))),
        xpaths := mputs [] (notif_values org en n), jXpaths := None\<rparr>)"
    by (simp add: gnmiParseUpdates_def kvs updateLoop_plain [OF u] e notif_values_def)
  with assms show ?thesis
    by (simp add: gnmiParseNotification_def plain_response_def gnmiParseHeader_def formJuniperTelemetryHdr_def Let_def e)
qed


lemma gnmiReceive_sync:
  "gnmiReceive fl lib pb now mode jctx ms es = Inr (rc, jctx', ms') \<Longrightarrow> receivedSyncRsp jctx \<Longrightarrow> receivedSyncRsp jctx'"
proof (induction es arbitrary: jctx ms)
  case (Cons e es)
  show ?case
  proof (cases e)
    case (Received rsp)
    with Cons.prems obtain err j m where h: "gnmiHandleResponse fl lib pb now jctx rsp = Inr (err, j, m)"
      "gnmiReceive fl lib pb now mode j (ms @ m) es = Inr (rc, jctx', ms')" by (auto simp: bindR_Inr_iff)
    with Cons.IH [OF h(2)] gnmiHandle_frame [OF h(1)] Cons.prems(2) show ?thesis by simp
  qed (use Cons.prems in auto)
qed simp

lemma gnmiReceive_codes:
  "gnmiReceive fl lib pb now mode jctx ms es = Inr (Some rc, jctx', ms') \<Longrightarrow>
   rc \<noteq> SubRcRPCFailedNoRetry \<and> (rc = SubRcOnceComplete \<longrightarrow> mode = 1 \<and> receivedSyncRsp jctx')"
proof (induction es arbitrary: jctx ms)
  case (Cons e es)
  show ?case
  proof (cases e)
    case (Received rsp)
    with Cons.prems obtain err j m where h: "gnmiHandleResponse fl lib pb now jctx rsp = Inr (err, j, m)"
      "gnmiReceive fl lib pb now mode j (ms @ m) es = Inr (Some rc, jctx', ms')" by (auto simp: bindR_Inr_iff)
    with Cons.IH [OF h(2)] show ?thesis by simp
  qed (use Cons.prems in \<open>auto simp: recvErrorCode_def signalCode_def split: os_signal.splits if_splits\<close>)
qed simp

lemma mput_memD: "e \<in> set (mput m k v) \<Longrightarrow> e = (k, v) \<or> e \<in> set m"
  using set_mput [of m k v] by blast

lemma mget_map_snd: "mget (map (\<lambda>(k, v). (k, f v)) m) k = map_option f (mget m k)"
  by (simp add: mget_def map_of_map)

definition reserved :: "string \<Rightarrow> string \<Rightarrow> bool" where
  "reserved p x \<longleftrightarrow> x \<in> {''vendor'', gDeviceTs, p @ ''/'' @ gGnmiJtimonProducerTsName}"

text \<open>A library that takes strings and integers under a name, as the one used does.\<close>

definition takes_scalars :: "(string \<Rightarrow> gval \<Rightarrow> bool) \<Rightarrow> bool" where
  "takes_scalars valid \<longleftrightarrow> (\<forall>k s w. k \<noteq> [] \<longrightarrow> valid k (VString s) \<and> valid k (VInt64 w))"

lemma final_fields_valid:
  assumes "takes_scalars valid" "\<forall>(k, v) \<in> set vals. valid k (joinLeaflist v)"
  shows "\<forall>(k, v) \<in> set (map (\<lambda>(k, v). (k, joinLeaflist v)) (mput (putTs p ts (mputs [] vals)) ''vendor'' (VString ''gnmi''))). valid k v"
proof -
  have "valid k (joinLeaflist v)"
    if "(k, v) \<in> set (mput (putTs p ts (mputs [] vals)) ''vendor'' (VString ''gnmi''))" for k v
  proof -
    have "(k, v) \<in> {(''vendor'', VString ''gnmi''), (gDeviceTs, VInt64 (tsMillis ts)),
        (p @ ''/'' @ gGnmiJtimonProducerTsName, VInt64 (tsMillis ts))} \<union> set vals"
      using that set_mputs [of "[]" vals] unfolding putTs_def by (auto dest!: mput_memD)
    then show ?thesis using assms by (auto simp: takes_scalars_def joinLeaflist_def gDeviceTs_def)
  qed
  then show ?thesis by auto
qed


section \<open>Properties\<close>

text \<open>
  C1. A gNMI response with ordinary leaves, received after the initial synchronisation (or with end-of-sync
  markers requested), reaches the database writer as one point: its name is the path of the prefix, its tags have
  the device and the sensor, and every path of the notification has the value of its last update (a list of strings
  joined with commas), unless the path is one of the names the program adds itself.
\<close>

theorem gnmiHandleResponse_delivers:
  assumes "lib_ok lib valid" and "takes_scalars valid" and "influxClient (influxCtx jctx)"
    and "\<not> i_WritePerMeasurement (Influx (config jctx))" and "batchWCh (influxCtx jctx) = Some q"
    and "receivedSyncRsp jctx \<or> eosEnabled jctx"
    and "org = (\<not> v_RemoveNS (Vendor (config jctx)))" and "en = EnableUintSupport (config jctx)"
    and "plain_response en rsp n" and "\<forall>(k, v) \<in> set (notif_values org en n). valid k (joinLeaflist v)"
  shows "\<exists>jctx' ms pt. gnmiHandleResponse fl lib pb now jctx rsp = Inr (None, jctx', ms) \<and>
    batchWCh (influxCtx jctx') = Some (q @ [[pt]]) \<and> pt_name pt = prefix_text org (n_Prefix n) @ ''/'' \<and>
    mget (pt_tags pt) ''device'' = Some (Host (config jctx)) \<and>
    mget (pt_tags pt) ''sensor'' = Some (prefix_text org (n_Prefix n)) \<and>
    (\<forall>x. \<not> reserved (prefix_text org (n_Prefix n)) x \<longrightarrow>
       mget (pt_fields pt) x = map_option joinLeaflist (map_of (rev (notif_values org en n)) x))"
proof -
  let ?p = "prefix_text org (n_Prefix n)" and ?vals = "notif_values org en n"
  obtain po where po: "gnmiParseNotification pb org rsp emptyOutput en = Inr (Inr po)" "mName po = ?p @ ''/''"
    "sensorVal po = ?p" "jHeader po = None" "xpaths po = putTs ?p (n_Timestamp n) (mputs [] ?vals)"
    using parse_plain_response [OF assms(9)] by blast
  let ?j = "updateStatsKV fl (updateStats fl jctx) (inKvs po)" and ?po = "finishOutput jctx po"
  have fin: "finishOutput ?j po = ?po" "headerTags ?po = []" "mName ?po = ?p @ ''/''"
    "xpaths ?po = mput (putTs ?p (n_Timestamp n) (mputs [] ?vals)) ''vendor'' (VString ''gnmi'')"
    "kvpairs ?po = mput (mput (kvpairs po) ''device'' (Host (config jctx))) ''sensor'' ?p"
    by (simp_all add: finishOutput_def po headerTags_def)
  let ?f = "map (\<lambda>(k, v). (k, joinLeaflist v)) (xpaths ?po)"
  let ?pt = "\<lparr>pt_name = ?p @ ''/'', pt_tags = kvpairs ?po, pt_fields = ?f, pt_time = now\<rparr>"
  have "il_NewPoint lib (?p @ ''/'') (kvpairs ?po) ?f now = Some ?pt"
    using final_fields_valid [OF assms(2,10)] by (simp add: lib_okD(1) [OF assms(1)] fin(4))
  then have pub: "publishToInflux lib ?j (?p @ ''/'') (kvpairs ?po) (xpaths ?po) now = Some (sendPoints (?p @ ''/'') [?pt] ?j)"
    using assms(3) by (simp add: publishToInflux_def)
  have "gnmiDeliver fl lib now ?j po =
      (None, sendPoints (?p @ ''/'') [?pt] ?j, if f_prom fl then publishToPrometheus ?j now ?po else [])"
    using assms(6) po(2) pub by (auto simp: gnmiDeliver_def Let_def fin(1-3) mputs_def)
  moreover have "gnmiHandleResponse fl lib pb now jctx rsp = Inr (gnmiDeliver fl lib now ?j po)"
    using assms(9) po(1) by (simp add: gnmiHandleResponse_def Let_def plain_response_def assms(7,8))
  moreover have "batchWCh (influxCtx (sendPoints (?p @ ''/'') [?pt] ?j)) = Some (q @ [[?pt]])"
    using assms(4,5) by (simp add: sendPoints_def upd_influx_def)
  moreover have "mget ?f x = map_option joinLeaflist (map_of (rev ?vals) x)" if "\<not> reserved ?p x" for x
    using that by (simp add: mget_map_snd fin(4) putTs_def reserved_def mget_mputs_rev option.case_eq_if)
  ultimately show ?thesis by (intro exI [of _ "sendPoints (?p @ ''/'') [?pt] ?j"] exI conjI) (auto simp: fin(5))
qed


definition ex_rsp :: SubscribeResponse where
  "ex_rsp = \<lparr>r_Update = Some \<lparr>n_Timestamp = 1000000, n_Prefix = Some \<lparr>gp_Origin = [], gp_Target = [], gp_Elem = ex_elems\<rparr>,
      n_Update = [ex_update ''mtu'' (IntVal 9000), ex_update ''tags'' (LeaflistVal [StringVal ''a'', StringVal ''b''])],
      n_Delete = []\<rparr>, r_SyncResponse = False, r_Extension = []\<rparr>"

definition ex_pb :: pb_lib where
  "ex_pb = \<lparr>pb_AnyMessageName = (\<lambda>_. None), pb_UnmarshalHdr = (\<lambda>_. emptyHdr), pb_UnmarshalExt = (\<lambda>_. Some emptyExt)\<rparr>"

definition ex_gnmi_jctx :: JCtx where
  "ex_gnmi_jctx = ex_idb_jctx\<lparr>receivedSyncRsp := True\<rparr>"

theorem gnmiHandleResponse_delivers_witness:
  "\<exists>jctx' ms pt. gnmiHandleResponse zeroFlags plain_lib ex_pb 5 ex_gnmi_jctx ex_rsp = Inr (None, jctx', ms) \<and>
     batchWCh (influxCtx jctx') = Some [[pt]] \<and> pt_name pt = ''/interfaces/interface/'' \<and>
     mget (pt_fields pt) ''/interfaces/interface/tags'' = Some (VString ''a,b'')"
proof -
  let ?n = "the (r_Update ex_rsp)"
  have h: "influxClient (influxCtx ex_gnmi_jctx)" "\<not> i_WritePerMeasurement (Influx (config ex_gnmi_jctx))"
    "batchWCh (influxCtx ex_gnmi_jctx) = Some []" "receivedSyncRsp ex_gnmi_jctx \<or> eosEnabled ex_gnmi_jctx"
    "True = (\<not> v_RemoveNS (Vendor (config ex_gnmi_jctx)))" "False = EnableUintSupport (config ex_gnmi_jctx)"
    by (simp_all add: ex_gnmi_jctx_def ex_idb_jctx_def zero_defs)
  have s: "takes_scalars plain_valid" by (simp add: takes_scalars_def plain_valid_def)
  have p: "plain_response False ex_rsp ?n" by code_simp
  have v: "\<forall>(k, v) \<in> set (notif_values True False ?n). plain_valid k (joinLeaflist v)" by code_simp
  have t: "prefix_text True (n_Prefix ?n) = ''/interfaces/interface''" by code_simp
  have r: "\<not> reserved ''/interfaces/interface'' ''/interfaces/interface/tags''" by code_simp
  have x: "map_option joinLeaflist (map_of (rev (notif_values True False ?n)) ''/interfaces/interface/tags'') = Some (VString ''a,b'')"
    by code_simp
  from gnmiHandleResponse_delivers [OF plain_lib_ok s h(1-6) p v, of zeroFlags ex_pb 5]
  obtain jctx' ms pt where "gnmiHandleResponse zeroFlags plain_lib ex_pb 5 ex_gnmi_jctx ex_rsp = Inr (None, jctx', ms)"
    "batchWCh (influxCtx jctx') = Some ([] @ [[pt]])" "pt_name pt = prefix_text True (n_Prefix ?n) @ ''/''"
    "\<forall>x. \<not> reserved (prefix_text True (n_Prefix ?n)) x \<longrightarrow>
       mget (pt_fields pt) x = map_option joinLeaflist (map_of (rev (notif_values True False ?n)) x)" by blast
  with r x show ?thesis unfolding t by auto
qed

text \<open>
  The initial synchronisation: a response dropped because of it leaves the writer's channels and the exporter
  alone, and this happens only while no synchronisation response has been received and end-of-sync markers are not
  requested; once the synchronisation response has been received it is not forgotten, so that no
  later response of the stream is dropped for this reason.
\<close>

theorem gnmiHandleResponse_sync:
  assumes "gnmiHandleResponse fl lib pb now jctx rsp = Inr (err, jctx', ms)"
  shows "(err = Some DroppedSync \<longrightarrow>
      influxCtx jctx' = influxCtx jctx \<and> ms = [] \<and> \<not> receivedSyncRsp jctx \<and> \<not> eosEnabled jctx) \<and>
    (receivedSyncRsp jctx' \<longleftrightarrow> receivedSyncRsp jctx \<or> r_SyncResponse rsp)"
proof -
  have "influxCtx jctx' = influxCtx jctx \<and> ms = [] \<and> \<not> receivedSyncRsp jctx \<and> \<not> eosEnabled jctx" if "err = Some DroppedSync"
    using assms
  proof (cases rule: gnmiHandle_cases)
    case (parsed po)
    then show ?thesis using that gnmiDeliver_dropped [of fl lib now "updateStatsKV fl (updateStats fl jctx) (inKvs po)" po jctx' ms] by auto
  qed (use that in simp_all)
  with gnmiHandle_frame [OF assms] show ?thesis by blast
qed

theorem gnmiHandleResponse_sync_witness:
  "gnmiHandleResponse zeroFlags plain_lib ex_pb 5 ex_idb_jctx ex_rsp = Inr (Some DroppedSync, ex_idb_jctx, []) \<and>
   \<not> receivedSyncRsp ex_idb_jctx \<and> \<not> eosEnabled ex_idb_jctx"
proof -
  have h: "gnmiHandleResponse zeroFlags plain_lib ex_pb 5 ex_idb_jctx ex_rsp = Inr (Some DroppedSync, ex_idb_jctx, [])"
    by code_simp
  from gnmiHandleResponse_sync [OF h] h show ?thesis by blast
qed

text \<open>
  The gNMI subscription never returns the code for a failed RPC that must not be retried, whatever error the
  device answers with: the code looks at the status of the wrong error. It reports a completed ONCE subscription only in
  the mode ONCE and after the synchronisation response.
\<close>

theorem subscribegNMI_codes:
  assumes "subscribegNMI fl lib pb now net jctx cfg paths = Inr (Some rc, jctx', ms)"
  shows "rc \<noteq> SubRcRPCFailedNoRetry \<and>
    (rc = SubRcOnceComplete \<longrightarrow> (\<exists>g. v_Gnmi (Vendor cfg) = Some g \<and> gc_Mode g = 1) \<and> receivedSyncRsp jctx')"
proof -
  from assms obtain req where req: "gnmiRequest jctx cfg paths = Inr req" by (auto simp: subscribegNMI_def bindR_Inr_iff)
  show ?thesis
  proof (cases req)
    case (Inl e)
    with assms req show ?thesis by (auto simp: subscribegNMI_def)
  next
    case (Inr subs)
    show ?thesis
    proof (cases "gn_subscribe_ok net \<and> gn_send_ok net")
      case True
      with assms req Inr have r: "gnmiReceive fl lib pb now (sl_Mode subs) jctx [] (gn_events net) = Inr (Some rc, jctx', ms)"
        by (simp add: subscribegNMI_def)
      have "\<exists>g. v_Gnmi (Vendor cfg) = Some g \<and> gc_Mode g = sl_Mode subs"
        using req Inr by (auto simp: gnmiRequest_def bindR_Inr_iff split: option.splits)
      with gnmiReceive_codes [OF r] show ?thesis by auto
    next
      case False
      with assms req Inr show ?thesis by (auto simp: subscribegNMI_def)
    qed
  qed
qed

definition ex_gnmi_cfg :: Config where
  "ex_gnmi_cfg = zeroConfig\<lparr>Vendor := (Vendor zeroConfig)\<lparr>v_Gnmi := Some \<lparr>gc_Encoding = [], gc_Mode = 1\<rparr>\<rparr>\<rparr>"

theorem subscribegNMI_codes_witness:
  "subscribegNMI zeroFlags plain_lib ex_pb 5 \<lparr>gn_subscribe_ok = True, gn_send_ok = True, gn_events = [RecvError Unimplemented]\<rparr>
     ex_gnmi_jctx ex_gnmi_cfg [] = Inr (Some SubRcConnRetry, ex_gnmi_jctx, []) \<and> SubRcConnRetry \<noteq> SubRcRPCFailedNoRetry"
proof -
  have h: "subscribegNMI zeroFlags plain_lib ex_pb 5 \<lparr>gn_subscribe_ok = True, gn_send_ok = True, gn_events = [RecvError Unimplemented]\<rparr>
     ex_gnmi_jctx ex_gnmi_cfg [] = Inr (Some SubRcConnRetry, ex_gnmi_jctx, [])" by code_simp
  from subscribegNMI_codes [OF h] h show ?thesis by blast
qed

text \<open>
  C40. With a goroutine per response there is a schedule in which every goroutine has run, and one of two responses
  was handled twice and the other never.
\<close>

theorem gstep_loses_response:
  "gstep\<^sup>*\<^sup>* ginit \<lparr>gs_rsp = Some r2, gs_pending = 0, gs_handled = [r2, r2]\<rparr> \<and>
   (\<exists>s. gstep ginit s \<and> gs_rsp s = Some r1 \<and> gstep\<^sup>*\<^sup>* s \<lparr>gs_rsp = Some r2, gs_pending = 0, gs_handled = [r2, r2]\<rparr>)"
proof -
  let ?s1 = "\<lparr>gs_rsp = Some r1, gs_pending = 1, gs_handled = []\<rparr>"
  have a: "gstep ginit ?s1" using g_recv [of ginit r1] by (simp add: ginit_def)
  have b: "gstep ?s1 \<lparr>gs_rsp = Some r2, gs_pending = 2, gs_handled = []\<rparr>" using g_recv [of ?s1 r2] by (simp add: numeral_2_eq_2)
  have c: "gstep \<lparr>gs_rsp = Some r2, gs_pending = 2, gs_handled = []\<rparr> \<lparr>gs_rsp = Some r2, gs_pending = 1, gs_handled = [r2]\<rparr>"
    using g_run [of "\<lparr>gs_rsp = Some r2, gs_pending = 2, gs_handled = []\<rparr>" 1 r2] by simp
  have d: "gstep \<lparr>gs_rsp = Some r2, gs_pending = 1, gs_handled = [r2]\<rparr> \<lparr>gs_rsp = Some r2, gs_pending = 0, gs_handled = [r2, r2]\<rparr>"
    using g_run [of "\<lparr>gs_rsp = Some r2, gs_pending = 1, gs_handled = [r2]\<rparr>" 0 r2] by simp
  from b c d have "gstep\<^sup>*\<^sup>* ?s1 \<lparr>gs_rsp = Some r2, gs_pending = 0, gs_handled = [r2, r2]\<rparr>"
    by (meson converse_rtranclp_into_rtranclp rtranclp.rtrancl_refl)
  with a show ?thesis by (meson converse_rtranclp_into_rtranclp gstate.select_convs(1))
qed

end
