(* ===== verification/Configuration.thy ===== *)
theory Configuration
  imports Influx
begin

text \<open>
  Reading and changing the configuration: config.go, the log set-up of logs.go, internal_jtimon.go and statshandler.go,
  the initialisation of InfluxDB (influx.go) and of Kafka (kafka-publish.go).

  What the functions see of the world is the record \<open>env\<close>: the configuration that a JSON file decodes to (\<^term>\<open>None\<close>
  when it cannot be read or decoded), the file list, which files can be opened for writing, the output of the
  password decoder, whether the database address resolves at the first and at the second call, which Kafka versions
  parse, which files hold certificates and key pairs, and whether a Kafka producer can be made for given brokers and
  settings. A fatal log ends the process and is the panic \<open>FatalExit\<close>.
\<close>

text \<open>The settings of the Kafka client that \<open>KafkaConnect\<close> makes; \<^term>\<open>None\<close> is the default of the client.\<close>

record sarama_tls =
  st_InsecureSkipVerify :: bool
  st_RootCAs :: "string option"
  st_Certificate :: "(string \<times> string) option"

record sarama_config =
  sc_Version :: "string option"
  sc_ClientID :: string
  sc_RequiredAcks :: int
  sc_Compression :: int
  sc_RetryMax :: int
  sc_ReturnSuccesses :: bool
  sc_MaxMessageBytes :: "int option"
  sc_TLS :: "sarama_tls option"
  sc_SASL :: "(string \<times> string) option"

record env =
  env_config :: "string \<Rightarrow> Config option"
  env_filelist :: "string \<Rightarrow> string list option"
  env_open :: "string \<Rightarrow> bool"
  env_decoder :: "string \<Rightarrow> string \<Rightarrow> string option"
  env_influx1 :: bool
  env_influx2 :: bool
  env_kafkaVersion :: "string \<Rightarrow> bool"
  env_pem :: "string \<Rightarrow> bool"
  env_keyPair :: "string \<Rightarrow> string \<Rightarrow> bool"
  env_producer :: "string list \<Rightarrow> sarama_config \<Rightarrow> bool"
  env_alias :: "string \<Rightarrow> string option"


section \<open>Defaults, files, password\<close>

definition fillupDefaults :: "Config \<Rightarrow> Config" where
  "fillupDefaults c =
     (let g = GRPC c; i = Influx c
      in c\<lparr>GRPC := g\<lparr>g_WS := (if g_WS g = 0 then 1048576 else g_WS g)\<rparr>,
           Influx := i\<lparr>
             i_BatchFrequency := (if i_BatchFrequency i = 0 then 2000 else i_BatchFrequency i),
             i_BatchSize := (if i_BatchSize i = 0 then 102400 else i_BatchSize i),
             i_HTTPTimeout := (if i_HTTPTimeout i = 0 then 30 else i_HTTPTimeout i),
             i_AccumulatorFrequency := (if i_AccumulatorFrequency i = 0 then 2000 else i_AccumulatorFrequency i)\<rparr>\<rparr>)"

definition ParseJSON :: "env \<Rightarrow> string \<Rightarrow> Config option" where
  "ParseJSON e f = map_option fillupDefaults (env_config e f)"

definition NewJTIMONConfig :: "env \<Rightarrow> string \<Rightarrow> Config option" where
  "NewJTIMONConfig e f = ParseJSON e f"

definition ParseJSONConfigFileList :: "env \<Rightarrow> string \<Rightarrow> string list option" where
  "ParseJSONConfigFileList e f = env_filelist e f"

definition NewJTIMONConfigFilelist :: "env \<Rightarrow> string \<Rightarrow> string list option" where
  "NewJTIMONConfigFilelist e f = ParseJSONConfigFileList e f"

text \<open>The files to run with; \<^term>\<open>None\<close> is an error.\<close>

definition GetConfigFiles :: "env \<Rightarrow> string list \<Rightarrow> string \<Rightarrow> string list option" where
  "GetConfigFiles e cfgFile cfgFileList =
     (if length cfgFileList \<noteq> 0 then
        (case NewJTIMONConfigFilelist e cfgFileList of
           None \<Rightarrow> None
         | Some fs \<Rightarrow> if length fs = 0 then None else Some fs)
      else if length cfgFile = 0 then None else Some cfgFile)"

definition DecodePassword :: "env \<Rightarrow> JCtx \<Rightarrow> Config \<Rightarrow> string go" where
  "DecodePassword e jctx c =
     (if 0 < length (PasswordDecoder c) then
        (case env_decoder e (PasswordDecoder c) (jfile jctx) of None \<Rightarrow> Inl FatalExit | Some out \<Rightarrow> Inr out)
      else Inr (Password c))"

definition StringInSlice :: "string \<Rightarrow> string list \<Rightarrow> bool" where
  "StringInSlice a xs = list_ex (\<lambda>b. b = a) xs"


section \<open>Logs\<close>

definition logStop :: "JCtx \<Rightarrow> JCtx" where
  "logStop jctx =
     (if l_out (Log (config jctx)) \<noteq> None then upd_log (\<lambda>l. l\<lparr>l_out := None, l_logger := None\<rparr>) jctx else jctx)"

definition logInit :: "env \<Rightarrow> Flags \<Rightarrow> JCtx \<Rightarrow> JCtx" where
  "logInit e fl jctx =
     (if f_logMux fl then jctx
      else
        let f = l_File (Log (config jctx));
            out = (if f_print fl then Some Stdout
                   else if f \<noteq> [] \<and> env_open e f then Some (File f) else None)
        in case out of
             None \<Rightarrow> jctx
           | Some h \<Rightarrow> upd_log (\<lambda>l. l\<lparr>l_logger := Some h, l_out := Some h\<rparr>) jctx)"

definition isCsvStatsEnabled :: "Flags \<Rightarrow> JCtx \<Rightarrow> bool" where
  "isCsvStatsEnabled fl jctx = (f_statsHandler fl \<and> ij_CsvLog (InternalJtimon (config jctx)) \<noteq> [])"

definition csvStatsLogInit :: "env \<Rightarrow> Flags \<Rightarrow> JCtx \<Rightarrow> JCtx" where
  "csvStatsLogInit e fl jctx =
     (if \<not> f_statsHandler fl \<and> ij_CsvLog (InternalJtimon (config jctx)) = [] then jctx
      else
        let j1 = (if ij_CsvLog (InternalJtimon (config jctx)) = []
                  then upd_internal (\<lambda>i. i\<lparr>ij_CsvLog := ''csv-stats.csv''\<rparr>) jctx else jctx);
            f = ij_CsvLog (InternalJtimon (config j1))
        in if env_open e f then upd_internal (\<lambda>i. i\<lparr>ij_csvLogger := Some (File f), ij_csvOut := Some (File f)\<rparr>) j1 else j1)"

definition csvStatsLogStop :: "JCtx \<Rightarrow> JCtx" where
  "csvStatsLogStop jctx =
     (if ij_csvOut (InternalJtimon (config jctx)) \<noteq> None
      then upd_internal (\<lambda>i. i\<lparr>ij_csvOut := None, ij_csvLogger := None\<rparr>) jctx else jctx)"

definition internalJtimonLogInit :: "env \<Rightarrow> Flags \<Rightarrow> JCtx \<Rightarrow> JCtx" where
  "internalJtimonLogInit e fl jctx =
     (let d = ij_DataLog (InternalJtimon (config jctx)); p = d @ ''_pre-gnmi'';
          j1 = (if d \<noteq> [] \<and> env_open e d
                then upd_internal (\<lambda>i. i\<lparr>ij_logger := Some (File d), ij_out := Some (File d)\<rparr>) jctx else jctx);
          j2 = (if d \<noteq> [] \<and> env_open e p
                then upd_internal (\<lambda>i. i\<lparr>ij_preGnmiLogger := Some (File p), ij_preGnmiOut := Some (File p)\<rparr>) j1 else j1)
      in if f_statsHandler fl \<and> ij_CsvLog (InternalJtimon (config j2)) \<noteq> [] then csvStatsLogInit e fl j2 else j2)"

definition internalJtimonLogStop :: "Flags \<Rightarrow> JCtx \<Rightarrow> JCtx" where
  "internalJtimonLogStop fl jctx =
     (let j1 = (if ij_out (InternalJtimon (config jctx)) \<noteq> None
                then upd_internal (\<lambda>i. i\<lparr>ij_out := None, ij_logger := None\<rparr>) jctx else jctx);
          j2 = (if ij_preGnmiOut (InternalJtimon (config j1)) \<noteq> None
                then upd_internal (\<lambda>i. i\<lparr>ij_preGnmiOut := None, ij_preGnmiLogger := None\<rparr>) j1 else j1)
      in if f_statsHandler fl \<and> ij_CsvLog (InternalJtimon (config j2)) \<noteq> [] then csvStatsLogStop j2 else j2)"

definition initInternalJtimon :: "JCtx \<Rightarrow> JCtx" where
  "initInternalJtimon jctx =
     (let j1 = (if \<not> ij_GnmiEOS (InternalJtimon (config jctx))
                then upd_internal (\<lambda>i. i\<lparr>ij_GnmiEOS := EOS (config jctx)\<rparr>) jctx else jctx)
      in if \<not> ij_PreGnmiEOS (InternalJtimon (config j1))
         then upd_internal (\<lambda>i. i\<lparr>ij_PreGnmiEOS := EOS (config j1)\<rparr>) j1 else j1)"


section \<open>InfluxDB and Kafka\<close>

definition getInfluxClient :: "bool \<Rightarrow> Config \<Rightarrow> bool" where
  "getInfluxClient resolves cfg = (if i_Server (Influx cfg) = [] then False else resolves)"

text \<open>The queries that drop and create the database go to the database and are not part of the state.\<close>

definition influxInit :: "env \<Rightarrow> JCtx \<Rightarrow> JCtx go" where
  "influxInit e jctx =
     (let cfg = config jctx;
          c = getInfluxClient (env_influx1 e) cfg;
          j1 = upd_influx (\<lambda>i. i\<lparr>influxClient := getInfluxClient (env_influx2 e) cfg, reCompiled := True\<rparr>) jctx
      in if i_Server (Influx cfg) \<noteq> [] \<and> c then
           bindR (if i_WritePerMeasurement (Influx cfg) then dbBatchWriteM j1 else dbBatchWrite j1) (\<lambda>j2.
             Inr (pointAcculumator j2))
         else Inr j1)"

text \<open>The certificates of all the files, or an error at the first that cannot be read or has none.\<close>

definition getCertPool :: "env \<Rightarrow> string list \<Rightarrow> bool" where
  "getCertPool e certFiles = list_all (env_pem e) certFiles"

definition loadCert :: "env \<Rightarrow> sarama_tls \<Rightarrow> string \<Rightarrow> string \<Rightarrow> sarama_tls option" where
  "loadCert e t certFile keyFile =
     (if env_keyPair e certFile keyFile then Some (t\<lparr>st_Certificate := Some (certFile, keyFile)\<rparr>) else None)"

text \<open>The TLS part of \<open>KafkaConnect\<close>: \<^term>\<open>None\<close> is an error, \<^term>\<open>Some None\<close> no TLS.\<close>

definition kafkaTLS :: "env \<Rightarrow> KafkaConfig \<Rightarrow> sarama_tls option option" where
  "kafkaTLS e k =
     (if k_TLSCert k = [] then Some None
      else if k_TLSCA k \<noteq> [] \<and> \<not> getCertPool e [k_TLSCA k] then None
      else
        let t = \<lparr>st_InsecureSkipVerify = k_InsecureSkipVerify k,
                 st_RootCAs = (if k_TLSCA k \<noteq> [] then Some (k_TLSCA k) else None), st_Certificate = None\<rparr>
        in if k_TLSKey k \<noteq> [] then map_option Some (loadCert e t (k_TLSCert k) (k_TLSKey k)) else Some (Some t))"

text \<open>
  The producer is the list of the messages handed to it; \<^term>\<open>None\<close> is nil. A version that does not parse, a bad
  certificate or a producer that cannot be made are errors.
\<close>

definition KafkaConnect :: "env \<Rightarrow> KafkaConfig \<Rightarrow> KafkaConfig option" where
  "KafkaConnect e k =
     (if k_Version k \<noteq> [] \<and> \<not> env_kafkaVersion e (k_Version k) then None
      else
        case kafkaTLS e k of
          None \<Rightarrow> None
        | Some tls \<Rightarrow>
            let c = \<lparr>sc_Version = (if k_Version k \<noteq> [] then Some (k_Version k) else None),
                     sc_ClientID = (if k_ClientID k \<noteq> [] then k_ClientID k else ''JTIMON''),
                     sc_RequiredAcks = k_RequiredAcks k, sc_Compression = k_CompressionCodec k, sc_RetryMax = k_MaxRetry k,
                     sc_ReturnSuccesses = True,
                     sc_MaxMessageBytes = (if k_MaxMessageBytes k > 0 then Some (k_MaxMessageBytes k) else None),
                     sc_TLS = tls,
                     sc_SASL = (if k_SASLUser k \<noteq> [] \<and> k_SASLPass k \<noteq> [] then Some (k_SASLUser k, k_SASLPass k) else None)\<rparr>
            in if env_producer e (k_Brokers k) c then Some (k\<lparr>k_producer := Some []\<rparr>) else None)"

definition KafkaInit :: "env \<Rightarrow> Flags \<Rightarrow> JCtx \<Rightarrow> JCtx" where
  "KafkaInit e fl jctx =
     (let start = (case Kafka (config jctx) of
                     Some k \<Rightarrow> Some k
                   | None \<Rightarrow> if \<not> f_dialOut fl then None else Some (zeroKafka\<lparr>k_Brokers := go_split (f_kafkaBroker fl) '',''\<rparr>))
      in case start of
           None \<Rightarrow> jctx
         | Some k \<Rightarrow>
             upd_config (\<lambda>c. c\<lparr>Kafka := Some (case KafkaConnect e k of Some k' \<Rightarrow> k' | None \<Rightarrow> k)\<rparr>) jctx)"

text \<open>A message sent with the producer; nothing without a producer. The topic is the configured one or \<open>healthbot\<close>.\<close>

definition addKafka :: "string \<Rightarrow> JCtx \<Rightarrow> JCtx" where
  "addKafka payload jctx =
     (case Kafka (config jctx) of
        None \<Rightarrow> jctx
      | Some k \<Rightarrow>
          (case k_producer k of
             None \<Rightarrow> jctx
           | Some sent \<Rightarrow>
               let topic = (if k_Topic k \<noteq> [] then k_Topic k else ''healthbot'')
               in upd_config (\<lambda>c. c\<lparr>Kafka := Some (k\<lparr>k_producer := Some (sent @ [(topic, payload)])\<rparr>)\<rparr>) jctx))"


section \<open>Reading and changing\<close>

definition isConfigChanged :: "JCtx \<Rightarrow> Config \<Rightarrow> bool" where
  "isConfigChanged jctx new =
     (let old = config jctx
      in Host old \<noteq> Host new \<or> Port old \<noteq> Port new \<or> User old \<noteq> User new \<or> Password old \<noteq> Password new \<or>
         CID old \<noteq> CID new \<or> CAlias old \<noteq> CAlias new \<or> EOS old \<noteq> EOS new \<or> Meta old \<noteq> Meta new \<or>
         EnableUintSupport old \<noteq> EnableUintSupport new \<or> g_WS (GRPC old) \<noteq> g_WS (GRPC new) \<or>
         l_File (Log old) \<noteq> l_File (Log new) \<or>
         ij_DataLog (InternalJtimon old) \<noteq> ij_DataLog (InternalJtimon new) \<or>
         l_Verbose (Log old) \<noteq> l_Verbose (Log new) \<or> l_PeriodicStats (Log old) \<noteq> l_PeriodicStats (Log new) \<or>
         Paths old \<noteq> Paths new \<or> TLS old \<noteq> TLS new \<or> Vendor old \<noteq> Vendor new \<or> Influx old \<noteq> Influx new)"

text \<open>The context and whether a restart is asked for.\<close>

definition HandleConfigChange :: "env \<Rightarrow> Flags \<Rightarrow> JCtx \<Rightarrow> Config \<Rightarrow> (JCtx \<times> bool) go" where
  "HandleConfigChange e fl jctx c =
     bindR (DecodePassword e jctx c) (\<lambda>value.
       let new = c\<lparr>Password := value\<rparr>
       in if isConfigChanged jctx new then
            let j1 = internalJtimonLogStop fl (logStop jctx);
                j2 = j1\<lparr>config := new\<rparr>;
                j3 = initInternalJtimon (internalJtimonLogInit e fl (logInit e fl j2))
            in Inr (j3, True)
          else Inr (jctx, False))"

text \<open>
  \<open>ConfigRead\<close>: \<open>Inl\<close> inside is a returned error. The goroutine for the periodic statistics is not modelled.
\<close>

definition ConfigRead :: "env \<Rightarrow> Flags \<Rightarrow> JCtx \<Rightarrow> bool \<Rightarrow> (unit + JCtx \<times> bool) go" where
  "ConfigRead e fl jctx init =
     (case NewJTIMONConfig e (jfile jctx) of
        None \<Rightarrow> Inr (Inl ())
      | Some c \<Rightarrow>
          if init then
            let j1 = jctx\<lparr>config := c\<rparr>;
                j2 = initInternalJtimon (internalJtimonLogInit e fl (logInit e fl j1))
            in bindR (DecodePassword e j2 c) (\<lambda>value.
                 let j3 = (upd_config (\<lambda>d. d\<lparr>Password := value\<rparr>) j2)\<lparr>control_made := True\<rparr>
                 in bindR (influxInit e j3) (\<lambda>j4. Inr (Inr (KafkaInit e fl j4, False))))
          else
            bindR (HandleConfigChange e fl jctx c) (\<lambda>r. Inr (Inr r)))"

section \<open>What the log functions keep\<close>

text \<open>
  Two contexts agree on what \<open>isConfigChanged\<close> compares when their configurations do. The log functions only touch
  handles and the internal EOS and CSV settings, which are not compared.
\<close>

definition compared :: "Config \<Rightarrow> Config" where
  "compared c = zeroConfig\<lparr>Host := Host c, Port := Port c, User := User c, Password := Password c, CID := CID c,
     CAlias := CAlias c, EOS := EOS c, Meta := Meta c, EnableUintSupport := EnableUintSupport c,
     GRPC := (GRPC zeroConfig)\<lparr>g_WS := g_WS (GRPC c)\<rparr>,
     Log := (Log zeroConfig)\<lparr>l_File := l_File (Log c), l_Verbose := l_Verbose (Log c), l_PeriodicStats := l_PeriodicStats (Log c)\<rparr>,
     InternalJtimon := zeroInternal\<lparr>ij_DataLog := ij_DataLog (InternalJtimon c)\<rparr>,
     Paths := Paths c, TLS := TLS c, Vendor := Vendor c, Influx := Influx c\<rparr>"

lemma isConfigChanged_iff: "isConfigChanged jctx new \<longleftrightarrow> compared (config jctx) \<noteq> compared new"
  by (auto simp: isConfigChanged_def compared_def zero_defs Let_def)

definition keeps :: "(JCtx \<Rightarrow> JCtx) \<Rightarrow> bool" where
  "keeps f \<longleftrightarrow> (\<forall>j. compared (config (f j)) = compared (config j) \<and> jfile (f j) = jfile j \<and> jalias (f j) = jalias j
     \<and> influxCtx (f j) = influxCtx j \<and> Kafka (config (f j)) = Kafka (config j) \<and> PasswordDecoder (config (f j)) = PasswordDecoder (config j))"

named_theorems keeps_intros

lemma keepsD:
  assumes "keeps f"
  shows "compared (config (f j)) = compared (config j)" "jfile (f j) = jfile j" "jalias (f j) = jalias j"
    "Kafka (config (f j)) = Kafka (config j)" "PasswordDecoder (config (f j)) = PasswordDecoder (config j)"
    "influxCtx (f j) = influxCtx j"
  using assms by (simp_all add: keeps_def)

lemma keeps_logStop [keeps_intros]: "keeps logStop"
  by (simp add: keeps_def logStop_def upd_defs compared_def)

lemma keeps_logInit [keeps_intros]: "keeps (logInit e fl)"
  by (simp add: keeps_def logInit_def upd_defs compared_def Let_def split: option.split)

lemma keeps_csvStatsLogInit [keeps_intros]: "keeps (csvStatsLogInit e fl)"
  by (simp add: keeps_def csvStatsLogInit_def upd_defs compared_def Let_def)

lemma keeps_csvStatsLogStop [keeps_intros]: "keeps csvStatsLogStop"
  by (simp add: keeps_def csvStatsLogStop_def upd_defs compared_def)

lemma keeps_internalInit [keeps_intros]: "keeps (internalJtimonLogInit e fl)"
  using keepsD[OF keeps_csvStatsLogInit]
  by (simp add: keeps_def internalJtimonLogInit_def Let_def) (simp add: upd_defs compared_def)

lemma keeps_internalStop [keeps_intros]: "keeps (internalJtimonLogStop fl)"
  using keepsD[OF keeps_csvStatsLogStop]
  by (simp add: keeps_def internalJtimonLogStop_def Let_def) (simp add: upd_defs compared_def)

lemma keeps_initInternal [keeps_intros]: "keeps initInternalJtimon"
  by (simp add: keeps_def initInternalJtimon_def upd_defs compared_def Let_def)

lemmas keeps_simps = keeps_intros[THEN keepsD(1)] keeps_intros[THEN keepsD(2)] keeps_intros[THEN keepsD(3)]
  keeps_intros[THEN keepsD(4)] keeps_intros[THEN keepsD(5)] keeps_intros[THEN keepsD(6)]


lemma dbBatchWrite_config:
  "dbBatchWrite j = Inr j' \<Longrightarrow> config j' = config j \<and> jfile j' = jfile j"
  "dbBatchWriteM j = Inr j' \<Longrightarrow> config j' = config j \<and> jfile j' = jfile j"
  by (auto simp: dbBatchWrite_def dbBatchWriteM_def upd_defs split: if_splits)

lemma influxInit_config:
  "influxInit e j = Inr j' \<Longrightarrow> config j' = config j \<and> jfile j' = jfile j"
  by (auto simp: influxInit_def Let_def bindR_Inr_iff pointAcculumator_def upd_defs split: if_splits dest!: dbBatchWrite_config)

lemma KafkaInit_keeps:
  "compared (config (KafkaInit e fl j)) = compared (config j) \<and> jfile (KafkaInit e fl j) = jfile j"
  by (auto simp: KafkaInit_def upd_defs compared_def Let_def split: option.split)

lemma compared_eqD:
  "compared c = compared d \<Longrightarrow> Host c = Host d \<and> Paths c = Paths d \<and> Influx c = Influx d \<and> Vendor c = Vendor d"
  by (simp add: compared_def zero_defs)

lemma compared_password: "compared (c\<lparr>Password := v\<rparr>) = (compared c)\<lparr>Password := v\<rparr>"
  by (simp add: compared_def)

lemma DecodePassword_file: "jfile j = jfile j' \<Longrightarrow> DecodePassword e j c = DecodePassword e j' c"
  by (simp add: DecodePassword_def)

text \<open>A context is up to date when it agrees with what its file decodes to.\<close>

definition up_to_date :: "env \<Rightarrow> JCtx \<Rightarrow> bool" where
  "up_to_date e j \<longleftrightarrow> (\<exists>c v. NewJTIMONConfig e (jfile j) = Some c \<and> DecodePassword e j c = Inr v
     \<and> compared (config j) = compared (c\<lparr>Password := v\<rparr>))"

lemma up_to_date_stable: "up_to_date e j \<Longrightarrow> ConfigRead e fl j False = Inr (Inr (j, False))"
  by (auto simp: up_to_date_def ConfigRead_def HandleConfigChange_def isConfigChanged_iff Let_def)

lemma HandleConfigChange_up_to_date:
  assumes "NewJTIMONConfig e (jfile j) = Some c" "HandleConfigChange e fl j c = Inr (j', r)"
  shows "up_to_date e j'"
proof -
  obtain v where v: "DecodePassword e j c = Inr v"
    using assms(2) by (auto simp: HandleConfigChange_def bindR_Inr_iff)
  have "jfile j' = jfile j \<and> compared (config j') = compared (c\<lparr>Password := v\<rparr>)"
    using assms(2) v
    by (auto simp: HandleConfigChange_def Let_def isConfigChanged_iff keeps_simps split: if_splits)
  thus ?thesis
    using assms(1) v DecodePassword_file[of j' j] by (auto simp: up_to_date_def)
qed

lemma ConfigRead_init_up_to_date:
  assumes "ConfigRead e fl j True = Inr (Inr (j', r))"
  shows "up_to_date e j'"
proof -
  obtain c where c: "NewJTIMONConfig e (jfile j) = Some c"
    using assms by (auto simp: ConfigRead_def split: option.splits)
  define j2 where "j2 = initInternalJtimon (internalJtimonLogInit e fl (logInit e fl (j\<lparr>config := c\<rparr>)))"
  have j2: "jfile j2 = jfile j" "compared (config j2) = compared c"
    by (simp_all add: j2_def keeps_simps)
  obtain v j4 where v: "DecodePassword e j2 c = Inr v"
    and j4: "influxInit e ((upd_config (\<lambda>d. d\<lparr>Password := v\<rparr>) j2)\<lparr>control_made := True\<rparr>) = Inr j4"
    and j': "j' = KafkaInit e fl j4"
    using assms c by (auto simp: ConfigRead_def Let_def bindR_Inr_iff simp flip: j2_def)
  have f: "jfile j' = jfile j" and "compared (config j') = compared (c\<lparr>Password := v\<rparr>)"
    using influxInit_config[OF j4] KafkaInit_keeps[of e fl j4] j2 j'
    by (simp_all add: upd_config_def compared_password)
  thus ?thesis
    using c v j2(1) DecodePassword_file[of j' j2] by (auto simp: up_to_date_def)
qed


section \<open>Properties\<close>

text \<open>
  C33. Reading the configuration settles: after a read that returns without error, at start up or upon SIGHUP, changed or
  not, a further SIGHUP with the same file leaves the context as it is and asks for no restart of the stream.
\<close>

theorem ConfigRead_settles:
  assumes "ConfigRead e fl j init = Inr (Inr (j', restart))"
  shows "ConfigRead e fl j' False = Inr (Inr (j', False))"
proof (rule up_to_date_stable, cases init)
  case True
  thus "up_to_date e j'" using assms ConfigRead_init_up_to_date[of e fl j] by simp
next
  case False
  thus "up_to_date e j'"
    using assms HandleConfigChange_up_to_date by (auto simp: ConfigRead_def bindR_Inr_iff split: option.splits)
qed

definition ex_env :: "Config \<Rightarrow> env" where
  "ex_env c = \<lparr>env_config = (\<lambda>f. if f = ''r1.json'' then Some c else None), env_filelist = (\<lambda>_. Some [''r1.json'']),
     env_open = (\<lambda>_. True), env_decoder = (\<lambda>_ _. Some ''secret''), env_influx1 = True, env_influx2 = True,
     env_kafkaVersion = (\<lambda>_. True), env_pem = (\<lambda>_. True), env_keyPair = (\<lambda>_ _. True), env_producer = (\<lambda>_ _. True),
     env_alias = (\<lambda>_. None)\<rparr>"

definition ex_cfg :: Config where
  "ex_cfg = zeroConfig\<lparr>Host := ''r1'', Port := 50051, User := ''u'', Password := ''p'',
     Kafka := Some (zeroKafka\<lparr>k_Brokers := [''kafka:9092'']\<rparr>)\<rparr>"

definition ex_start :: JCtx where
  "ex_start = zeroJCtx\<lparr>jfile := ''r1.json''\<rparr>"

definition ex_running :: JCtx where
  "ex_running = (case ConfigRead (ex_env ex_cfg) zeroFlags ex_start True of Inr (Inr (j, _)) \<Rightarrow> j | _ \<Rightarrow> zeroJCtx)"

lemmas ex_config_defs = ex_env_def ex_cfg_def ex_start_def ConfigRead_def NewJTIMONConfig_def ParseJSON_def fillupDefaults_def
  logInit_def internalJtimonLogInit_def initInternalJtimon_def csvStatsLogInit_def csvStatsLogStop_def logStop_def
  internalJtimonLogStop_def DecodePassword_def influxInit_def KafkaInit_def KafkaConnect_def kafkaTLS_def HandleConfigChange_def
  getInfluxClient_def isConfigChanged_def addKafka_def Let_def

lemma ex_init: "ConfigRead (ex_env ex_cfg) zeroFlags ex_start True = Inr (Inr (ex_running, False))"
  by (simp add: ex_running_def ex_config_defs zero_defs upd_defs)

lemma ConfigRead_settles_witness:
  "ConfigRead (ex_env ex_cfg) zeroFlags ex_running False = Inr (Inr (ex_running, False))"
  by (rule ConfigRead_settles[OF ex_init])

text \<open>
  A SIGHUP that finds a changed configuration asks for a restart, takes over what it compares, closes and reopens the
  logs, and loses the Kafka producer: the producer is a field of the replaced configuration, it is not in the JSON file,
  and only the first read makes one. Nothing is sent to Kafka from then on. The alias table and the InfluxDB client with its
  channels stay the old ones as well, also when the alias file or the database of the configuration changed.
\<close>

theorem HandleConfigChange_kafka_lost:
  assumes "\<forall>k. Kafka c = Some k \<longrightarrow> k_producer k = None"
    and "HandleConfigChange e fl j c = Inr (j', True)"
  shows "Host (config j') = Host c \<and> Paths (config j') = Paths c \<and> Influx (config j') = Influx c \<and>
    Vendor (config j') = Vendor c \<and> jalias j' = jalias j \<and> influxCtx j' = influxCtx j \<and> addKafka payload j' = j'"
proof -
  obtain v where v: "compared (config j') = compared (c\<lparr>Password := v\<rparr>)" "Kafka (config j') = Kafka c" "jalias j' = jalias j"
      "influxCtx j' = influxCtx j"
    using assms(2) by (auto simp: HandleConfigChange_def Let_def bindR_Inr_iff keeps_simps split: if_splits)
  have "addKafka payload j' = j'"
    using v(2) assms(1) by (auto simp: addKafka_def split: option.split)
  thus ?thesis
    using compared_eqD[OF v(1)] v(3,4) by simp
qed

definition ex_cfg2 :: Config where
  "ex_cfg2 = fillupDefaults (ex_cfg\<lparr>Host := ''r2''\<rparr>)"

definition ex_changed :: JCtx where
  "ex_changed = (case HandleConfigChange (ex_env ex_cfg) zeroFlags ex_running ex_cfg2 of Inr (j, _) \<Rightarrow> j | _ \<Rightarrow> zeroJCtx)"

lemma ex_change: "HandleConfigChange (ex_env ex_cfg) zeroFlags ex_running ex_cfg2 = Inr (ex_changed, True)"
  by (simp add: ex_changed_def ex_cfg2_def ex_running_def ex_config_defs zero_defs upd_defs)

lemma HandleConfigChange_kafka_lost_witness:
  "addKafka ''m'' ex_running \<noteq> ex_running \<and> Host (config ex_changed) = ''r2'' \<and> addKafka ''m'' ex_changed = ex_changed"
proof -
  have "addKafka ''m'' ex_running \<noteq> ex_running"
    by (simp add: ex_running_def ex_config_defs zero_defs upd_defs)
  moreover have k: "\<forall>k. Kafka ex_cfg2 = Some k \<longrightarrow> k_producer k = None" and "Host ex_cfg2 = ''r2''"
    by (simp_all add: ex_cfg2_def ex_cfg_def fillupDefaults_def zero_defs Let_def)
  ultimately show ?thesis
    using HandleConfigChange_kafka_lost[OF k ex_change, of "''m''"] by simp
qed

text \<open>
  A SIGHUP does not notice a change of the Kafka section, of the tunnel server, of the CSV log, or of the password
  decoder when it yields the same password: the running context stays as it is, and no restart is asked for.
\<close>

theorem ConfigRead_unnoticed:
  assumes "env_config e (jfile j) = Some c" "up_to_date e j"
    and "env_config e' (jfile j) = Some C"
    and "C = c\<lparr>Kafka := k, GRPC := (GRPC c)\<lparr>g_TunnelServer := t\<rparr>,
          InternalJtimon := (InternalJtimon c)\<lparr>ij_CsvLog := csv\<rparr>, PasswordDecoder := d\<rparr>"
    and "DecodePassword e' j C = DecodePassword e j c"
  shows "ConfigRead e' fl j False = Inr (Inr (j, False))"
proof (rule up_to_date_stable)
  have DP: "DecodePassword e' j (fillupDefaults C) = DecodePassword e' j C" "DecodePassword e j (fillupDefaults c) = DecodePassword e j c"
    by (simp_all add: DecodePassword_def fillupDefaults_def Let_def)
  have cmp: "compared ((fillupDefaults C)\<lparr>Password := v\<rparr>) = compared ((fillupDefaults c)\<lparr>Password := v\<rparr>)" for v
    by (simp add: assms(4) compared_def fillupDefaults_def Let_def)
  obtain v where "DecodePassword e j (fillupDefaults c) = Inr v"
      "compared (config j) = compared ((fillupDefaults c)\<lparr>Password := v\<rparr>)"
    using assms(1,2) by (auto simp: up_to_date_def NewJTIMONConfig_def ParseJSON_def)
  thus "up_to_date e' j"
    using assms(3,5) DP cmp by (auto simp: up_to_date_def NewJTIMONConfig_def ParseJSON_def)
qed

definition ex_cfg3 :: Config where
  "ex_cfg3 = ex_cfg\<lparr>Kafka := Some (zeroKafka\<lparr>k_Brokers := [''other:9092'']\<rparr>)\<rparr>"

lemma ConfigRead_unnoticed_witness:
  "ConfigRead (ex_env ex_cfg3) zeroFlags ex_running False = Inr (Inr (ex_running, False))"
proof (rule ConfigRead_unnoticed[where e = "ex_env ex_cfg" and c = ex_cfg and C = ex_cfg3
      and t = "g_TunnelServer (GRPC ex_cfg)" and csv = "[]" and d = "[]"])
  have f: "jfile ex_running = ''r1.json''"
    by (simp add: ex_running_def ex_config_defs zero_defs upd_defs)
  show "env_config (ex_env ex_cfg) (jfile ex_running) = Some ex_cfg" "env_config (ex_env ex_cfg3) (jfile ex_running) = Some ex_cfg3"
    by (simp_all add: f ex_env_def)
  show "up_to_date (ex_env ex_cfg) ex_running"
    by (rule ConfigRead_init_up_to_date[OF ex_init])
  show "ex_cfg3 = ex_cfg\<lparr>Kafka := Some (zeroKafka\<lparr>k_Brokers := [''other:9092'']\<rparr>),
      GRPC := (GRPC ex_cfg)\<lparr>g_TunnelServer := g_TunnelServer (GRPC ex_cfg)\<rparr>,
      InternalJtimon := (InternalJtimon ex_cfg)\<lparr>ij_CsvLog := []\<rparr>, PasswordDecoder := []\<rparr>"
    by (simp add: ex_cfg3_def ex_cfg_def zero_defs)
  show "DecodePassword (ex_env ex_cfg3) ex_running ex_cfg3 = DecodePassword (ex_env ex_cfg) ex_running ex_cfg"
    by (simp add: DecodePassword_def ex_cfg3_def ex_cfg_def zero_defs)
qed

end
