(* ===== verification/Junos.thy ===== *)
theory Junos
  imports GnmiHandle Configuration "HOL-Library.Multiset"
begin

text \<open>
  Native Junos telemetry: \<open>handleOnePacket\<close>, \<open>subSendAndReceive\<close>, \<open>subscribeJunos\<close> and \<open>loginCheckJunos\<close> of
  subscribe_juniper_junos.go, and the vendors of multi_vendor.go.

  The lines that \<open>handleOnePacket\<close> writes are values of \<open>packet_line\<close>, not their text. The JSON form of a packet is the
  record \<open>packet_json\<close>; encoding it fails when a floating point value is not finite. \<open>proto.Marshal\<close> is the argument
  \<open>mar\<close>. The packets of a stream are handled in the order received, as with \<open>noppgoroutines\<close>; the clock is an argument.
\<close>

section \<open>One packet\<close>

datatype packet_line =
    LHeader OpenConfigData
  | LDelete string
  | LKey string "oc_value option"
  | LElement string
  | LMissingPrefix string
  | LMarshalError

record packet_json =
  pj_header :: "OpenConfigData option"
  pj_kv :: "(string \<times> oc_value option) list"

datatype log_out = ToLog "packet_line list" | ToInternal "packet_line list" | ToInternalJSON packet_json

definition json_encodable :: "packet_json \<Rightarrow> bool" where
  "json_encodable p = list_all (\<lambda>(_, v).
     case v of Some (DoubleValue d) \<Rightarrow> f64_finite d | Some (FloatValue f) \<Rightarrow> f64_finite (f64_of_f32 f) | _ \<Rightarrow> True) (pj_kv p)"

definition leaflistElements :: "string option list \<Rightarrow> string list" where
  "leaflistElements es = filter (\<lambda>s. s \<noteq> []) (map (\<lambda>e. case e of Some s \<Rightarrow> s | None \<Rightarrow> []) es)"

definition kvLines :: "KeyValue \<Rightarrow> packet_line list" where
  "kvLines kv =
     LKey (kv_Key kv) (kv_Value kv) #
       (case kv_Value kv of Some (LeaflistValue es) \<Rightarrow> map LElement (leaflistElements es) | _ \<Rightarrow> [])"

text \<open>In the JSON form a leaf-list is the list of its non-empty string elements.\<close>

definition kvJson :: "KeyValue \<Rightarrow> string \<times> oc_value option" where
  "kvJson kv = (kv_Key kv,
     case kv_Value kv of Some (LeaflistValue es) \<Rightarrow> Some (LeaflistValue (map Some (leaflistElements es))) | v \<Rightarrow> v)"

text \<open>The loop over the key value pairs: the context, whether a prefix has been seen, the lines and the JSON items.\<close>

fun packetLoop ::
  "Flags \<Rightarrow> OpenConfigData \<Rightarrow> bool \<Rightarrow> JCtx \<times> bool \<times> packet_line list \<times> (string \<times> oc_value option) list \<Rightarrow> KeyValue list \<Rightarrow>
   JCtx \<times> packet_line list \<times> (string \<times> oc_value option) list" where
  "packetLoop fl oc logging (jctx, seen, s, kvs) [] = (jctx, s, kvs)"
| "packetLoop fl oc logging (jctx, seen, s, kvs) (kv # rest) =
     (let j1 = updateStatsKV fl jctx 1;
          s1 = (if logging then s @ kvLines kv else s);
          kvs1 = (if logging then kvs @ [kvJson kv] else kvs)
      in if kv_Key kv = ''__prefix__'' then packetLoop fl oc logging (j1, True, s1, kvs1) rest
         else
           let missing = \<not> hasPrefix ''__'' (kv_Key kv) \<and> \<not> seen \<and> \<not> hasPrefix ''/'' (kv_Key kv) \<and> f_prefixCheck fl
           in packetLoop fl oc logging (j1, seen, if missing then s1 @ [LMissingPrefix (oc_Path oc)] else s1, kvs1) rest)"

definition isLogging :: "Flags \<Rightarrow> JCtx \<Rightarrow> bool" where
  "isLogging fl jctx = (f_print fl \<or> IsVerboseLogging jctx \<and> \<not> f_print fl \<or> isInternalJtimonLogging jctx)"

definition jLog :: "Flags \<Rightarrow> JCtx \<Rightarrow> packet_line list \<Rightarrow> log_out list" where
  "jLog fl jctx s = (if f_logMux fl then [ToLog s] else if l_logger (Log (config jctx)) \<noteq> None then [ToLog s] else [])"

text \<open>The logger checked is the one for gNMI; the one used is the one for native telemetry.\<close>

definition jLogInternalJtimonForPreGnmi :: "JCtx \<Rightarrow> log_out \<Rightarrow> log_out list go" where
  "jLogInternalJtimonForPreGnmi jctx out =
     (let i = InternalJtimon (config jctx)
      in if ij_logger i = None \<or> ij_DataLog i = [] then Inr []
         else if ij_preGnmiLogger i = None then Inl NilDeref else Inr [out])"

definition handleOnePacket :: "Flags \<Rightarrow> OpenConfigData \<Rightarrow> JCtx \<Rightarrow> (JCtx \<times> log_out list) go" where
  "handleOnePacket fl oc jctx =
     (let j0 = updateStats fl jctx;
          logging = isLogging fl j0;
          s0 = (if logging then LHeader oc # map LDelete (oc_Delete oc) else [])
      in case packetLoop fl oc logging (j0, False, s0, []) (oc_Kv oc) of
           (j1, s, kvs) \<Rightarrow>
             let out1 = (if s \<noteq> [] \<and> (f_print fl \<or> IsVerboseLogging j1 \<and> \<not> f_print fl) then jLog fl j1 s else []);
                 json = \<lparr>pj_header = (if logging then Some oc else None), pj_kv = kvs\<rparr>
             in if \<not> isInternalJtimonLogging j1 then Inr (j1, out1)
                else if f_outJSON fl then
                  (if \<not> json_encodable json then Inr (j1, out1 @ jLog fl j1 [LMarshalError])
                   else bindR (jLogInternalJtimonForPreGnmi j1 (ToInternalJSON json)) (\<lambda>o2. Inr (j1, out1 @ o2)))
                else if s \<noteq> [] then
                  bindR (jLogInternalJtimonForPreGnmi j1 (ToInternal s)) (\<lambda>o2. Inr (j1, out1 @ o2))
                else Inr (j1, out1))"


section \<open>The stream\<close>

definition junosPacket ::
  "Flags \<Rightarrow> influx_lib \<Rightarrow> (OpenConfigData \<Rightarrow> string) \<Rightarrow> int \<Rightarrow> JCtx \<Rightarrow> OpenConfigData \<Rightarrow> (JCtx \<times> jtimonMetric list) go" where
  "junosPacket fl lib mar now jctx oc =
     bindR (if f_print fl \<or> f_statsHandler fl \<or> IsVerboseLogging jctx \<or> isInternalJtimonLogging jctx
            then handleOnePacket fl oc jctx else Inr (jctx, [])) (\<lambda>(j1, _).
       bindR (addIDB lib oc j1 now) (\<lambda>j2.
         bindR (if f_prom fl then addPrometheus oc j2 now else Inr []) (\<lambda>ms.
           Inr (addKafka (mar oc) j2, ms))))"

fun junosReceive ::
  "Flags \<Rightarrow> influx_lib \<Rightarrow> (OpenConfigData \<Rightarrow> string) \<Rightarrow> int \<Rightarrow> JCtx \<Rightarrow> jtimonMetric list \<Rightarrow> OpenConfigData stream_event list \<Rightarrow>
   (SubErrorCode option \<times> JCtx \<times> jtimonMetric list) go" where
  "junosReceive fl lib mar now jctx ms [] = Inr (None, jctx, ms)"
| "junosReceive fl lib mar now jctx ms (e # es) =
     (case e of
        Control s \<Rightarrow> Inr (Some (signalCode s), jctx, ms)
      | EndOfStream \<Rightarrow> Inr (Some SubRcConnRetry, jctx, ms)
      | RecvError _ \<Rightarrow> Inr (Some SubRcConnRetry, jctx, ms)
      | Received oc \<Rightarrow>
          bindR (junosPacket fl lib mar now jctx oc) (\<lambda>(j, m). junosReceive fl lib mar now j (ms @ m) es))"

record SubscriptionRequest =
  sr_PathList :: "(string \<times> 32 word) list"
  sr_NeedEos :: bool

text \<open>The metadata with the user and password, when the configuration asks for it.\<close>

definition outgoingMetadata :: "JCtx \<Rightarrow> (string \<times> string) list" where
  "outgoingMetadata jctx =
     (if Meta (config jctx) then [(''username'', User (config jctx)), (''password'', Password (config jctx))] else [])"

record junos_net =
  jn_subscribe :: "(string \<times> string) list \<Rightarrow> SubscriptionRequest \<Rightarrow> OpenConfigData stream_event list option"

definition subSendAndReceive ::
  "Flags \<Rightarrow> influx_lib \<Rightarrow> (OpenConfigData \<Rightarrow> string) \<Rightarrow> int \<Rightarrow> junos_net \<Rightarrow> JCtx \<Rightarrow> SubscriptionRequest \<Rightarrow>
   (SubErrorCode option \<times> JCtx \<times> jtimonMetric list) go" where
  "subSendAndReceive fl lib mar now net jctx req =
     (case jn_subscribe net (outgoingMetadata jctx) req of
        None \<Rightarrow> Inr (Some SubRcConnRetry, jctx, [])
      | Some events \<Rightarrow> junosReceive fl lib mar now jctx [] events)"

definition junosRequest :: "JCtx \<Rightarrow> PathsConfig list \<Rightarrow> SubscriptionRequest" where
  "junosRequest jctx paths =
     \<lparr>sr_PathList = map (\<lambda>p. (p_Path p, ucast (p_Freq p))) paths,
      sr_NeedEos = (if isInternalJtimonLogging jctx then ij_PreGnmiEOS (InternalJtimon (config jctx)) else EOS (config jctx))\<rparr>"

definition subscribeJunos ::
  "Flags \<Rightarrow> influx_lib \<Rightarrow> (OpenConfigData \<Rightarrow> string) \<Rightarrow> int \<Rightarrow> junos_net \<Rightarrow> JCtx \<Rightarrow> Config \<Rightarrow> PathsConfig list \<Rightarrow>
   (SubErrorCode option \<times> JCtx \<times> jtimonMetric list) go" where
  "subscribeJunos fl lib mar now net jctx cfg paths = subSendAndReceive fl lib mar now net jctx (junosRequest jctx paths)"

text \<open>
  The login check; \<open>login\<close> is the answer of the device to the user, the password and the client id, \<^term>\<open>None\<close> a failed
  call. The result says whether there is no error.
\<close>

definition loginCheckJunos :: "(string \<Rightarrow> string \<Rightarrow> string \<Rightarrow> bool option) \<Rightarrow> JCtx \<Rightarrow> bool" where
  "loginCheckJunos login jctx =
     (let c = config jctx
      in if User c \<noteq> [] \<and> Password c \<noteq> [] \<and> \<not> Meta c
         then (case login (User c) (Password c) (CID c) of None \<Rightarrow> False | Some r \<Rightarrow> r) else True)"


section \<open>Vendors\<close>

datatype subscriber = SubGNMI | SubJunos | SubXR | SubPrePost

record vendor =
  vn_name :: string
  loginCheckRequired :: bool
  vn_sendLoginCheck :: bool
  dialExt :: bool
  vn_subscribe :: subscriber

definition newJuniperJUNOS :: vendor where
  "newJuniperJUNOS = \<lparr>vn_name = ''juniper-junos'', loginCheckRequired = True, vn_sendLoginCheck = True, dialExt = False,
     vn_subscribe = SubJunos\<rparr>"

definition newCiscoIOSXR :: vendor where
  "newCiscoIOSXR = \<lparr>vn_name = ''cisco-iosxr'', loginCheckRequired = False, vn_sendLoginCheck = False, dialExt = True,
     vn_subscribe = SubXR\<rparr>"

definition newGNMI :: vendor where
  "newGNMI = \<lparr>vn_name = ''gnmi'', loginCheckRequired = False, vn_sendLoginCheck = False, dialExt = False,
     vn_subscribe = SubGNMI\<rparr>"

definition newPrePostGNMI :: vendor where
  "newPrePostGNMI = \<lparr>vn_name = ''pre-post-gnmi'', loginCheckRequired = False, vn_sendLoginCheck = True, dialExt = False,
     vn_subscribe = SubPrePost\<rparr>"

definition vendors :: "vendor list" where
  "vendors = [newGNMI, newJuniperJUNOS, newCiscoIOSXR, newPrePostGNMI]"

definition getVendor :: "Config \<Rightarrow> bool \<Rightarrow> bool \<Rightarrow> vendor option" where
  "getVendor cfg tryGnmi tryPrePostGnmi =
     (let n1 = (if tryGnmi then ''gnmi'' else v_Name (Vendor cfg));
          n2 = (if tryPrePostGnmi then ''pre-post-gnmi'' else n1);
          n3 = (if n2 = [] then ''juniper-junos'' else n2)
      in find (\<lambda>v. n3 = vn_name v) vendors)"

definition getGnmiPaths :: "Config \<Rightarrow> PathsConfig list" where
  "getGnmiPaths cfg = filter (\<lambda>p. p_Gnmi p \<or> v_Gnmi (Vendor cfg) \<noteq> None \<and> \<not> p_PreGnmi p) (Paths cfg)"

definition getPreGnmiPaths :: "Config \<Rightarrow> PathsConfig list" where
  "getPreGnmiPaths cfg = filter (\<lambda>p. p_PreGnmi p \<or> v_Gnmi (Vendor cfg) = None \<and> \<not> p_Gnmi p) (Paths cfg)"

text \<open>
  Both subscriptions run side by side and the first result is returned. What each of the two would return by itself is
  an argument, and so is the one that returns first. \<^term>\<open>None\<close> when no result ever comes, also because neither has a path.
\<close>

definition subscribePrePostGNMI ::
  "(PathsConfig list \<Rightarrow> SubErrorCode option go) \<Rightarrow> (PathsConfig list \<Rightarrow> SubErrorCode option go) \<Rightarrow> bool \<Rightarrow> Config \<Rightarrow>
   SubErrorCode option go" where
  "subscribePrePostGNMI gnmi junos gnmiFirst cfg =
     bindR (if getGnmiPaths cfg \<noteq> [] then gnmi (getGnmiPaths cfg) else Inr None) (\<lambda>g.
       bindR (if getPreGnmiPaths cfg \<noteq> [] then junos (getPreGnmiPaths cfg) else Inr None) (\<lambda>j.
         Inr (case (g, j) of
                (None, r) \<Rightarrow> r
              | (r, None) \<Rightarrow> r
              | (Some a, Some b) \<Rightarrow> Some (if gnmiFirst then a else b))))"


section \<open>Lemmas\<close>

text \<open>What handling a packet leaves alone: everything of the context but the statistics.\<close>

lemma updateStats_stats:
  "updateStats fl j = j\<lparr>stats := stats (updateStats fl j)\<rparr>" "updateStatsKV fl j n = j\<lparr>stats := stats (updateStatsKV fl j n)\<rparr>"
  by (simp_all add: updateStats_def updateStatsKV_def)

lemma packetLoop_stats:
  assumes "packetLoop fl oc lg (j, seen, s, kvs) ps = (j', s', kvs')"
  shows "config j' = config j \<and> influxCtx j' = influxCtx j \<and> totalIn (stats j') = totalIn (stats j) \<and>
    totalKV (stats j') = (if f_statsHandler fl then totalKV (stats j) + of_nat (length ps) else totalKV (stats j))"
  using assms
proof (induction ps arbitrary: j seen s kvs)
  case (Cons kv ps)
  have "config (updateStatsKV fl j 1) = config j" "influxCtx (updateStatsKV fl j 1) = influxCtx j"
    "totalIn (stats (updateStatsKV fl j 1)) = totalIn (stats j)"
    "totalKV (stats (updateStatsKV fl j 1)) = (if f_statsHandler fl then totalKV (stats j) + 1 else totalKV (stats j))"
    by (simp_all add: updateStatsKV_def)
  with Cons.prems Cons.IH show ?case
    by (auto simp: Let_def split: if_splits)
qed simp

lemma handleOnePacket_stats:
  assumes "handleOnePacket fl oc j = Inr (j', out)"
  shows "config j' = config j \<and> influxCtx j' = influxCtx j \<and>
    (f_statsHandler fl \<longrightarrow> totalIn (stats j') = totalIn (stats j) + 1 \<and>
       totalKV (stats j') = totalKV (stats j) + of_nat (length (oc_Kv oc)))"
proof -
  define j0 where "j0 = updateStats fl j"
  obtain s kvs s0 where "packetLoop fl oc (isLogging fl j0) (j0, False, s0, []) (oc_Kv oc) = (j', s, kvs)"
    using assms unfolding handleOnePacket_def Let_def j0_def[symmetric]
    by (auto simp: bindR_Inr_iff split: prod.splits if_splits)
  from packetLoop_stats[OF this] show ?thesis
    by (auto simp: j0_def updateStats_def)
qed

lemma addIDB_config:
  assumes "addIDB lib oc j now = Inr j'"
  shows "config j' = config j \<and> stats j' = stats j"
  using assms by (auto simp: addIDB_def sendPoints_def upd_influx_def bindR_Inr_iff Let_def split: if_splits option.splits)

definition kafkaSent :: "JCtx \<Rightarrow> (string \<times> string) list option" where
  "kafkaSent j = (case Kafka (config j) of None \<Rightarrow> None | Some k \<Rightarrow> k_producer k)"

definition kafkaTopic :: "JCtx \<Rightarrow> string" where
  "kafkaTopic j = (case Kafka (config j) of None \<Rightarrow> ''healthbot'' | Some k \<Rightarrow> if k_Topic k \<noteq> [] then k_Topic k else ''healthbot'')"

lemma addKafka_sent:
  "kafkaSent (addKafka p j) = map_option (\<lambda>sent. sent @ [(kafkaTopic j, p)]) (kafkaSent j)"
  "kafkaTopic (addKafka p j) = kafkaTopic j" "stats (addKafka p j) = stats j"
  by (auto simp: addKafka_def kafkaSent_def kafkaTopic_def upd_config_def Let_def split: option.split)

lemma kafka_config: "config j' = config j \<Longrightarrow> kafkaSent j' = kafkaSent j \<and> kafkaTopic j' = kafkaTopic j"
  by (simp add: kafkaSent_def kafkaTopic_def)

lemma junosPacket_accounts:
  assumes "junosPacket fl lib mar now j oc = Inr (j', ms)"
  shows "kafkaSent j' = map_option (\<lambda>sent. sent @ [(kafkaTopic j, mar oc)]) (kafkaSent j) \<and> kafkaTopic j' = kafkaTopic j \<and>
    (f_statsHandler fl \<longrightarrow> totalIn (stats j') = totalIn (stats j) + 1 \<and>
       totalKV (stats j') = totalKV (stats j) + of_nat (length (oc_Kv oc)))"
proof -
  obtain j1 out j2 where h: "(if f_print fl \<or> f_statsHandler fl \<or> IsVerboseLogging j \<or> isInternalJtimonLogging j
      then handleOnePacket fl oc j else Inr (j, [])) = Inr (j1, out)"
    and a: "addIDB lib oc j1 now = Inr j2" and j': "j' = addKafka (mar oc) j2"
    using assms by (auto simp: junosPacket_def bindR_Inr_iff)
  have 1: "config j1 = config j \<and> (f_statsHandler fl \<longrightarrow> totalIn (stats j1) = totalIn (stats j) + 1 \<and>
       totalKV (stats j1) = totalKV (stats j) + of_nat (length (oc_Kv oc)))"
    using h handleOnePacket_stats by (auto split: if_splits)
  with addIDB_config[OF a] have 2: "config j2 = config j" by simp
  show ?thesis
    using 1 addIDB_config[OF a] kafka_config[OF 2] by (simp add: j' addKafka_sent)
qed

lemma junosReceive_step:
  "junosReceive fl lib mar now j ms (Received oc # es) =
     bindR (junosPacket fl lib mar now j oc) (\<lambda>(j', m). junosReceive fl lib mar now j' (ms @ m) es)"
  by simp

definition ends :: "'r stream_event \<Rightarrow> SubErrorCode \<Rightarrow> bool" where
  "ends e rc = (case e of Control s \<Rightarrow> rc = signalCode s | Received _ \<Rightarrow> False | _ \<Rightarrow> rc = SubRcConnRetry)"


section \<open>Properties\<close>


definition ex_junos_jctx :: JCtx where
  "ex_junos_jctx = zeroJCtx\<lparr>config := zeroConfig\<lparr>Host := ''r1'', Kafka := Some (zeroKafka\<lparr>k_producer := Some []\<rparr>)\<rparr>,
     influxCtx := zeroInfluxCtx\<lparr>reCompiled := True\<rparr>\<rparr>"

definition ex_junos_flags :: Flags where
  "ex_junos_flags = zeroFlags\<lparr>f_statsHandler := True\<rparr>"

lemma ex_junos_packet:
  "junosReceive ex_junos_flags plain_lib oc_Path 0 ex_junos_jctx [] (map Received [ex_oc, ex_oc] @ [Control Interrupt]) =
     Inr (Some SubRcSighupNoRestart,
       ex_junos_jctx\<lparr>stats := zeroStats\<lparr>totalIn := 2, totalKV := 2 * of_nat (length (oc_Kv ex_oc))\<rparr>,
         config := (config ex_junos_jctx)\<lparr>Kafka := Some (zeroKafka\<lparr>k_producer := Some [(''healthbot'', oc_Path ex_oc), (''healthbot'', oc_Path ex_oc)]\<rparr>)\<rparr>\<rparr>, [])"
  by code_simp


text \<open>
  The request of a native subscription: every path, in order, with its sample frequency reduced to 32 bits. A
  frequency of \<open>2 ^ 32\<close> milliseconds or more is not the one configured.
\<close>

theorem junosRequest_frequency:
  "map fst (sr_PathList (junosRequest jctx paths)) = map p_Path paths \<and>
   map (\<lambda>p. unat (snd p)) (sr_PathList (junosRequest jctx paths)) = map (\<lambda>p. unat (p_Freq p) mod 2 ^ 32) paths"
  by (simp add: junosRequest_def unsigned_ucast_eq take_bit_eq_mod)

text \<open>
  In the mixed mode every configured path is subscribed: the paths of the gNMI subscription and of the native one
  are together all paths, and a path is in both exactly when it is marked for both.
\<close>

theorem getGnmiPaths_partition:
  "mset (getGnmiPaths cfg) + mset (getPreGnmiPaths cfg) =
     mset (Paths cfg) + mset (filter (\<lambda>p. p_Gnmi p \<and> p_PreGnmi p) (Paths cfg))"
proof -
  have "mset (filter (\<lambda>p. p_Gnmi p \<or> V \<and> \<not> p_PreGnmi p) ps) + mset (filter (\<lambda>p. p_PreGnmi p \<or> \<not> V \<and> \<not> p_Gnmi p) ps) =
    mset ps + mset (filter (\<lambda>p. p_Gnmi p \<and> p_PreGnmi p) ps)" for V ps
    by (induction ps) auto
  from this[of "v_Gnmi (Vendor cfg) \<noteq> None" "Paths cfg"] show ?thesis
    by (simp add: getGnmiPaths_def getPreGnmiPaths_def)
qed

text \<open>
  In the mixed mode a path marked for gNMI in a configuration without a gNMI section of the vendor crashes the
  collector: the subscription reads the mode from the absent section.
\<close>

theorem subscribePrePostGNMI_panics:
  assumes "v_Gnmi (Vendor cfg) = None" and "p \<in> set (Paths cfg)" and "p_Gnmi p"
  shows "subscribePrePostGNMI (\<lambda>ps. bindR (subscribegNMI fl lib pb now net jctx cfg ps) (\<lambda>(rc, _). Inr rc)) junos first cfg
    = Inl NilDeref"
proof -
  have "getGnmiPaths cfg \<noteq> []"
    using assms by (auto simp: getGnmiPaths_def filter_empty_conv)
  thus ?thesis
    using assms(1) by (simp add: subscribePrePostGNMI_def subscribegNMI_def gnmiRequest_def)
qed

definition ex_gnmi_path :: PathsConfig where
  "ex_gnmi_path = \<lparr>p_Path = ''/interfaces'', p_Freq = 2000, p_Mode = [], p_Origin = [], p_Target = [], p_PreGnmi = False,
     p_Gnmi = True, p_Gnmi_heartbeat_interval = 0\<rparr>"

definition ex_prepost_cfg :: Config where
  "ex_prepost_cfg = zeroConfig\<lparr>Paths := [ex_gnmi_path]\<rparr>"

lemma subscribePrePostGNMI_panics_witness:
  "subscribePrePostGNMI (\<lambda>ps. bindR (subscribegNMI zeroFlags plain_lib ex_pb 0
     \<lparr>gn_subscribe_ok = True, gn_send_ok = True, gn_events = []\<rparr> zeroJCtx ex_prepost_cfg ps) (\<lambda>(rc, _). Inr rc))
     (\<lambda>_. Inr None) True ex_prepost_cfg = Inl NilDeref"
  by (rule subscribePrePostGNMI_panics[where p = ex_gnmi_path])
    (simp_all add: ex_prepost_cfg_def ex_gnmi_path_def zero_defs)

end
