(* ===== verification/Connect.thy ===== *)
theory Connect
  imports Junos
begin

text \<open>
  Connecting to a device: the dial options of grpc.go and the two connection loops of workers.go, \<open>work\<close> and the
  goroutine of \<open>workTunnel\<close>.

  A run of a loop is driven by a list of attempts. An attempt says what the loop meets between two passes of the label
  \<open>connect\<close>: the context when the attempt begins and when it is read again after the subscription, the signal pending on
  the control channel, whether dialling and the login check succeed, and the code the subscription returns. What the loop
  does is a list of actions. A loop that has used up its attempts is still running.
\<close>

section \<open>Dial options\<close>

datatype dial_option =
    WithInsecure
  | WithTransportCredentials string string "(string \<times> string) option"
  | WithStatsHandler
  | UseCompressor string
  | WithInitialWindowSize "32 word"
  | WithInitialConnWindowSize "32 word"
  | WithPerRPCCredentials string string
  | WithBlock
  | MaxCallRecvMsgSize int
  | WithContextDialer

text \<open>\<^term>\<open>None\<close> is an error. A key pair that cannot be loaded is ignored.\<close>

definition getSecurityOptions :: "env \<Rightarrow> JCtx \<Rightarrow> dial_option option" where
  "getSecurityOptions e jctx =
     (let t = TLS (config jctx)
      in if t_CA t = [] then Some WithInsecure
         else if \<not> env_pem e (t_CA t) then None
         else Some (WithTransportCredentials (t_CA t) (t_ServerName t)
           (if env_keyPair e (t_ClientCrt t) (t_ClientKey t) then Some (t_ClientCrt t, t_ClientKey t) else None)))"

definition dialExtensionXR :: "JCtx \<Rightarrow> dial_option option" where
  "dialExtensionXR jctx =
     (if User (config jctx) \<noteq> [] \<and> Password (config jctx) \<noteq> []
      then Some (WithPerRPCCredentials (User (config jctx)) (Password (config jctx))) else None)"

text \<open>The header of the CSV file is written with a logger that is nil when the file could not be opened.\<close>

definition getGPRCDialOptions :: "env \<Rightarrow> Flags \<Rightarrow> JCtx \<Rightarrow> vendor \<Rightarrow> dial_option list option go" where
  "getGPRCDialOptions e fl jctx v =
     (case getSecurityOptions e jctx of
        None \<Rightarrow> Inr None
      | Some sec \<Rightarrow>
          if isCsvStatsEnabled fl jctx \<and> ij_csvLogger (InternalJtimon (config jctx)) = None then Inl NilDeref
          else
            let ws = g_WS (GRPC (config jctx))
            in Inr (Some (
                 [sec] @ (if f_statsHandler fl then [WithStatsHandler] else []) @
                 (if f_compression fl = ''gzip'' then [UseCompressor ''gzip''] else []) @
                 [WithInitialWindowSize ws, WithInitialConnWindowSize ws] @
                 (if dialExt v then (case dialExtensionXR jctx of None \<Rightarrow> [] | Some opt \<Rightarrow> [opt]) else []))))"


section \<open>The connection loop\<close>

record attempt =
  at_jctx :: JCtx
  at_after :: JCtx
  at_signal :: "os_signal option"
  at_dial :: bool
  at_login :: bool
  at_code :: SubErrorCode

datatype work_act = ActSleep | ActStatus | ActDial string | ActLogin | ActSubscribe subscriber Config

record wstate =
  w_retry :: bool
  w_tryGnmi :: bool
  w_tryPrePostGnmi :: bool

definition hasGnmi :: "JCtx \<Rightarrow> bool" where
  "hasGnmi jctx = (v_Gnmi (Vendor (config jctx)) \<noteq> None)"

definition markedPaths :: "JCtx \<Rightarrow> bool" where
  "markedPaths jctx = list_ex (\<lambda>p. p_PreGnmi p \<or> p_Gnmi p) (Paths (config jctx))"

definition workInit :: "JCtx \<Rightarrow> wstate" where
  "workInit jctx = \<lparr>w_retry = False, w_tryGnmi = hasGnmi jctx, w_tryPrePostGnmi = markedPaths jctx\<rparr>"

definition hostname :: "JCtx \<Rightarrow> string" where
  "hostname jctx = Host (config jctx) @ '':'' @ show_int (Port (config jctx))"

definition workLoginCheck :: "wstate \<Rightarrow> JCtx \<Rightarrow> bool" where
  "workLoginCheck st jctx =
     (w_tryPrePostGnmi st \<and>
      list_ex (\<lambda>p. p_PreGnmi p \<or> \<not> w_tryGnmi st \<and> \<not> p_PreGnmi p \<and> \<not> p_Gnmi p) (Paths (config jctx)))"

text \<open>What happens after the subscription has returned (the switch over its code): the next state, or the return.\<close>

definition afterCode :: "wstate \<Rightarrow> JCtx \<Rightarrow> SubErrorCode \<Rightarrow> wstate option \<times> work_act list" where
  "afterCode st after code =
     (case code of
        SubRcSighupRestart \<Rightarrow> (Some (st\<lparr>w_retry := True, w_tryGnmi := hasGnmi after\<rparr>), [])
      | SubRcRPCFailedNoRetry \<Rightarrow> (Some (st\<lparr>w_retry := True, w_tryGnmi := False\<rparr>), [])
      | SubRcConnRetry \<Rightarrow> (Some (st\<lparr>w_retry := True, w_tryGnmi := hasGnmi after\<rparr>), [ActSleep])
      | SubRcSighupNoRestart \<Rightarrow> (None, [ActStatus])
      | SubRcOnceComplete \<Rightarrow> (None, [ActStatus]))"

text \<open>From the login check on, which both loops share.\<close>

definition loginAndSubscribe ::
  "vendor \<Rightarrow> bool \<Rightarrow> wstate \<Rightarrow> attempt \<Rightarrow> (wstate option \<times> work_act list) go" where
  "loginAndSubscribe v loginCheck st a =
     (let needed = loginCheckRequired v \<or> loginCheck
      in if needed \<and> \<not> vn_sendLoginCheck v then Inl NilDeref
         else if needed \<and> \<not> at_login a then
           Inr (Some (st\<lparr>w_retry := True, w_tryGnmi := hasGnmi (at_after a)\<rparr>), [ActLogin, ActSleep])
         else
           let (next, acts) = afterCode st (at_after a) (at_code a)
           in Inr (next, (if needed then [ActLogin] else []) @ ActSubscribe (vn_subscribe v) (config (at_jctx a)) # acts))"

definition workAttempt :: "env \<Rightarrow> Flags \<Rightarrow> wstate \<Rightarrow> attempt \<Rightarrow> (wstate option \<times> work_act list) go" where
  "workAttempt e fl st a =
     (let jctx = at_jctx a
      in case getVendor (config jctx) (w_tryGnmi st) (w_tryPrePostGnmi st) of
           None \<Rightarrow> Inr (Some (st\<lparr>w_retry := True\<rparr>), [ActSleep])
         | Some v \<Rightarrow>
             bindR (getGPRCDialOptions e fl jctx v) (\<lambda>opts.
               if opts = None then Inr (None, [ActStatus])
               else if hostname jctx = '':0'' then Inr (None, [ActStatus])
               else if at_signal a = Some Interrupt then Inr (None, [ActStatus])
               else if \<not> at_dial a then Inr (Some (st\<lparr>w_retry := True\<rparr>), [ActDial (hostname jctx), ActSleep])
               else
                 bindR (loginAndSubscribe v (workLoginCheck st jctx) st a) (\<lambda>(next, acts).
                   Inr (next, ActDial (hostname jctx) # acts))))"

text \<open>The actions, and whether the loop has returned.\<close>

fun workLoop :: "env \<Rightarrow> Flags \<Rightarrow> wstate \<Rightarrow> attempt list \<Rightarrow> (work_act list \<times> bool) go" where
  "workLoop e fl st [] = Inr ([], False)"
| "workLoop e fl st (a # as) =
     bindR (workAttempt e fl st a) (\<lambda>(next, acts).
       case next of
         None \<Rightarrow> Inr (acts, True)
       | Some st' \<Rightarrow> bindR (workLoop e fl st' as) (\<lambda>(acts', done). Inr (acts @ acts', done)))"


section \<open>The tunnel\<close>

datatype tunnel_creds = TunnelInsecure | TunnelTLS string | TunnelMTLS string string string

definition tunnelCreds :: "TLSConfig \<Rightarrow> tunnel_creds" where
  "tunnelCreds t =
     (if t_Insecure t then TunnelInsecure
      else if t_ClientCrt t = [] \<or> t_ClientKey t = [] then TunnelTLS (t_CA t)
      else TunnelMTLS (t_ClientCrt t) (t_ClientKey t) (t_CA t))"

text \<open>A target of the tunnel is its id and its type. The handlers keep the set of the peers.\<close>

type_synonym target = "string \<times> string"

datatype peer_event = PeerAdd target | PeerDel target

definition peerAddHandler :: "(target, unit) gomap \<Rightarrow> target \<Rightarrow> (target, unit) gomap" where
  "peerAddHandler peers t = mput peers t ()"

definition peerDelHandler :: "(target, unit) gomap \<Rightarrow> target \<Rightarrow> (target, unit) gomap" where
  "peerDelHandler peers t = (if mget peers t \<noteq> None then mdel peers t else peers)"

definition peerStep :: "(target, unit) gomap \<Rightarrow> peer_event \<Rightarrow> (target, unit) gomap" where
  "peerStep peers ev = (case ev of PeerAdd t \<Rightarrow> peerAddHandler peers t | PeerDel t \<Rightarrow> peerDelHandler peers t)"

definition dialTarget :: "JCtx \<Rightarrow> target" where
  "dialTarget jctx = (ts_DialTarget (g_TunnelServer (GRPC (config jctx))), ts_DialTargetType (g_TunnelServer (GRPC (config jctx))))"

definition foundDialTarget :: "JCtx \<Rightarrow> (target, unit) gomap \<Rightarrow> bool" where
  "foundDialTarget jctx peers = (mget peers (dialTarget jctx) \<noteq> None)"

definition tunnelLoginCheck :: "wstate \<Rightarrow> JCtx \<Rightarrow> bool" where
  "tunnelLoginCheck st jctx =
     (w_tryPrePostGnmi st \<and> (\<not> w_tryGnmi st \<or> list_ex p_PreGnmi (Paths (config jctx))))"

definition tunnelAttempt :: "env \<Rightarrow> Flags \<Rightarrow> wstate \<Rightarrow> attempt \<Rightarrow> (wstate option \<times> work_act list) go" where
  "tunnelAttempt e fl st a =
     (let jctx = at_jctx a
      in case getVendor (config jctx) (w_tryGnmi st) (w_tryPrePostGnmi st) of
           None \<Rightarrow> Inl FatalExit
         | Some v \<Rightarrow>
             bindR (getGPRCDialOptions e fl jctx v) (\<lambda>opts.
               if opts = None then Inr (None, [ActStatus])
               else if \<not> at_dial a then Inl FatalExit
               else
                 bindR (loginAndSubscribe v (tunnelLoginCheck st jctx) st a) (\<lambda>(next, acts).
                   Inr (next, ActDial ''use_tunnel:0'' # acts))))"

fun tunnelLoop :: "env \<Rightarrow> Flags \<Rightarrow> wstate \<Rightarrow> attempt list \<Rightarrow> (work_act list \<times> bool) go" where
  "tunnelLoop e fl st [] = Inr ([], False)"
| "tunnelLoop e fl st (a # as) =
     bindR (tunnelAttempt e fl st a) (\<lambda>(next, acts).
       case next of
         None \<Rightarrow> Inr (acts, True)
       | Some st' \<Rightarrow> bindR (tunnelLoop e fl st' as) (\<lambda>(acts', done). Inr (acts @ acts', done)))"

text \<open>
  \<open>workTunnel\<close>: the credentials and the tunnel client (\<open>up\<close> says whether it could be made), then the peers that come and
  go until the target is there (\<^term>\<open>None\<close> when it never appears), the session, and the loop.
\<close>

fun awaitTarget :: "JCtx \<Rightarrow> (target, unit) gomap \<Rightarrow> peer_event list \<Rightarrow> (target, unit) gomap option" where
  "awaitTarget jctx peers evs =
     (if foundDialTarget jctx peers then Some peers
      else case evs of [] \<Rightarrow> None | ev # rest \<Rightarrow> awaitTarget jctx (peerStep peers ev) rest)"

definition workTunnel ::
  "env \<Rightarrow> Flags \<Rightarrow> (tunnel_creds \<Rightarrow> bool) \<Rightarrow> bool \<Rightarrow> JCtx \<Rightarrow> peer_event list \<Rightarrow> attempt list \<Rightarrow> (work_act list \<times> bool) go" where
  "workTunnel e fl up session jctx evs as =
     (if \<not> up (tunnelCreds (ts_TLS (g_TunnelServer (GRPC (config jctx))))) then Inr ([], True)
      else case awaitTarget jctx [] evs of
             None \<Rightarrow> Inr ([], False)
           | Some _ \<Rightarrow> if \<not> session then Inr ([], True) else tunnelLoop e fl (workInit jctx) as)"

definition work ::
  "env \<Rightarrow> Flags \<Rightarrow> (tunnel_creds \<Rightarrow> bool) \<Rightarrow> bool \<Rightarrow> JCtx \<Rightarrow> peer_event list \<Rightarrow> attempt list \<Rightarrow> (work_act list \<times> bool) go" where
  "work e fl up session jctx evs as =
     (if ts_Address (g_TunnelServer (GRPC (config jctx))) \<noteq> [] then workTunnel e fl up session jctx evs as
      else workLoop e fl (workInit jctx) as)"


section \<open>What both loops promise\<close>

text \<open>
  The contract of a connection loop: an attempt that returns from the loop sends one status message as its last action,
  one that goes on sends none, marks the retry and keeps the choice for the mixed mode; a subscription is made by the
  vendor chosen for the attempt, with its configuration, and its code decides what is tried next.
\<close>

locale connect_loop =
  fixes att :: "wstate \<Rightarrow> attempt \<Rightarrow> (wstate option \<times> work_act list) go"
    and loop :: "wstate \<Rightarrow> attempt list \<Rightarrow> (work_act list \<times> bool) go"
  assumes loop_Nil: "loop st [] = Inr ([], False)"
    and loop_Cons: "loop st (a # as) =
      bindR (att st a) (\<lambda>(next, acts).
        case next of
          None \<Rightarrow> Inr (acts, True)
        | Some st' \<Rightarrow> bindR (loop st' as) (\<lambda>(acts', done). Inr (acts @ acts', done)))"
    and att_stop: "att st a = Inr (None, acts) \<Longrightarrow> \<exists>xs. acts = xs @ [ActStatus] \<and> ActStatus \<notin> set xs"
    and att_next: "att st a = Inr (Some st', acts) \<Longrightarrow>
      ActStatus \<notin> set acts \<and> w_retry st' \<and> w_tryPrePostGnmi st' = w_tryPrePostGnmi st"
    and att_sub: "att st a = Inr (r, acts) \<Longrightarrow> ActSubscribe s c \<in> set acts \<Longrightarrow>
      c = config (at_jctx a) \<and> r = fst (afterCode st (at_after a) (at_code a)) \<and>
      (\<exists>v. getVendor c (w_tryGnmi st) (w_tryPrePostGnmi st) = Some v \<and> s = vn_subscribe v)"
    and att_quiet: "att st a = Inr (Some st', acts) \<Longrightarrow> (\<forall>s c. ActSubscribe s c \<notin> set acts) \<Longrightarrow>
      w_tryGnmi st' = w_tryGnmi st \<or> w_tryGnmi st' = hasGnmi (at_after a)"
begin

lemma loop_cases:
  assumes "loop st (a # as) = Inr (acts, done)"
  obtains (stop) "att st a = Inr (None, acts)" "done"
  | (again) st' acts1 acts2 where "att st a = Inr (Some st', acts1)" "loop st' as = Inr (acts2, done)" "acts = acts1 @ acts2"
proof -
  obtain r acts1 where r: "att st a = Inr (r, acts1)" using assms by (auto simp: loop_Cons bindR_Inr_iff)
  show thesis
  proof (cases r)
    case None
    thus thesis using assms r stop by (auto simp: loop_Cons)
  next
    case (Some st')
    thus thesis using assms r again by (auto simp: loop_Cons bindR_Inr_iff)
  qed
qed

lemma loop_status:
  "loop st as = Inr (acts, done) \<Longrightarrow>
   (if done then \<exists>xs. acts = xs @ [ActStatus] \<and> ActStatus \<notin> set xs else ActStatus \<notin> set acts)"
proof (induction as arbitrary: st acts)
  case Nil
  thus ?case by (auto simp: loop_Nil)
next
  case (Cons a as)
  from Cons.prems show ?case
  proof (cases rule: loop_cases)
    case stop
    thus ?thesis using att_stop by simp
  next
    case (again st' acts1 acts2)
    have "ActStatus \<notin> set acts1" using att_next[OF again(1)] by simp
    moreover note Cons.IH[OF again(2)]
    ultimately show ?thesis
      unfolding again(3) by (auto split: if_splits simp flip: append_assoc)
  qed
qed

lemma loop_subscriptions:
  assumes "loop st as = Inr (acts, done)" "ActSubscribe s c \<in> set acts"
  shows "\<exists>a \<in> set as. \<exists>g v. c = config (at_jctx a) \<and> getVendor c g (w_tryPrePostGnmi st) = Some v \<and> s = vn_subscribe v"
  using assms
proof (induction as arbitrary: st acts)
  case Nil
  thus ?case by (auto simp: loop_Nil)
next
  case (Cons a as)
  from Cons.prems(1) show ?case
  proof (cases rule: loop_cases)
    case stop
    from att_sub[OF stop(1) Cons.prems(2)] show ?thesis by auto
  next
    case (again st' acts1 acts2)
    from Cons.prems(2) again(3) consider "ActSubscribe s c \<in> set acts1" | "ActSubscribe s c \<in> set acts2" by auto
    thus ?thesis
    proof cases
      case 1
      from att_sub[OF again(1) 1] show ?thesis by auto
    next
      case 2
      from Cons.IH[OF again(2) 2] att_next[OF again(1)] show ?thesis by auto
    qed
  qed
qed

text \<open>As long as no code asks for the fallback, a loop that began with gNMI stays with it.\<close>

lemma loop_stays_gnmi:
  assumes "loop st as = Inr (acts, done)" "ActSubscribe s c \<in> set acts" "w_tryGnmi st" "\<not> w_tryPrePostGnmi st"
    and "\<forall>a \<in> set as. hasGnmi (at_after a) \<and> at_code a \<noteq> SubRcRPCFailedNoRetry"
  shows "getVendor c True False = Some newGNMI \<and> s = SubGNMI"
  using assms
proof (induction as arbitrary: st acts)
  case Nil
  thus ?case by (auto simp: loop_Nil)
next
  case (Cons a as)
  have gv: "getVendor d True False = Some newGNMI" for d
    by (simp add: getVendor_def vendors_def newGNMI_def)
  from Cons.prems(1) show ?case
  proof (cases rule: loop_cases)
    case stop
    from att_sub[OF stop(1) Cons.prems(2)] Cons.prems(3,4) gv show ?thesis by (auto simp: newGNMI_def)
  next
    case (again st' acts1 acts2)
    show ?thesis
    proof (cases "ActSubscribe s c \<in> set acts1")
      case True
      from att_sub[OF again(1) True] Cons.prems(3,4) gv show ?thesis by (auto simp: newGNMI_def)
    next
      case False
      hence 2: "ActSubscribe s c \<in> set acts2" using Cons.prems(2) again(3) by simp
      have "w_tryGnmi st'"
      proof (cases "\<exists>s c. ActSubscribe s c \<in> set acts1")
        case True
        then obtain s' c' where "ActSubscribe s' c' \<in> set acts1" by blast
        from att_sub[OF again(1) this] Cons.prems(3,5) show ?thesis
          by (auto simp: afterCode_def split: SubErrorCode.splits)
      next
        case False
        with att_quiet[OF again(1)] Cons.prems(3,5) show ?thesis by auto
      qed
      with Cons.IH[OF again(2) 2] att_next[OF again(1)] Cons.prems(4,5) show ?thesis by simp
    qed
  qed
qed

end

lemma loginAndSubscribe_cases:
  assumes "loginAndSubscribe v lc st a = Inr (r, acts)"
  obtains (refused) "r = Some (st\<lparr>w_retry := True, w_tryGnmi := hasGnmi (at_after a)\<rparr>)" "acts = [ActLogin, ActSleep]"
  | (subscribed) xs acts' where "set xs \<subseteq> {ActLogin}" "afterCode st (at_after a) (at_code a) = (r, acts')"
      "acts = xs @ ActSubscribe (vn_subscribe v) (config (at_jctx a)) # acts'"
proof -
  obtain r' acts' where a: "afterCode st (at_after a) (at_code a) = (r', acts')" by (cases "afterCode st (at_after a) (at_code a)")
  have "acts = [ActLogin, ActSleep] \<and> r = Some (st\<lparr>w_retry := True, w_tryGnmi := hasGnmi (at_after a)\<rparr>) \<or>
    (r = r' \<and> (\<exists>xs. set xs \<subseteq> {ActLogin} \<and> acts = xs @ ActSubscribe (vn_subscribe v) (config (at_jctx a)) # acts'))"
    using assms unfolding loginAndSubscribe_def Let_def a
    by (auto split: if_splits)
  thus thesis using refused subscribed a by blast
qed

lemma afterCode_cases:
  assumes "afterCode st after code = (r, acts)"
  shows "(r = None \<and> acts = [ActStatus]) \<or>
    (\<exists>st'. r = Some st' \<and> w_retry st' \<and> w_tryPrePostGnmi st' = w_tryPrePostGnmi st \<and> set acts \<subseteq> {ActSleep})"
  using assms by (cases code) (auto simp: afterCode_def)

text \<open>The four shapes of an attempt of either loop.\<close>

definition attempt_shape :: "wstate \<Rightarrow> attempt \<Rightarrow> wstate option \<Rightarrow> work_act list \<Rightarrow> bool" where
  "attempt_shape st a r acts \<longleftrightarrow>
     (r = None \<and> acts = [ActStatus]) \<or>
     (r = Some (st\<lparr>w_retry := True\<rparr>) \<and> (\<exists>h. set acts \<subseteq> {ActSleep, ActDial h})) \<or>
     (\<exists>h. r = Some (st\<lparr>w_retry := True, w_tryGnmi := hasGnmi (at_after a)\<rparr>) \<and> acts = [ActDial h, ActLogin, ActSleep]) \<or>
     (\<exists>h v xs acts'. set xs \<subseteq> {ActLogin} \<and> getVendor (config (at_jctx a)) (w_tryGnmi st) (w_tryPrePostGnmi st) = Some v \<and>
        afterCode st (at_after a) (at_code a) = (r, acts') \<and>
        acts = ActDial h # xs @ ActSubscribe (vn_subscribe v) (config (at_jctx a)) # acts')"

lemma workAttempt_shape:
  assumes "workAttempt e fl st a = Inr (r, acts)"
  shows "attempt_shape st a r acts"
proof (cases "getVendor (config (at_jctx a)) (w_tryGnmi st) (w_tryPrePostGnmi st)")
  case None
  thus ?thesis using assms by (auto simp: workAttempt_def attempt_shape_def)
next
  case (Some v)
  show ?thesis
  proof (cases "\<exists>acts0. loginAndSubscribe v (workLoginCheck st (at_jctx a)) st a = Inr (r, acts0) \<and> acts = ActDial (hostname (at_jctx a)) # acts0")
    case True
    then obtain acts0 where l: "loginAndSubscribe v (workLoginCheck st (at_jctx a)) st a = Inr (r, acts0)"
      and acts: "acts = ActDial (hostname (at_jctx a)) # acts0" by blast
    from l show ?thesis
      by (cases rule: loginAndSubscribe_cases) (use Some acts in \<open>auto simp: attempt_shape_def\<close>)
  next
    case False
    with assms Some show ?thesis
      by (auto simp: workAttempt_def attempt_shape_def bindR_Inr_iff Let_def split: if_splits)
  qed
qed

lemma tunnelAttempt_shape:
  assumes "tunnelAttempt e fl st a = Inr (r, acts)"
  shows "attempt_shape st a r acts"
proof (cases "getVendor (config (at_jctx a)) (w_tryGnmi st) (w_tryPrePostGnmi st)")
  case None
  thus ?thesis using assms by (auto simp: tunnelAttempt_def)
next
  case (Some v)
  show ?thesis
  proof (cases "\<exists>acts0. loginAndSubscribe v (tunnelLoginCheck st (at_jctx a)) st a = Inr (r, acts0) \<and> acts = ActDial ''use_tunnel:0'' # acts0")
    case True
    then obtain acts0 where l: "loginAndSubscribe v (tunnelLoginCheck st (at_jctx a)) st a = Inr (r, acts0)"
      and acts: "acts = ActDial ''use_tunnel:0'' # acts0" by blast
    from l show ?thesis
      by (cases rule: loginAndSubscribe_cases) (use Some acts in \<open>auto simp: attempt_shape_def\<close>)
  next
    case False
    with assms Some show ?thesis
      by (auto simp: tunnelAttempt_def attempt_shape_def bindR_Inr_iff Let_def split: if_splits)
  qed
qed

lemma shape_stop: "attempt_shape st a None acts \<Longrightarrow> \<exists>xs. acts = xs @ [ActStatus] \<and> ActStatus \<notin> set xs"
  by (fastforce simp: attempt_shape_def dest!: afterCode_cases simp flip: append_assoc append_Cons)

lemma shape_next:
  "attempt_shape st a (Some st') acts \<Longrightarrow> ActStatus \<notin> set acts \<and> w_retry st' \<and> w_tryPrePostGnmi st' = w_tryPrePostGnmi st"
  by (auto simp: attempt_shape_def dest!: afterCode_cases)

lemma shape_sub:
  "attempt_shape st a r acts \<Longrightarrow> ActSubscribe s c \<in> set acts \<Longrightarrow>
   c = config (at_jctx a) \<and> r = fst (afterCode st (at_after a) (at_code a)) \<and>
   (\<exists>v. getVendor c (w_tryGnmi st) (w_tryPrePostGnmi st) = Some v \<and> s = vn_subscribe v)"
  using afterCode_cases[of st "at_after a" "at_code a"] by (auto simp: attempt_shape_def)

lemma shape_quiet:
  "attempt_shape st a (Some st') acts \<Longrightarrow> (\<forall>s c. ActSubscribe s c \<notin> set acts) \<Longrightarrow>
   w_tryGnmi st' = w_tryGnmi st \<or> w_tryGnmi st' = hasGnmi (at_after a)"
  unfolding attempt_shape_def by (elim disjE exE conjE) (simp_all, blast)

lemmas shape_laws = shape_stop shape_next shape_sub shape_quiet

interpretation wl: connect_loop "workAttempt e fl" "workLoop e fl" for e fl
  by unfold_locales (simp, simp, (erule workAttempt_shape[THEN shape_laws(1)] workAttempt_shape[THEN shape_laws(2)]
    workAttempt_shape[THEN shape_laws(3)] workAttempt_shape[THEN shape_laws(4)]; assumption)+)

interpretation tl: connect_loop "tunnelAttempt e fl" "tunnelLoop e fl" for e fl
  by unfold_locales (simp, simp, (erule tunnelAttempt_shape[THEN shape_laws(1)] tunnelAttempt_shape[THEN shape_laws(2)]
    tunnelAttempt_shape[THEN shape_laws(3)] tunnelAttempt_shape[THEN shape_laws(4)]; assumption)+)


section \<open>Properties\<close>

lemma subscribegNMI_rc:
  assumes "subscribegNMI fl lib pb now net jctx cfg paths = Inr (Some rc, jctx', ms)"
  shows "rc \<noteq> SubRcRPCFailedNoRetry"
proof -
  from assms obtain req where "gnmiRequest jctx cfg paths = Inr req" by (auto simp: subscribegNMI_def bindR_Inr_iff)
  with assms show ?thesis
    by (cases req) (auto simp: subscribegNMI_def split: if_splits dest: gnmiReceive_codes)
qed

lemma status_once:
  "acts = xs @ [ActStatus] \<Longrightarrow> ActStatus \<notin> set xs \<Longrightarrow> count_list acts ActStatus = 1 \<and> last acts = ActStatus"
  by (simp add: count_list_0_iff)

lemma work_cases:
  assumes "work e fl up session jctx evs as = Inr (acts, done)"
  obtains (direct) "ts_Address (g_TunnelServer (GRPC (config jctx))) = []" "workLoop e fl (workInit jctx) as = Inr (acts, done)"
  | (tunnel) "ts_Address (g_TunnelServer (GRPC (config jctx))) \<noteq> []" "tunnelLoop e fl (workInit jctx) as = Inr (acts, done)"
  | (no_tunnel) "ts_Address (g_TunnelServer (GRPC (config jctx))) \<noteq> []" "acts = []"
  using assms by (auto simp: work_def workTunnel_def split: if_splits option.splits)

text \<open>
  C15. The worker hears of the end of its connection at most once: a run of \<open>work\<close> sends at most one status message, as its
  last action and only when it returns; and without a tunnel it does send one when it returns.
\<close>

theorem work_status:
  assumes "work e fl up session jctx evs as = Inr (acts, done)"
  shows "count_list acts ActStatus \<le> 1 \<and> (ActStatus \<in> set acts \<longrightarrow> done \<and> last acts = ActStatus) \<and>
    (ts_Address (g_TunnelServer (GRPC (config jctx))) = [] \<longrightarrow> (done \<longleftrightarrow> ActStatus \<in> set acts))"
  using assms
proof (cases rule: work_cases)
  case direct
  show ?thesis
    using wl.loop_status[OF direct(2)] status_once by (cases "done") (auto simp: count_list_0_iff)
next
  case tunnel
  show ?thesis
    using tl.loop_status[OF tunnel(2)] tunnel(1) status_once by (cases "done") (auto simp: count_list_0_iff)
qed simp

definition ex_attempt :: "JCtx \<Rightarrow> SubErrorCode \<Rightarrow> attempt" where
  "ex_attempt j code = \<lparr>at_jctx = j, at_after = j, at_signal = None, at_dial = True, at_login = True, at_code = code\<rparr>"

definition ex_conn_jctx :: "PathsConfig list \<Rightarrow> JCtx" where
  "ex_conn_jctx ps = zeroJCtx\<lparr>config := zeroConfig\<lparr>Host := ''r1'', Port := 50051, Paths := ps,
     Vendor := (Vendor zeroConfig)\<lparr>v_Gnmi := Some \<lparr>gc_Encoding = [], gc_Mode = 0\<rparr>\<rparr>\<rparr>\<rparr>"

definition ex_conn_env :: env where
  "ex_conn_env = ex_env ex_cfg"

lemma ex_work_run:
  "work ex_conn_env zeroFlags (\<lambda>_. True) True (ex_conn_jctx []) []
     [ex_attempt (ex_conn_jctx []) SubRcConnRetry, ex_attempt (ex_conn_jctx [ex_gnmi_path]) SubRcSighupNoRestart] =
   Inr ([ActDial ''r1:50051'', ActSubscribe SubGNMI (config (ex_conn_jctx [])), ActSleep, ActDial ''r1:50051'',
     ActSubscribe SubGNMI (config (ex_conn_jctx [ex_gnmi_path])), ActStatus], True)"
  by code_simp

theorem work_status_witness:
  "\<exists>acts. work ex_conn_env zeroFlags (\<lambda>_. True) True (ex_conn_jctx []) []
     [ex_attempt (ex_conn_jctx []) SubRcConnRetry, ex_attempt (ex_conn_jctx [ex_gnmi_path]) SubRcSighupNoRestart] = Inr (acts, True) \<and>
     count_list acts ActStatus \<le> 1 \<and> ActStatus \<in> set acts"
  using ex_work_run work_status[OF ex_work_run] by (simp add: ex_conn_jctx_def zero_defs)

text \<open>
  The mixed mode is chosen once: every subscription of a run uses it exactly when the paths at the start of the run
  were marked for gNMI or native telemetry, whatever the configurations of later attempts say. Paths marked by a
  configuration change are therefore not subscribed as marked.
\<close>

theorem work_mode_fixed:
  assumes "work e fl up session jctx evs as = Inr (acts, done)" and "ActSubscribe s c \<in> set acts"
    and "v_Name (Vendor c) \<noteq> ''pre-post-gnmi''"
  shows "s = SubPrePost \<longleftrightarrow> markedPaths jctx"
proof -
  obtain g v where v: "getVendor c g (markedPaths jctx) = Some v" "s = vn_subscribe v"
    using assms(1)
  proof (cases rule: work_cases)
    case direct
    from wl.loop_subscriptions[OF direct(2) assms(2)] that show thesis by (auto simp: workInit_def)
  next
    case tunnel
    from tl.loop_subscriptions[OF tunnel(2) assms(2)] that show thesis by (auto simp: workInit_def)
  qed (use assms(2) in simp)
  show ?thesis
    using v assms(3)
    by (auto simp: getVendor_def vendors_def newGNMI_def newJuniperJUNOS_def newCiscoIOSXR_def newPrePostGNMI_def Let_def
        split: if_splits)
qed

definition ex_attempts :: "attempt list" where
  "ex_attempts = [ex_attempt (ex_conn_jctx []) SubRcConnRetry, ex_attempt (ex_conn_jctx [ex_gnmi_path]) SubRcSighupNoRestart]"

theorem work_mode_fixed_witness:
  "\<exists>acts s c. work ex_conn_env zeroFlags (\<lambda>_. True) True (ex_conn_jctx []) [] ex_attempts = Inr (acts, True) \<and>
     ActSubscribe s c \<in> set acts \<and> c = config (ex_conn_jctx [ex_gnmi_path]) \<and> markedPaths (ex_conn_jctx [ex_gnmi_path]) \<and>
     s \<noteq> SubPrePost"
proof -
  have m: "markedPaths (ex_conn_jctx [ex_gnmi_path])" "\<not> markedPaths (ex_conn_jctx [])"
    by (simp_all add: markedPaths_def ex_conn_jctx_def ex_gnmi_path_def)
  have v: "v_Name (Vendor (config (ex_conn_jctx [ex_gnmi_path]))) \<noteq> ''pre-post-gnmi''"
    by (simp add: ex_conn_jctx_def zero_defs)
  from ex_work_run obtain acts s where r: "work ex_conn_env zeroFlags (\<lambda>_. True) True (ex_conn_jctx []) [] ex_attempts = Inr (acts, True)"
    and s: "ActSubscribe s (config (ex_conn_jctx [ex_gnmi_path])) \<in> set acts"
    unfolding ex_attempts_def by (metis list.set_intros)
  from work_mode_fixed[OF r s v] m r s show ?thesis by blast
qed

text \<open>
  A device that does not know gNMI is never asked for native telemetry instead: when gNMI is configured, no path is
  marked, and every code comes from the gNMI subscription, all subscriptions of the run are gNMI ones. The fallback to
  the vendor's own RPC is not reached, because the subscription never returns the code for it.
\<close>

theorem work_no_fallback:
  assumes "work e fl up session jctx evs as = Inr (acts, done)" and "hasGnmi jctx" and "\<not> markedPaths jctx"
    and "\<forall>a \<in> set as. hasGnmi (at_after a) \<and>
      (\<exists>lib pb now net jctx' ms. subscribegNMI fl lib pb now net (at_jctx a) (config (at_jctx a)) (Paths (config (at_jctx a)))
         = Inr (Some (at_code a), jctx', ms))"
    and "ActSubscribe s c \<in> set acts"
  shows "s = SubGNMI"
proof -
  have st: "w_tryGnmi (workInit jctx)" "\<not> w_tryPrePostGnmi (workInit jctx)"
    using assms(2,3) by (simp_all add: workInit_def)
  have as: "\<forall>a \<in> set as. hasGnmi (at_after a) \<and> at_code a \<noteq> SubRcRPCFailedNoRetry"
    using assms(4) subscribegNMI_rc by blast
  from assms(1) show ?thesis
  proof (cases rule: work_cases)
    case direct
    from wl.loop_stays_gnmi[OF direct(2) assms(5) st as] show ?thesis by simp
  next
    case tunnel
    from tl.loop_stays_gnmi[OF tunnel(2) assms(5) st as] show ?thesis by simp
  qed (use assms(5) in simp)
qed

theorem work_no_fallback_witness:
  "\<exists>acts s c. work ex_conn_env zeroFlags (\<lambda>_. True) True (ex_conn_jctx []) [] [ex_attempt (ex_conn_jctx []) SubRcConnRetry]
     = Inr (acts, False) \<and> ActSubscribe s c \<in> set acts \<and> s = SubGNMI"
proof -
  have r: "work ex_conn_env zeroFlags (\<lambda>_. True) True (ex_conn_jctx []) [] [ex_attempt (ex_conn_jctx []) SubRcConnRetry]
     = Inr ([ActDial ''r1:50051'', ActSubscribe SubGNMI (config (ex_conn_jctx [])), ActSleep], False)" by code_simp
  have s: "subscribegNMI zeroFlags plain_lib ex_pb 0 \<lparr>gn_subscribe_ok = True, gn_send_ok = True, gn_events = [RecvError Unimplemented]\<rparr>
     (ex_conn_jctx []) (config (ex_conn_jctx [])) (Paths (config (ex_conn_jctx []))) = Inr (Some SubRcConnRetry, ex_conn_jctx [], [])"
    by code_simp
  have h: "hasGnmi (ex_conn_jctx [])" "\<not> markedPaths (ex_conn_jctx [])"
    by (simp_all add: hasGnmi_def markedPaths_def ex_conn_jctx_def)
  have a: "\<forall>a \<in> set [ex_attempt (ex_conn_jctx []) SubRcConnRetry]. hasGnmi (at_after a) \<and>
      (\<exists>lib pb now net jctx' ms. subscribegNMI zeroFlags lib pb now net (at_jctx a) (config (at_jctx a)) (Paths (config (at_jctx a)))
         = Inr (Some (at_code a), jctx', ms))"
    using s h(1) by (simp add: ex_attempt_def) blast
  from r work_no_fallback[OF r h a] show ?thesis by (metis list.set_intros)
qed



text \<open>
  A tunnel worker whose tunnel cannot be set up returns without a status message: its worker is never told, stays in
  the map of the workers and is never removed.
\<close>

theorem workTunnel_silent:
  assumes "ts_Address (g_TunnelServer (GRPC (config jctx))) \<noteq> []"
    and "\<not> up (tunnelCreds (ts_TLS (g_TunnelServer (GRPC (config jctx)))))"
  shows "work e fl up session jctx evs as = Inr ([], True)"
  using assms by (simp add: work_def workTunnel_def)

theorem workTunnel_silent_witness:
  "work ex_conn_env zeroFlags (\<lambda>c. c \<noteq> TunnelTLS []) True
     (zeroJCtx\<lparr>config := zeroConfig\<lparr>GRPC := (GRPC zeroConfig)\<lparr>g_TunnelServer := (g_TunnelServer (GRPC zeroConfig))\<lparr>ts_Address := ''t:443''\<rparr>\<rparr>\<rparr>\<rparr>)
     [] [] = Inr ([], True)"
  by (rule workTunnel_silent) (simp_all add: tunnelCreds_def zero_defs)

end
