(* ===== verification/Worker.thy ===== *)
theory Worker
  imports Connect
begin

text \<open>
  The workers of workers.go: \<open>NewJWorker\<close> with the event loop of its goroutine, \<open>getDialOutRequest\<close>, and the manager
  \<open>JWorkers\<close> that adds, signals and removes workers.

  The event loop is a step function. It takes an event (a signal, the status message of the connection loop, a response
  on the data channel) and gives what the goroutine does to the outside, in order, and the context with which it goes on,
  or nothing when it has returned. \<open>js\<close> is the JSON encoding of a configuration, \<open>pm\<close> the encoding of a
  request, \<open>myName\<close> the environment variable \<open>MY_NAME\<close>.
\<close>

section \<open>Dial-out requests\<close>

record DialOutRequest =
  dr_Device :: string
  dr_Paths :: "DialOutPath list"
  dr_Context :: string
  dr_RpcType :: string

definition getDialOutRequest :: "(Config \<Rightarrow> string) \<Rightarrow> string option \<Rightarrow> JCtx \<Rightarrow> DialOutRequest" where
  "getDialOutRequest js myName jctx =
     (let cfg = config jctx;
          server = (case myName of Some n \<Rightarrow> n | None \<Rightarrow> i_Server (Influx cfg));
          i = (Influx cfg)\<lparr>i_Server := server\<rparr>;
          i' = (if i_Dbname i = [] then i\<lparr>i_Dbname := Host cfg\<rparr> else i);
          dialOutCfg = cfg\<lparr>Influx := i'\<rparr>
      in \<lparr>dr_Device = Host dialOutCfg,
          dr_Paths = map (\<lambda>p. \<lparr>do_Path = p_Path p, do_Frequency = p_Freq p, do_Mode = p_Mode p\<rparr>) (Paths dialOutCfg),
          dr_Context = js dialOutCfg, dr_RpcType = []\<rparr>)"

text \<open>Sending a request with the producer, which is dereferenced without a check.\<close>

definition publishConfig :: "string \<Rightarrow> JCtx \<Rightarrow> JCtx go" where
  "publishConfig payload jctx =
     (case Kafka (config jctx) of
        None \<Rightarrow> Inl NilDeref
      | Some k \<Rightarrow>
          (case k_producer k of
             None \<Rightarrow> Inl NilDeref
           | Some sent \<Rightarrow>
               Inr (upd_config (\<lambda>c. c\<lparr>Kafka := Some (k\<lparr>k_producer := Some (sent @ [(''gnmi-config'', payload)])\<rparr>)\<rparr>) jctx)))"


section \<open>One worker\<close>

datatype wsignal = SIGCONT | Os os_signal

datatype wevent = Signal wsignal | Status | Data SubscribeResponse

datatype wout = StartWork | ToControl os_signal | ToManager string | WgDone

record wenv =
  we_env :: env
  we_flags :: Flags
  we_lib :: influx_lib
  we_pb :: pb_lib
  we_now :: int
  we_json :: "Config \<Rightarrow> string"
  we_marshal :: "DialOutRequest \<Rightarrow> string"
  we_myName :: "string option"

definition dialOutPublish :: "wenv \<Rightarrow> JCtx \<Rightarrow> JCtx go" where
  "dialOutPublish w jctx = publishConfig (we_marshal w (getDialOutRequest (we_json w) (we_myName w) jctx)) jctx"

definition stopLogs :: "Flags \<Rightarrow> JCtx \<Rightarrow> JCtx" where
  "stopLogs fl jctx = internalJtimonLogStop fl (logStop jctx)"

definition workerSighup :: "wenv \<Rightarrow> JCtx \<Rightarrow> (JCtx \<times> wout list) go" where
  "workerSighup w jctx =
     bindR (ConfigRead (we_env w) (we_flags w) jctx False) (\<lambda>r.
       let (j1, restart) = (case r of Inl _ \<Rightarrow> (jctx, False) | Inr jr \<Rightarrow> jr)
       in if \<not> f_dialOut (we_flags w) then Inr (j1, if restart then [ToControl SIGHUP] else [])
          else bindR (dialOutPublish w j1) (\<lambda>j2. Inr (j2, [])))"

text \<open>The context with which the goroutine goes on (\<^term>\<open>None\<close>: it has returned), and what it did.\<close>

definition workerStep :: "wenv \<Rightarrow> JCtx \<Rightarrow> wevent \<Rightarrow> (JCtx option \<times> wout list) go" where
  "workerStep w jctx ev =
     (case ev of
        Signal (Os Interrupt) \<Rightarrow> Inr (None, [WgDone, ToControl Interrupt])
      | Signal (Os SIGHUP) \<Rightarrow> bindR (workerSighup w jctx) (\<lambda>(j, outs). Inr (Some j, outs))
      | Signal SIGCONT \<Rightarrow> Inr (Some jctx, if f_dialOut (we_flags w) then [] else [StartWork])
      | Status \<Rightarrow> Inr (None, [ToManager (jfile jctx), WgDone])
      | Data rsp \<Rightarrow>
          bindR (gnmiHandleResponse (we_flags w) (we_lib w) (we_pb w) (we_now w) jctx rsp) (\<lambda>(_, j, _). Inr (Some j, [])))"

fun workerRun :: "wenv \<Rightarrow> JCtx \<Rightarrow> wevent list \<Rightarrow> (JCtx option \<times> wout list) go" where
  "workerRun w jctx [] = Inr (Some jctx, [])"
| "workerRun w jctx (ev # evs) =
     bindR (workerStep w jctx ev) (\<lambda>(next, outs).
       case next of
         None \<Rightarrow> Inr (None, outs)
       | Some j \<Rightarrow> bindR (workerRun w j evs) (\<lambda>(r, outs'). Inr (r, outs @ outs')))"

text \<open>
  \<open>NewJWorker\<close>: \<open>Inl\<close> inside is the returned error. The result is the context with which the event loop of the goroutine
  begins; in dial-out mode the goroutine first publishes the configuration.
\<close>

definition NewJWorker :: "wenv \<Rightarrow> string \<Rightarrow> (unit + JCtx) go" where
  "NewJWorker w file =
     bindR (ConfigRead (we_env w) (we_flags w) (zeroJCtx\<lparr>jfile := file\<rparr>) True) (\<lambda>r.
       case r of
         Inl _ \<Rightarrow> Inr (Inl ())
       | Inr (j, _) \<Rightarrow>
           let j1 = (case NewAlias (env_alias (we_env w) (CAlias (config j))) of Some a \<Rightarrow> j\<lparr>jalias := Some a\<rparr> | None \<Rightarrow> j)
           in if f_dialOut (we_flags w) then bindR (dialOutPublish w j1) (\<lambda>j2. Inr (Inr j2)) else Inr (Inr j1))"


section \<open>The workers\<close>

text \<open>
  The map of the workers has a unit for each file; the workers themselves are addressed by signals, in the order sent.
  \<open>ok\<close> says for which files \<open>NewJWorker\<close> succeeds.
\<close>

record JWorkers =
  ws_m :: "(string, unit) gomap"
  ws_wg :: nat
  ws_files :: "string list"
  ws_fileList :: string

type_synonym sends = "(string \<times> wsignal) list"

definition NewJWorkers :: "string list \<Rightarrow> string \<Rightarrow> JWorkers" where
  "NewJWorkers files fileList = \<lparr>ws_m = [], ws_wg = 0, ws_files = files, ws_fileList = fileList\<rparr>"

definition AddWorker :: "(string \<Rightarrow> bool) \<Rightarrow> JWorkers \<Rightarrow> string \<Rightarrow> JWorkers" where
  "AddWorker ok ws file = (if ok file then ws\<lparr>ws_m := mput (ws_m ws) file (), ws_wg := ws_wg ws + 1\<rparr> else ws)"

definition AddWorkers :: "(string \<Rightarrow> bool) \<Rightarrow> JWorkers \<Rightarrow> string list \<Rightarrow> JWorkers" where
  "AddWorkers ok ws files = foldl (AddWorker ok) ws files"

definition StartWorkers :: "Flags \<Rightarrow> (string \<Rightarrow> bool) \<Rightarrow> JWorkers \<Rightarrow> JWorkers \<times> sends" where
  "StartWorkers fl ok ws =
     (let ws' = AddWorkers ok ws (ws_files ws)
      in (ws', if f_dialOut fl then [] else map (\<lambda>(f, _). (f, SIGCONT)) (ws_m ws')))"

definition StartWorker :: "(string \<Rightarrow> bool) \<Rightarrow> JWorkers \<Rightarrow> string \<Rightarrow> JWorkers \<times> sends" where
  "StartWorker ok ws file =
     (let ws' = AddWorker ok ws file
      in (ws', if mget (ws_m ws') file \<noteq> None then [(file, SIGCONT)] else []))"

definition configStep :: "(string \<Rightarrow> bool) \<Rightarrow> JWorkers \<times> sends \<Rightarrow> string \<Rightarrow> JWorkers \<times> sends" where
  "configStep ok = (\<lambda>(ws, out) file.
     if mget (ws_m ws) file \<noteq> None then (ws, out @ [(file, Os SIGHUP)])
     else let (ws', out') = StartWorker ok ws file in (ws', out @ out'))"

definition handleConfigChanges :: "env \<Rightarrow> (string \<Rightarrow> bool) \<Rightarrow> JWorkers \<Rightarrow> JWorkers \<times> sends" where
  "handleConfigChanges e ok ws =
     (case NewJTIMONConfigFilelist e (ws_fileList ws) of
        None \<Rightarrow> (ws, [])
      | Some files \<Rightarrow>
          let (ws1, out1) = foldl (configStep ok) (ws, []) files;
              gone = filter (\<lambda>(f, _). \<not> StringInSlice f files) (ws_m ws1)
          in (ws1\<lparr>ws_m := foldl (\<lambda>m (f, _). mdel m f) (ws_m ws1) gone\<rparr>, out1 @ map (\<lambda>(f, _). (f, Os Interrupt)) gone))"

text \<open>One signal or one status message in \<open>signalHandler\<close>; the flag says whether the handler returns.\<close>

definition signalHandler_sig :: "env \<Rightarrow> (string \<Rightarrow> bool) \<Rightarrow> JWorkers \<Rightarrow> os_signal \<Rightarrow> JWorkers \<times> sends \<times> bool" where
  "signalHandler_sig e ok ws s =
     (case s of
        SIGHUP \<Rightarrow>
          (if ws_fileList ws \<noteq> [] then let (ws', out) = handleConfigChanges e ok ws in (ws', out, False)
           else (ws, map (\<lambda>(f, _). (f, Os SIGHUP)) (ws_m ws), False))
      | Interrupt \<Rightarrow> (ws, map (\<lambda>(f, _). (f, Os Interrupt)) (ws_m ws), True))"

definition signalHandler_status :: "JWorkers \<Rightarrow> string \<Rightarrow> JWorkers" where
  "signalHandler_status ws file = ws\<lparr>ws_m := mdel (ws_m ws) file\<rparr>"

definition maxRunHandler :: "JWorkers \<Rightarrow> int \<Rightarrow> sends" where
  "maxRunHandler ws mr = (if mr > 0 then map (\<lambda>(f, _). (f, Os Interrupt)) (ws_m ws) else [])"


section \<open>Lemmas\<close>

abbreviation files_of :: "JWorkers \<Rightarrow> string set" where
  "files_of ws \<equiv> {f. mget (ws_m ws) f \<noteq> None}"

lemma files_of_AddWorker:
  "files_of (AddWorker ok ws f) = (if ok f then insert f (files_of ws) else files_of ws)"
  "mwf (ws_m ws) \<Longrightarrow> mwf (ws_m (AddWorker ok ws f))"
  "ws_wg (AddWorker ok ws f) = ws_wg ws + (if ok f then 1 else 0)"
  "ws_fileList (AddWorker ok ws f) = ws_fileList ws"
  by (auto simp: AddWorker_def gm.wf_put)

lemma AddWorkers_files:
  "files_of (AddWorkers ok ws fs) = files_of ws \<union> {f \<in> set fs. ok f} \<and>
   (mwf (ws_m ws) \<longrightarrow> mwf (ws_m (AddWorkers ok ws fs))) \<and>
   ws_wg (AddWorkers ok ws fs) = ws_wg ws + length (filter ok fs)"
proof (induction fs arbitrary: ws)
  case (Cons f fs)
  from Cons.IH[of "AddWorker ok ws f"] show ?case
    using files_of_AddWorker[where ok = ok and ws = ws and f = f] by (auto simp: AddWorkers_def)
qed (simp add: AddWorkers_def)

lemma mwf_card: "mwf m \<Longrightarrow> length m = card {k. mget m k \<noteq> None}"
proof -
  assume "mwf m"
  hence "length m = card (set (map fst m))" unfolding mwf_def by (metis distinct_card length_map)
  also have "set (map fst m) = {k. mget m k \<noteq> None}" by (auto simp: mget_def map_of_eq_None_iff image_iff)
  finally show ?thesis .
qed

lemma count_WgDone_sighup: "workerSighup w j = Inr (j', outs) \<Longrightarrow> count_list outs WgDone = 0"
  unfolding workerSighup_def bindR_Inr_iff Let_def
  by (elim exE conjE) (auto simp: bindR_Inr_iff split: prod.splits if_splits)

lemma workerStep_wg:
  assumes "workerStep w j ev = Inr (r, outs)"
  shows "count_list outs WgDone = (if r = None then 1 else 0)"
proof (cases ev)
  case (Signal sg)
  show ?thesis
  proof (cases sg)
    case SIGCONT
    with Signal assms show ?thesis by (auto simp: workerStep_def split: if_splits)
  next
    case (Os x)
    with Signal assms count_WgDone_sighup show ?thesis
      by (cases x) (auto simp: workerStep_def bindR_Inr_iff)
  qed
next
  case Status
  with assms show ?thesis by (auto simp: workerStep_def)
next
  case (Data rsp)
  with assms show ?thesis by (auto simp: workerStep_def bindR_Inr_iff)
qed

lemma StartWorker_files:
  assumes "StartWorker ok ws f = (ws', out)" "f \<notin> files_of ws"
  shows "files_of ws' = (if ok f then insert f (files_of ws) else files_of ws) \<and> (mwf (ws_m ws) \<longrightarrow> mwf (ws_m ws')) \<and>
    set out = (if ok f then {(f, SIGCONT)} else {})"
  using assms files_of_AddWorker[where ok = ok and ws = ws and f = f] by (auto simp: StartWorker_def Let_def AddWorker_def)

lemma configStep_files:
  assumes "configStep ok (ws, out) f = (ws', out')"
  shows "files_of ws' = files_of ws \<union> (if ok f then {f} else {}) \<and> (mwf (ws_m ws) \<longrightarrow> mwf (ws_m ws')) \<and>
    set out' = set out \<union> (if f \<in> files_of ws then {(f, Os SIGHUP)} else if ok f then {(f, SIGCONT)} else {})"
proof (cases "f \<in> files_of ws")
  case True
  thus ?thesis using assms by (auto simp: configStep_def)
next
  case False
  obtain w o' where s: "StartWorker ok ws f = (w, o')" by (cases "StartWorker ok ws f")
  with False assms have "ws' = w" "out' = out @ o'" by (auto simp: configStep_def)
  with StartWorker_files[OF s False] False show ?thesis by auto
qed

lemma configSteps_files:
  assumes "foldl (configStep ok) (ws, out) fs = (ws', out')"
  shows "files_of ws' = files_of ws \<union> {f \<in> set fs. ok f} \<and> (mwf (ws_m ws) \<longrightarrow> mwf (ws_m ws')) \<and>
    ((f, SIGCONT) \<in> set out' \<longleftrightarrow> (f, SIGCONT) \<in> set out \<or> f \<in> set fs \<and> ok f \<and> f \<notin> files_of ws) \<and>
    ((f, Os Interrupt) \<in> set out' \<longleftrightarrow> (f, Os Interrupt) \<in> set out) \<and>
    ((f, Os SIGHUP) \<in> set out \<or> f \<in> set fs \<and> f \<in> files_of ws \<longrightarrow> (f, Os SIGHUP) \<in> set out')"
  using assms
proof (induction fs arbitrary: ws out)
  case (Cons g fs)
  obtain w1 o1 where s: "configStep ok (ws, out) g = (w1, o1)" by (cases "configStep ok (ws, out) g")
  with Cons.prems have "foldl (configStep ok) (w1, o1) fs = (ws', out')" by simp
  from Cons.IH[OF this] configStep_files[OF s] show ?case
    by (auto split: if_splits)
qed auto

lemma mget_foldl_mdel:
  "mwf m \<Longrightarrow> mget (foldl (\<lambda>m (f, _). mdel m f) m gone) k = (if k \<in> fst ` set gone then None else mget m k)"
proof (induction gone arbitrary: m)
  case (Cons g gone)
  obtain f u where g: "g = (f, u)" by (cases g)
  from Cons.IH[of "mdel m f"] Cons.prems show ?case by (simp add: g gm.get_del gm.wf_del)
qed simp


section \<open>Properties\<close>

text \<open>
  C8. A SIGHUP with a file list reconciles the workers with the list: afterwards there is a worker exactly for the listed
  files that had one or whose configuration can be read; the workers of files no longer listed are interrupted and no
  others; new workers are started and no others; and every worker that stays is told to read its configuration again.
\<close>

theorem handleConfigChanges_reconciles:
  assumes "NewJTIMONConfigFilelist e (ws_fileList ws) = Some files" and "mwf (ws_m ws)"
    and "handleConfigChanges e ok ws = (ws', out)"
  shows "(f \<in> files_of ws' \<longleftrightarrow> f \<in> set files \<and> (f \<in> files_of ws \<or> ok f)) \<and>
    ((f, Os Interrupt) \<in> set out \<longleftrightarrow> f \<in> files_of ws \<and> f \<notin> set files) \<and>
    ((f, SIGCONT) \<in> set out \<longleftrightarrow> f \<in> set files \<and> f \<notin> files_of ws \<and> ok f) \<and>
    (f \<in> set files \<and> f \<in> files_of ws \<longrightarrow> (f, Os SIGHUP) \<in> set out)"
proof -
  obtain ws1 out1 where s: "foldl (configStep ok) (ws, []) files = (ws1, out1)"
    by (cases "foldl (configStep ok) (ws, []) files")
  define gone where "gone = filter (\<lambda>(f, _). \<not> StringInSlice f files) (ws_m ws1)"
  have w: "ws' = ws1\<lparr>ws_m := foldl (\<lambda>m (f, _). mdel m f) (ws_m ws1) gone\<rparr>" "out = out1 @ map (\<lambda>(f, _). (f, Os Interrupt)) gone"
    using assms(1,3) s by (simp_all add: handleConfigChanges_def gone_def Let_def)
  note c = configSteps_files[OF s, of f]
  have g: "f \<in> fst ` set gone \<longleftrightarrow> f \<in> files_of ws1 \<and> f \<notin> set files"
    using c assms(2) by (auto simp: gone_def StringInSlice_def list_ex_iff mget_mem image_iff simp flip: ex_simps)
  have m: "mget (ws_m ws') f = (if f \<in> fst ` set gone then None else mget (ws_m ws1) f)"
    using c assms(2) by (simp add: w mget_foldl_mdel)
  show ?thesis
    using c g m by (auto simp: w(2) image_iff split: if_splits) force+
qed

text \<open>
  The wait group counts the workers started: one for each entry of the list whose configuration can be read, while the
  map has one worker for each file. The counts agree exactly when no such file is given twice; with a file given twice the
  earlier of its workers is in no map, gets no signal, and \<open>Wait\<close> does not return.
\<close>

theorem AddWorkers_wg:
  "ws_wg (AddWorkers ok (NewJWorkers files l) files) = length (ws_m (AddWorkers ok (NewJWorkers files l) files))
   \<longleftrightarrow> distinct (filter ok files)"
proof -
  let ?ws = "AddWorkers ok (NewJWorkers files l) files"
  have "files_of ?ws = set (filter ok files)" "mwf (ws_m ?ws)" "ws_wg ?ws = length (filter ok files)"
    using AddWorkers_files[of ok "NewJWorkers files l" files] by (auto simp: NewJWorkers_def gm.wf_emp)
  moreover from this mwf_card have "length (ws_m ?ws) = card (set (filter ok files))" by metis
  ultimately show ?thesis by (metis card_distinct distinct_card)
qed

text \<open>
  C25. A worker signs off once: over any sequence of events its goroutine calls \<open>wg.Done\<close> exactly once if it returns and
  never if it goes on.
\<close>

theorem workerRun_signs_off_once:
  assumes "workerRun w j evs = Inr (r, outs)"
  shows "count_list outs WgDone = (if r = None then 1 else 0)"
  using assms
proof (induction evs arbitrary: j outs)
  case (Cons ev evs)
  obtain r1 outs1 where s: "workerStep w j ev = Inr (r1, outs1)" using Cons.prems by (auto simp: bindR_Inr_iff)
  have c: "count_list outs1 WgDone = (if r1 = None then 1 else 0)"
    by (rule workerStep_wg[OF s])
  show ?case
  proof (cases r1)
    case None
    with Cons.prems s c show ?thesis by auto
  next
    case (Some j1)
    with Cons.prems s obtain outs2 where "workerRun w j1 evs = Inr (r, outs2)" "outs = outs1 @ outs2"
      by (auto simp: bindR_Inr_iff)
    with Cons.IH c Some show ?thesis by simp
  qed
qed auto

definition ex_wenv :: "Flags \<Rightarrow> Config \<Rightarrow> wenv" where
  "ex_wenv fl c = \<lparr>we_env = ex_env c, we_flags = fl, we_lib = plain_lib, we_pb = ex_pb, we_now = 0, we_json = Host,
     we_marshal = dr_Device, we_myName = None\<rparr>"

theorem workerRun_signs_off_once_witness:
  "\<exists>outs. workerRun (ex_wenv zeroFlags ex_cfg) ex_running [Signal SIGCONT, Signal (Os SIGHUP), Signal (Os Interrupt), Status]
     = Inr (None, outs) \<and> count_list outs WgDone = 1"
proof -
  have s: "workerSighup (ex_wenv zeroFlags ex_cfg) ex_running = Inr (ex_running, [])"
    using up_to_date_stable[OF ConfigRead_init_up_to_date[OF ex_init], of zeroFlags]
    by (simp add: workerSighup_def ex_wenv_def zeroFlags_def)
  have "workerRun (ex_wenv zeroFlags ex_cfg) ex_running [Signal SIGCONT, Signal (Os SIGHUP), Signal (Os Interrupt), Status]
     = Inr (None, [StartWork, WgDone, ToControl Interrupt])"
    using s by (simp add: workerStep_def) (simp add: ex_wenv_def zeroFlags_def)
  from this workerRun_signs_off_once[OF this] show ?thesis by auto
qed

theorem handleConfigChanges_reconciles_witness:
  "\<exists>ws out. handleConfigChanges (ex_env ex_cfg) (\<lambda>f. f = ''r1.json'')
       \<lparr>ws_m = [(''r0.json'', ())], ws_wg = 1, ws_files = [''r0.json''], ws_fileList = ''list''\<rparr> = (ws, out) \<and>
     ''r1.json'' \<in> files_of ws \<and> (''r0.json'', Os Interrupt) \<in> set out \<and> (''r1.json'', SIGCONT) \<in> set out"
proof -
  let ?ws = "\<lparr>ws_m = [(''r0.json'', ())], ws_wg = 1, ws_files = [''r0.json''], ws_fileList = ''list''\<rparr>"
  obtain ws out where h: "handleConfigChanges (ex_env ex_cfg) (\<lambda>f. f = ''r1.json'') ?ws = (ws, out)"
    by (cases "handleConfigChanges (ex_env ex_cfg) (\<lambda>f. f = ''r1.json'') ?ws")
  have l: "NewJTIMONConfigFilelist (ex_env ex_cfg) (ws_fileList ?ws) = Some [''r1.json'']"
    by (simp add: NewJTIMONConfigFilelist_def ParseJSONConfigFileList_def ex_env_def)
  have m: "mwf (ws_m ?ws)" by (simp add: mwf_def)
  note r = handleConfigChanges_reconciles[OF l m h]
  from r[of "''r1.json''"] r[of "''r0.json''"] h show ?thesis
    by (auto simp: mget_def)
qed

text \<open>
  In dial-out mode a SIGHUP that finds a changed configuration crashes the worker: the producer was lost with the
  replaced configuration, and it is used to publish the new one.
\<close>

theorem workerSighup_dialout_panics:
  assumes "f_dialOut (we_flags w)" and "NewJTIMONConfig (we_env w) (jfile j) = Some c"
    and "\<forall>k. Kafka c = Some k \<longrightarrow> k_producer k = None"
    and "HandleConfigChange (we_env w) (we_flags w) j c = Inr (j', True)"
  shows "workerStep w j (Signal (Os SIGHUP)) = Inl NilDeref"
proof -
  have "Kafka (config j') = Kafka c"
    using assms(4) by (auto simp: HandleConfigChange_def Let_def bindR_Inr_iff keeps_simps split: if_splits)
  hence "dialOutPublish w j' = Inl NilDeref"
    using assms(3) by (auto simp: dialOutPublish_def publishConfig_def split: option.split)
  thus ?thesis
    using assms(1,2,4) by (simp add: workerStep_def workerSighup_def ConfigRead_def)
qed

theorem workerSighup_dialout_panics_witness:
  "workerStep (ex_wenv (zeroFlags\<lparr>f_dialOut := True\<rparr>) (ex_cfg\<lparr>Host := ''r2''\<rparr>)) ex_running (Signal (Os SIGHUP)) = Inl NilDeref"
proof (rule workerSighup_dialout_panics[where c = ex_cfg2])
  let ?fl = "zeroFlags\<lparr>f_dialOut := True\<rparr>"
  have f: "jfile ex_running = ''r1.json''" by (simp add: ex_running_def ex_config_defs zero_defs upd_defs)
  show "f_dialOut (we_flags (ex_wenv ?fl (ex_cfg\<lparr>Host := ''r2''\<rparr>)))" by (simp add: ex_wenv_def)
  show "NewJTIMONConfig (we_env (ex_wenv ?fl (ex_cfg\<lparr>Host := ''r2''\<rparr>))) (jfile ex_running) = Some ex_cfg2"
    by (simp add: f ex_wenv_def ex_env_def NewJTIMONConfig_def ParseJSON_def ex_cfg2_def)
  show "\<forall>k. Kafka ex_cfg2 = Some k \<longrightarrow> k_producer k = None"
    by (simp add: ex_cfg2_def ex_cfg_def fillupDefaults_def zero_defs Let_def)
  have "\<exists>j'. HandleConfigChange (ex_env (ex_cfg\<lparr>Host := ''r2''\<rparr>)) ?fl ex_running ex_cfg2 = Inr (j', True)"
    by (simp add: ex_cfg2_def ex_running_def ex_config_defs zero_defs upd_defs)
  thus "HandleConfigChange (we_env (ex_wenv ?fl (ex_cfg\<lparr>Host := ''r2''\<rparr>))) (we_flags (ex_wenv ?fl (ex_cfg\<lparr>Host := ''r2''\<rparr>))) ex_running ex_cfg2
      = Inr (fst (projr (HandleConfigChange (ex_env (ex_cfg\<lparr>Host := ''r2''\<rparr>)) ?fl ex_running ex_cfg2)), True)"
    by (auto simp: ex_wenv_def)
qed

end
