(* ===== verification/Manager.thy ===== *)
theory Manager
  imports Worker
begin

text \<open>
  The manager and its workers side by side: \<open>signalHandler\<close>, \<open>handleConfigChanges\<close> and the end of a worker, of workers.go,
  as a step relation.

  The manager is one goroutine that works off a list of operations; it takes a signal or a status message only when the
  list is empty. A worker is live from its start until it takes an interrupt or fails. The channel of a worker has no
  buffer, so that a send takes place together with the receive of a live worker; the status channel has room for one
  file. A worker that fails leaves its file in the status channel and stops listening.
\<close>

section \<open>The system\<close>

datatype mop = Visit string | Sweep "string list" | Kill string | Send string wsignal | Stop

record mstate =
  ms_m :: "string set"
  ms_live :: "string set"
  ms_status :: "string list"
  ms_wg :: int
  ms_ops :: "mop list"
  ms_stopped :: bool

text \<open>The state after \<open>StartWorkers\<close> with readable configurations for the files.\<close>

definition mstart :: "string set \<Rightarrow> mstate" where
  "mstart fs = \<lparr>ms_m = fs, ms_live = fs, ms_status = [], ms_wg = int (card fs), ms_ops = [], ms_stopped = False\<rparr>"

definition idle :: "mstate \<Rightarrow> bool" where
  "idle s \<longleftrightarrow> ms_ops s = [] \<and> \<not> ms_stopped s"

text \<open>A worker that takes a signal; an interrupt ends it.\<close>

definition takeSignal :: "string \<Rightarrow> wsignal \<Rightarrow> mstate \<Rightarrow> mstate" where
  "takeSignal f sg s =
     (if sg = Os Interrupt then s\<lparr>ms_live := ms_live s - {f}, ms_wg := ms_wg s - 1\<rparr> else s)"

inductive mstep :: "mstate \<Rightarrow> mstate \<Rightarrow> bool" where
  hup_list: "idle s \<Longrightarrow> mstep s (s\<lparr>ms_ops := map Visit files @ [Sweep files]\<rparr>)"
| hup_all: "idle s \<Longrightarrow> set fs = ms_m s \<Longrightarrow> distinct fs \<Longrightarrow> mstep s (s\<lparr>ms_ops := map (\<lambda>f. Send f (Os SIGHUP)) fs\<rparr>)"
| interrupt: "idle s \<Longrightarrow> set fs = ms_m s \<Longrightarrow> distinct fs \<Longrightarrow>
    mstep s (s\<lparr>ms_ops := map (\<lambda>f. Send f (Os Interrupt)) fs @ [Stop]\<rparr>)"
| status: "idle s \<Longrightarrow> ms_status s = f # r \<Longrightarrow> mstep s (s\<lparr>ms_m := ms_m s - {f}, ms_status := r\<rparr>)"
| visit_known: "ms_ops s = Visit f # r \<Longrightarrow> f \<in> ms_m s \<Longrightarrow> mstep s (s\<lparr>ms_ops := Send f (Os SIGHUP) # r\<rparr>)"
| visit_new: "ms_ops s = Visit f # r \<Longrightarrow> f \<notin> ms_m s \<Longrightarrow>
    mstep s (s\<lparr>ms_m := insert f (ms_m s), ms_live := insert f (ms_live s), ms_wg := ms_wg s + 1, ms_ops := Send f SIGCONT # r\<rparr>)"
| visit_bad: "ms_ops s = Visit f # r \<Longrightarrow> f \<notin> ms_m s \<Longrightarrow> mstep s (s\<lparr>ms_ops := r\<rparr>)"
| sweep: "ms_ops s = Sweep files # r \<Longrightarrow> set fs = ms_m s - set files \<Longrightarrow> distinct fs \<Longrightarrow> mstep s (s\<lparr>ms_ops := map Kill fs @ r\<rparr>)"
| kill: "ms_ops s = Kill f # r \<Longrightarrow> f \<in> ms_live s \<Longrightarrow>
    mstep s ((takeSignal f (Os Interrupt) s)\<lparr>ms_m := ms_m s - {f}, ms_ops := r\<rparr>)"
| send: "ms_ops s = Send f sg # r \<Longrightarrow> f \<in> ms_live s \<Longrightarrow> mstep s ((takeSignal f sg s)\<lparr>ms_ops := r\<rparr>)"
| stop: "ms_ops s = Stop # r \<Longrightarrow> mstep s (s\<lparr>ms_ops := [], ms_stopped := True\<rparr>)"
| fail: "f \<in> ms_live s \<Longrightarrow> ms_status s = [] \<Longrightarrow>
    mstep s (s\<lparr>ms_live := ms_live s - {f}, ms_status := [f], ms_wg := ms_wg s - 1\<rparr>)"

inductive_cases mstep_cases: "mstep s t"


section \<open>The invariant\<close>

definition minv :: "mstate \<Rightarrow> bool" where
  "minv s \<longleftrightarrow> finite (ms_live s) \<and> ms_live s \<subseteq> ms_m s \<and> set (ms_status s) \<subseteq> ms_m s - ms_live s \<and>
     length (ms_status s) \<le> 1 \<and> ms_wg s = int (card (ms_live s))"

lemma minv_leave:
  "minv s \<Longrightarrow> f \<in> ms_live s \<Longrightarrow> finite (ms_live s - {f}) \<and> ms_wg s - 1 = int (card (ms_live s - {f}))"
  using card_Suc_Diff1[of "ms_live s" f] by (auto simp: minv_def simp del: card_Diff_insert)

text \<open>A worker leaves; its file may go to the status channel or out of the map.\<close>

lemma minv_gone:
  assumes "minv s" "f \<in> ms_live s" "ms_live t = ms_live s - {f}" "ms_wg t = ms_wg s - 1"
    and "ms_m s - {f} \<subseteq> ms_m t" "set (ms_status t) \<subseteq> ms_m t - ms_live t" "length (ms_status t) \<le> 1"
  shows "minv t"
proof -
  from assms(1) have "ms_live s \<subseteq> ms_m s" by (simp add: minv_def)
  with assms(3,5) have "ms_live t \<subseteq> ms_m t" by blast
  thus ?thesis
    using minv_leave[OF assms(1,2)] assms(3,4,6,7) unfolding minv_def by metis
qed

lemma minv_takeSignal:
  assumes "minv s" "f \<in> ms_live s"
  shows "minv (takeSignal f sg s)"
proof (cases "sg = Os Interrupt")
  case True
  show ?thesis
    by (rule minv_gone[OF assms]) (use assms True in \<open>auto simp: takeSignal_def minv_def\<close>)
qed (use assms in \<open>simp add: takeSignal_def\<close>)

lemma minv_ops [simp]: "minv (s\<lparr>ms_ops := r\<rparr>) = minv s" "minv (s\<lparr>ms_ops := r, ms_stopped := b\<rparr>) = minv s"
  by (simp_all add: minv_def)

lemma minv_step:
  assumes "mstep s t" "minv s"
  shows "minv t"
  using assms
proof cases
  case (visit_new f r)
  with assms(2) show ?thesis by (auto simp: minv_def card_insert_if)
next
  case (kill f r)
  have "minv (takeSignal f (Os Interrupt) s)" by (rule minv_takeSignal[OF assms(2) kill(3)])
  moreover have "f \<notin> set (ms_status s)" using assms(2) kill(3) unfolding minv_def by blast
  ultimately show ?thesis unfolding kill(1) by (auto simp: takeSignal_def minv_def)
next
  case (send f sg r)
  with assms(2) minv_takeSignal show ?thesis by simp
next
  case (fail f)
  show ?thesis by (rule minv_gone[OF assms(2) fail(2)]) (use assms(2) fail in \<open>auto simp: minv_def\<close>)
qed (use assms(2) in \<open>auto simp: minv_def\<close>)

interpretation ms: step_system "\<lambda>s. \<exists>fs. finite fs \<and> s = mstart fs" mstep minv
  by unfold_locales (auto simp: minv_step, auto simp: minv_def mstart_def)


section \<open>Properties\<close>

text \<open>
  C4. In every state the manager and its workers can reach, the wait group counts the live workers (so that it never
  becomes negative, and waiting ends exactly when no worker is live), every live worker is in the map, and a file in the
  status channel is in the map and has no live worker.
\<close>

theorem mstep_wait_group:
  assumes "finite fs" and "mstep\<^sup>*\<^sup>* (mstart fs) s"
  shows "ms_wg s = int (card (ms_live s)) \<and> finite (ms_live s) \<and> ms_live s \<subseteq> ms_m s \<and>
    set (ms_status s) \<subseteq> ms_m s - ms_live s"
  using ms.inv_reachable[of "mstart fs" s] assms by (auto simp: minv_def)

lemma ex_fail_run: "mstep\<^sup>*\<^sup>* (mstart {f, g}) ((mstart {f, g})\<lparr>ms_live := {f, g} - {f}, ms_status := [f], ms_wg := int (card {f, g}) - 1\<rparr>)"
  by (rule r_into_rtranclp) (use fail[of f "mstart {f, g}"] in \<open>simp add: mstart_def\<close>)

theorem mstep_wait_group_witness:
  "\<exists>s. mstep\<^sup>*\<^sup>* (mstart {''a'', ''b''}) s \<and> ms_status s = [''a''] \<and> ms_wg s = int (card (ms_live s)) \<and> ms_live s = {''b''}"
  using ex_fail_run[of "''a''" "''b''"] mstep_wait_group[OF _ ex_fail_run[of "''a''" "''b''"]]
  by (intro exI[of _ "(mstart {''a'', ''b''})\<lparr>ms_live := {''a'', ''b''} - {''a''}, ms_status := [''a''], ms_wg := int (card {''a'', ''b''}) - 1\<rparr>"]) auto

definition blocked :: "string \<Rightarrow> mstate \<Rightarrow> bool" where
  "blocked f s \<longleftrightarrow> f \<notin> ms_live s \<and> (\<exists>sg r. ms_ops s = Send f sg # r)"

lemma blocked_step: "mstep s t \<Longrightarrow> blocked f s \<Longrightarrow> blocked f t"
  by (erule mstep_cases) (auto simp: blocked_def idle_def)

lemma blocked_steps: "mstep\<^sup>*\<^sup>* s t \<Longrightarrow> blocked f s \<Longrightarrow> blocked f t"
  by (induction rule: rtranclp_induct) (auto intro: blocked_step)

text \<open>
  C37. The manager can block for good: when a worker fails while a SIGHUP is pending and the manager takes the signal before
  the status message, it sends to a worker that does not listen any more. From then on the manager is stuck in this send in
  every state that can be reached: it takes no signal, no interrupt and no status message.
\<close>

theorem signalHandler_blocks:
  "\<exists>s. mstep\<^sup>*\<^sup>* (mstart {f}) s \<and> blocked f s \<and> ms_status s = [f] \<and> {t. mstep\<^sup>*\<^sup>* s t} \<subseteq> {t. blocked f t}"
proof -
  let ?s1 = "(mstart {f})\<lparr>ms_live := {}, ms_status := [f], ms_wg := 0\<rparr>"
  let ?s2 = "?s1\<lparr>ms_ops := [Send f (Os SIGHUP)]\<rparr>"
  have "mstep (mstart {f}) ?s1" using fail[of f "mstart {f}"] by (simp add: mstart_def)
  moreover have "mstep ?s1 ?s2" using hup_all[of ?s1 "[f]"] by (simp add: mstart_def idle_def)
  ultimately have "mstep\<^sup>*\<^sup>* (mstart {f}) ?s2" by simp
  moreover have b: "blocked f ?s2" by (simp add: blocked_def)
  moreover have "{t. mstep\<^sup>*\<^sup>* ?s2 t} \<subseteq> {t. blocked f t}" using blocked_steps[OF _ b] by blast
  ultimately show ?thesis by (intro exI[of _ ?s2]) simp
qed

section \<open>Termination\<close>

text \<open>
  The steps that are not the taking of a new signal: from the idle manager only a status message or the end of a worker.
  Their order is that of the sweeps left, then of the operations left (a visit turns into a send), then of the live workers,
  then of the status messages.
\<close>

definition mwork :: "mstate \<Rightarrow> mstate \<Rightarrow> bool" where
  "mwork s t \<longleftrightarrow> mstep s t \<and> (idle s \<longrightarrow> ms_status t \<noteq> ms_status s)"

fun isSweep :: "mop \<Rightarrow> bool" where
  "isSweep (Sweep files) = True"
| "isSweep _ = False"

fun opWeight :: "mop \<Rightarrow> nat" where
  "opWeight (Visit f) = 2"
| "opWeight _ = 1"

definition mrank :: "(mstate \<times> mstate) set" where
  "mrank = measures [\<lambda>s. length (filter isSweep (ms_ops s)), \<lambda>s. sum_list (map opWeight (ms_ops s)),
     \<lambda>s. card (ms_live s), \<lambda>s. length (ms_status s)]"

lemma no_sweep_kills [simp]: "filter isSweep (map Kill fs) = []"
  by (induction fs) simp_all

lemma mwork_decreases:
  assumes "mwork s t" "finite (ms_live s)"
  shows "(t, s) \<in> mrank"
proof -
  from assms(1) have "mstep s t" and i: "idle s \<Longrightarrow> ms_status t \<noteq> ms_status s" by (auto simp: mwork_def)
  thus ?thesis
  proof cases
    case (fail f)
    with assms(2) show ?thesis using card_Diff1_less[of "ms_live s" f] by (simp add: mrank_def del: card_Diff_insert)
  qed (use i in \<open>auto simp: mrank_def takeSignal_def idle_def\<close>)
qed


interpretation mt: terminating_system "\<lambda>s. \<exists>fs. finite fs \<and> s = mstart fs" mstep minv mwork mrank
  by unfold_locales (simp_all add: mwork_decreases minv_def, simp_all add: mwork_def mrank_def)

lemma mstep_finite: "mstep\<^sup>*\<^sup>* s t \<Longrightarrow> finite (ms_m s) \<Longrightarrow> finite (ms_m t)"
  by (induction rule: rtranclp_induct) (auto elim!: mstep_cases simp: takeSignal_def)

text \<open>The manager waits for a worker that does not listen any more.\<close>

definition waiting :: "mstate \<Rightarrow> bool" where
  "waiting s \<longleftrightarrow> (case ms_ops s of Kill f # r \<Rightarrow> f \<notin> ms_live s | Send f sg # r \<Rightarrow> f \<notin> ms_live s | _ \<Rightarrow> False)"

lemma mwork_stuck:
  assumes "finite (ms_m s)" "ms_ops s \<noteq> []" "\<not> waiting s"
  shows "\<exists>t. mwork s t"
proof -
  obtain p r where p: "ms_ops s = p # r" using assms(2) by (cases "ms_ops s") auto
  have "\<exists>t. mstep s t"
  proof (cases p)
    case (Visit f)
    with p show ?thesis using visit_known[of s f r] visit_new[of s f r] by blast
  next
    case (Sweep files)
    obtain fs where "set fs = ms_m s - set files" "distinct fs"
      using assms(1) finite_distinct_list[of "ms_m s - set files"] by auto
    with p Sweep show ?thesis using sweep by blast
  next
    case (Kill f)
    with p assms(3) show ?thesis using kill[of s f r] by (auto simp: waiting_def)
  next
    case (Send f sg)
    with p assms(3) show ?thesis using send[of s f sg r] by (auto simp: waiting_def)
  next
    case Stop
    with p show ?thesis using stop by blast
  qed
  with p show ?thesis by (auto simp: mwork_def idle_def)
qed



end
