(* ===== verification/Dialout.thy ===== *)
theory Dialout
  imports Worker
begin

text \<open>
  The dial-out server of dialout.go: devices dial in, and the server forwards their responses to Kafka. Configurations
  come from the topic \<open>gnmi-config\<close>, to which the workers in dial-out mode publish them.

  A device has room for 16 RPCs, a set of used ids as the bits of a 16-bit number, and for each RPC a channel of
  configurations with room for 512. An RPC is addressed by the name of its device and its index. A server call that
  blocks is \<^term>\<open>None\<close>. \<open>um\<close> is \<open>proto.Unmarshal\<close>, which yields a message also when it fails; \<open>mar\<close> encodes a
  response for Kafka, \<^term>\<open>None\<close> when it fails; \<open>ptext\<close> prints a response.
\<close>

unbundle bit_operations_syntax

section \<open>State\<close>

record rpcInfoT =
  rpc_name :: string
  rpc_rpcId :: "8 word"
  rpc_running :: bool
  rpc_cfgChannel :: "DialOutRequest list"
  rpc_config :: "DialOutRequest option"

record deviceInfoT =
  dv_device :: string
  dv_rpcIdSpace :: "16 word"
  dv_rpcs :: "rpcInfoT option list"

record 'r kafka_msg =
  km_Topic :: string
  km_Key :: string
  km_Device :: string
  km_Context :: string
  km_Response :: 'r

record dialoutServerT =
  sv_registeredRpcs :: "string list"
  sv_devices :: "(string, deviceInfoT) gomap"

definition MAX_DIALOUT_RPCS :: nat where "MAX_DIALOUT_RPCS = 16"

definition SUBSCRIBER_DIALOUTSUBSCRIBER :: string where
  "SUBSCRIBER_DIALOUTSUBSCRIBER = ''/Subscriber/DialOutSubscriber''"

definition newDialOutServer :: "string list \<Rightarrow> dialoutServerT" where
  "newDialOutServer rpcs = \<lparr>sv_registeredRpcs = rpcs, sv_devices = []\<rparr>"


section \<open>RPCs of a device\<close>

definition createRpc :: "string \<Rightarrow> nat \<Rightarrow> rpcInfoT" where
  "createRpc name n = \<lparr>rpc_name = name, rpc_rpcId = of_nat n, rpc_running = False, rpc_cfgChannel = [], rpc_config = None\<rparr>"

function unusedFrom :: "16 word \<Rightarrow> nat \<Rightarrow> nat option" where
  "unusedFrom ids i =
     (if i \<ge> MAX_DIALOUT_RPCS then None
      else if ids AND push_bit i 1 = 0 then Some i
      else unusedFrom ids (Suc i))"
  by pat_completeness auto
termination
  by (relation "measure (\<lambda>(_, i). MAX_DIALOUT_RPCS - i)") auto

declare unusedFrom.simps [simp del]

definition getUnusedRpcId :: "16 word \<Rightarrow> string \<Rightarrow> nat option" where
  "getUnusedRpcId rpcIdSpace rpcType =
     (if rpcType = SUBSCRIBER_DIALOUTSUBSCRIBER then Some 1 else map_option Suc (unusedFrom rpcIdSpace 1))"

definition newDevice :: "string \<Rightarrow> deviceInfoT" where
  "newDevice cn = \<lparr>dv_device = cn, dv_rpcIdSpace = 0, dv_rpcs = replicate MAX_DIALOUT_RPCS None\<rparr>"

text \<open>The server and the index of the RPC in the device; \<^term>\<open>None\<close> is the returned error.\<close>

definition createOrUpdateDeviceWithNewRpc :: "dialoutServerT \<Rightarrow> string \<Rightarrow> string \<Rightarrow> (dialoutServerT \<times> nat) option" where
  "createOrUpdateDeviceWithNewRpc s cn rpcType =
     (let device = (case mget (sv_devices s) cn of Some d \<Rightarrow> d | None \<Rightarrow> newDevice cn)
      in case getUnusedRpcId (dv_rpcIdSpace device) rpcType of
           None \<Rightarrow> None
         | Some rpcId \<Rightarrow>
             let i = rpcId - 1;
                 d1 = device\<lparr>dv_rpcIdSpace := dv_rpcIdSpace device OR push_bit i 1\<rparr>;
                 d2 = (if dv_rpcs d1 ! i = None then d1\<lparr>dv_rpcs := (dv_rpcs d1)[i := Some (createRpc rpcType rpcId)]\<rparr> else d1)
             in Some (s\<lparr>sv_devices := mput (sv_devices s) cn d2\<rparr>, i))"

text \<open>The id of the RPC, which is its index plus one, is used as the index.\<close>

definition removeRpcFromDevice :: "deviceInfoT \<Rightarrow> rpcInfoT \<Rightarrow> deviceInfoT go" where
  "removeRpcFromDevice device rpc =
     (let n = unat (rpc_rpcId rpc);
          d1 = device\<lparr>dv_rpcIdSpace := dv_rpcIdSpace device AND NOT (push_bit n 1)\<rparr>
      in if n < length (dv_rpcs d1) then Inr (d1\<lparr>dv_rpcs := (dv_rpcs d1)[n := None]\<rparr>) else Inl IndexOutOfRange)"

definition rpcAt :: "dialoutServerT \<Rightarrow> string \<Rightarrow> nat \<Rightarrow> rpcInfoT option" where
  "rpcAt s cn i =
     (case mget (sv_devices s) cn of None \<Rightarrow> None | Some d \<Rightarrow> if i < length (dv_rpcs d) then dv_rpcs d ! i else None)"

definition updRpc :: "dialoutServerT \<Rightarrow> string \<Rightarrow> nat \<Rightarrow> (rpcInfoT \<Rightarrow> rpcInfoT) \<Rightarrow> dialoutServerT" where
  "updRpc s cn i f =
     (case mget (sv_devices s) cn of
        None \<Rightarrow> s
      | Some d \<Rightarrow>
          s\<lparr>sv_devices := mput (sv_devices s) cn (d\<lparr>dv_rpcs := (dv_rpcs d)[i := map_option f (dv_rpcs d ! i)]\<rparr>)\<rparr>)"


section \<open>Configurations from Kafka\<close>

text \<open>
  One message of the partition: it panics on an empty message, and on one whose message has no path. A full channel
  blocks the consumer. An error ends it, and is the result \<open>Inl ()\<close>.
\<close>

definition cfgChannel_cap :: nat where "cfgChannel_cap = 512"

definition deliverConfig :: "dialoutServerT \<Rightarrow> string \<Rightarrow> nat \<Rightarrow> DialOutRequest \<Rightarrow> dialoutServerT option" where
  "deliverConfig s cn i c =
     (case rpcAt s cn i of
        None \<Rightarrow> None
      | Some r \<Rightarrow>
          if length (rpc_cfgChannel r) \<ge> cfgChannel_cap then None
          else Some (updRpc s cn i (\<lambda>r. r\<lparr>rpc_cfgChannel := rpc_cfgChannel r @ [c], rpc_config := Some c\<rparr>)))"

definition consumeMsg ::
  "(string \<Rightarrow> DialOutRequest \<times> bool) \<Rightarrow> bool \<Rightarrow> string \<Rightarrow> dialoutServerT \<Rightarrow> string \<Rightarrow> (unit + dialoutServerT) option go" where
  "consumeMsg um skipVerify deviceName s msg =
     (case msg of
        [] \<Rightarrow> Inl IndexOutOfRange
      | ch # _ \<Rightarrow>
          if ch = CHR ''{'' then Inr (Some (Inr s))
          else
            let (cfg, ok) = um msg
            in if dr_Paths cfg = [] then Inl IndexOutOfRange
               else if \<not> ok then Inr (Some (Inr s))
               else if deviceName \<noteq> [] \<and> \<not> skipVerify \<and> dr_Device cfg \<noteq> deviceName then Inr (Some (Inr s))
               else
                 let name = (if deviceName \<noteq> [] then deviceName else dr_Device cfg);
                     cfg1 = (if dr_RpcType cfg = [] then cfg\<lparr>dr_RpcType := SUBSCRIBER_DIALOUTSUBSCRIBER\<rparr> else cfg)
                 in if dr_RpcType cfg1 \<noteq> SUBSCRIBER_DIALOUTSUBSCRIBER then Inr (Some (Inr s))
                    else
                      let found = (case mget (sv_devices s) name of
                                     None \<Rightarrow> createOrUpdateDeviceWithNewRpc s name SUBSCRIBER_DIALOUTSUBSCRIBER
                                   | Some d \<Rightarrow>
                                       if dv_rpcs d ! 0 = None
                                       then createOrUpdateDeviceWithNewRpc s name SUBSCRIBER_DIALOUTSUBSCRIBER
                                       else Some (s, 0))
                      in case found of
                           None \<Rightarrow> Inr (Some (Inl ()))
                         | Some (s1, i) \<Rightarrow> Inr (map_option Inr (deliverConfig s1 name i cfg1)))"

fun consumePartition ::
  "(string \<Rightarrow> DialOutRequest \<times> bool) \<Rightarrow> bool \<Rightarrow> string \<Rightarrow> dialoutServerT \<Rightarrow> string list \<Rightarrow> (unit + dialoutServerT) option go" where
  "consumePartition um skipVerify deviceName s [] = Inr (Some (Inr s))"
| "consumePartition um skipVerify deviceName s (m # ms) =
     bindR (consumeMsg um skipVerify deviceName s m) (\<lambda>r.
       case r of
         Some (Inr s1) \<Rightarrow> consumePartition um skipVerify deviceName s1 ms
       | _ \<Rightarrow> Inr r)"


section \<open>The RPC of a device\<close>

text \<open>The name of the device: from the certificate, or from the metadata when verification is off.\<close>

definition deviceCN :: "Flags \<Rightarrow> string option \<Rightarrow> string list option \<Rightarrow> string go" where
  "deviceCN fl certCN mdServer =
     (if \<not> f_skipVerify fl then Inr (case certCN of Some cn \<Rightarrow> cn | None \<Rightarrow> f_myListeningIP fl)
      else case mdServer of
             None \<Rightarrow> Inr (f_myListeningIP fl)
           | Some vs \<Rightarrow> at vs 0)"

text \<open>The latest configuration, with the channel drained; \<^term>\<open>None\<close> while there is none.\<close>

definition takeConfig :: "rpcInfoT \<Rightarrow> (DialOutRequest \<times> rpcInfoT) option" where
  "takeConfig r =
     (case (rpc_cfgChannel r, rpc_config r) of
        ([], Some c) \<Rightarrow> Some (c, r)
      | ([], None) \<Rightarrow> None
      | (cs, _) \<Rightarrow> Some (last cs, r\<lparr>rpc_cfgChannel := []\<rparr>))"

datatype 'r dial_event = DevRsp 'r | DevEOF | DevErr | ProducerErr | NewConfig DialOutRequest

datatype dial_result = Finished | Failed | Waiting | Running

text \<open>
  The loop: the messages for Kafka, how it ended, and the new configuration that ended it. Each event is what one pass of
  the select statement meets: a configuration in the channel, an error of the producer, or (the default) what the stream
  receives.
\<close>

fun forwardLoop ::
  "('r \<Rightarrow> string) \<Rightarrow> ('r kafka_msg \<Rightarrow> bool) \<Rightarrow> string \<Rightarrow> string \<Rightarrow> 'r dial_event list \<Rightarrow>
   'r kafka_msg list \<times> dial_result \<times> DialOutRequest option" where
  "forwardLoop ptext mar cn ctx [] = ([], Running, None)"
| "forwardLoop ptext mar cn ctx (ev # evs) =
     (case ev of
        NewConfig c \<Rightarrow> ([], Finished, Some c)
      | ProducerErr \<Rightarrow> forwardLoop ptext mar cn ctx evs
      | DevEOF \<Rightarrow> ([], Finished, None)
      | DevErr \<Rightarrow> ([], Failed, None)
      | DevRsp r \<Rightarrow>
          let m = \<lparr>km_Topic = ''gnmi-data'', km_Key = cn, km_Device = cn, km_Context = ctx, km_Response = r\<rparr>;
              (ms, res) = forwardLoop ptext mar cn ctx evs
          in (if ptext r \<noteq> [] \<and> mar m then m # ms else ms, res))"

text \<open>The first receive, before the loop: no message asks for the subscription of the configured paths.\<close>

datatype 'r first_recv = FirstEOF | FirstErr | First "'r option"

text \<open>The first response is handled at the first pass that would receive.\<close>

fun withInitial :: "'r \<Rightarrow> 'r dial_event list \<Rightarrow> 'r dial_event list" where
  "withInitial r (ProducerErr # evs) = ProducerErr # withInitial r evs"
| "withInitial r (NewConfig c # evs) = NewConfig c # evs"
| "withInitial r evs = DevRsp r # evs"

text \<open>The end of a call: a new configuration removes the RPC from the device; the RPC is not running any more.\<close>

definition finishRpc :: "dialoutServerT \<Rightarrow> string \<Rightarrow> nat \<Rightarrow> DialOutRequest option \<Rightarrow> dialoutServerT go" where
  "finishRpc s cn i newCfg =
     (let s1 = updRpc s cn i (\<lambda>r. r\<lparr>rpc_running := False, rpc_config := (if newCfg = None then rpc_config r else newCfg)\<rparr>)
      in case (newCfg, mget (sv_devices s1) cn, rpcAt s1 cn i) of
           (Some _, Some d, Some r) \<Rightarrow>
             bindR (removeRpcFromDevice d r) (\<lambda>d'. Inr (s1\<lparr>sv_devices := mput (sv_devices s1) cn d'\<rparr>))
         | _ \<Rightarrow> Inr s1)"

text \<open>
  \<open>DialOutSubscriber\<close>, from the name of the device on. The result: the server, the subscriptions sent, the messages for
  Kafka and how the call ended or that it goes on.
\<close>

definition serveStream ::
  "('r \<Rightarrow> string) \<Rightarrow> ('r kafka_msg \<Rightarrow> bool) \<Rightarrow> dialoutServerT \<Rightarrow> string \<Rightarrow> nat \<Rightarrow> DialOutRequest \<Rightarrow> Subscription list option \<Rightarrow>
   'r dial_event list \<Rightarrow> (dialoutServerT \<times> Subscription list option \<times> 'r kafka_msg list \<times> dial_result) go" where
  "serveStream ptext mar s cn i cfg sl evs =
     (let (ms, res, newCfg) = forwardLoop ptext mar cn (dr_Context cfg) evs
      in bindR (if res = Running then Inr s else finishRpc s cn i newCfg) (\<lambda>s1. Inr (s1, sl, ms, res)))"

definition dialoutServe ::
  "('r \<Rightarrow> string) \<Rightarrow> ('r kafka_msg \<Rightarrow> bool) \<Rightarrow> dialoutServerT \<Rightarrow> string \<Rightarrow> nat \<Rightarrow> DialOutRequest \<Rightarrow> 'r first_recv \<Rightarrow> 'r dial_event list \<Rightarrow>
   (dialoutServerT \<times> Subscription list option \<times> 'r kafka_msg list \<times> dial_result) go" where
  "dialoutServe ptext mar s cn i cfg first_rsp evs =
     (let quit = (\<lambda>res. bindR (finishRpc s cn i None) (\<lambda>s1. Inr (s1, None, [], res)))
      in case first_rsp of
           FirstEOF \<Rightarrow> quit Finished
         | FirstErr \<Rightarrow> quit Failed
         | First (Some r) \<Rightarrow> serveStream ptext mar s cn i cfg None (withInitial r evs)
         | First None \<Rightarrow>
             bindR (xPathsTognmiSubscription [] (Some (dr_Paths cfg))) (\<lambda>subs.
               case subs of Inl _ \<Rightarrow> quit Failed | Inr sl \<Rightarrow> serveStream ptext mar s cn i cfg (Some sl) evs))"

definition DialOutSubscriber ::
  "('r \<Rightarrow> string) \<Rightarrow> ('r kafka_msg \<Rightarrow> bool) \<Rightarrow> dialoutServerT \<Rightarrow> string \<Rightarrow> 'r first_recv \<Rightarrow> 'r dial_event list \<Rightarrow>
   (dialoutServerT \<times> Subscription list option \<times> 'r kafka_msg list \<times> dial_result) go" where
  "DialOutSubscriber ptext mar s cn first_rsp evs =
     (case createOrUpdateDeviceWithNewRpc s cn SUBSCRIBER_DIALOUTSUBSCRIBER of
        None \<Rightarrow> Inr (s, None, [], Failed)
      | Some (s1, i) \<Rightarrow>
          let s2 = updRpc s1 cn i (\<lambda>r. r\<lparr>rpc_running := True\<rparr>)
          in case rpcAt s2 cn i of
               None \<Rightarrow> Inl NilDeref
             | Some r \<Rightarrow>
                 (case takeConfig r of
                    None \<Rightarrow> Inr (s2, None, [], Waiting)
                  | Some (cfg, r') \<Rightarrow> dialoutServe ptext mar (updRpc s2 cn i (\<lambda>_. r')) cn i cfg first_rsp evs))"


section \<open>Well-formed servers\<close>

text \<open>
  A device has 16 slots; the bit of an id is set exactly when its slot is taken; an RPC knows its place. A server has one
  device for each name.
\<close>

definition dev_wf :: "deviceInfoT \<Rightarrow> bool" where
  "dev_wf d \<longleftrightarrow> length (dv_rpcs d) = 16 \<and>
     (\<forall>i < 16. (bit (dv_rpcIdSpace d) i \<longleftrightarrow> dv_rpcs d ! i \<noteq> None) \<and>
       (\<forall>r. dv_rpcs d ! i = Some r \<longrightarrow> unat (rpc_rpcId r) = Suc i))"

definition server_wf :: "dialoutServerT \<Rightarrow> bool" where
  "server_wf s \<longleftrightarrow> (\<forall>cn d. mget (sv_devices s) cn = Some d \<longrightarrow> dev_wf d \<and> dv_device d = cn)"

lemma dev_wf_new: "dev_wf (newDevice cn)"
  by (simp add: dev_wf_def newDevice_def MAX_DIALOUT_RPCS_def)

lemma server_wf_put: "server_wf s \<Longrightarrow> dev_wf d \<Longrightarrow> dv_device d = cn \<Longrightarrow> server_wf (s\<lparr>sv_devices := mput (sv_devices s) cn d\<rparr>)"
  by (auto simp: server_wf_def)

lemma word16_single: "bit (2 ^ i :: 16 word) j \<longleftrightarrow> j = i \<and> i < 16"
  by (auto simp: bit_exp_iff possible_bit_word)

text \<open>Slots and bits change together.\<close>

lemma dev_wf_add:
  assumes "dev_wf d" "i < 16"
  shows "dev_wf (d\<lparr>dv_rpcIdSpace := dv_rpcIdSpace d OR push_bit i 1,
    dv_rpcs := (dv_rpcs d)[i := (if dv_rpcs d ! i = None then Some (createRpc n (Suc i)) else dv_rpcs d ! i)]\<rparr>)"
proof -
  have "unat (of_nat (Suc i) :: 8 word) = Suc i"
    using assms(2) by (simp add: unsigned_of_nat take_bit_nat_eq_self del: of_nat_Suc)
  thus ?thesis
    using assms unfolding dev_wf_def
    by (auto simp: bit_or_iff word16_single nth_list_update createRpc_def simp del: of_nat_Suc)
qed

lemma dev_wf_upd:
  assumes "dev_wf d" "\<And>r. rpc_rpcId (f r) = rpc_rpcId r"
  shows "dev_wf (d\<lparr>dv_rpcs := (dv_rpcs d)[i := map_option f (dv_rpcs d ! i)]\<rparr>)"
proof (cases "i < length (dv_rpcs d)")
  case True
  show ?thesis
    unfolding dev_wf_def using assms True by (auto simp: dev_wf_def nth_list_update)
next
  case False
  with assms(1) show ?thesis by (simp add: dev_wf_def list_update_beyond)
qed

lemma server_wf_updRpc:
  assumes "server_wf s" "\<And>r. rpc_rpcId (f r) = rpc_rpcId r"
  shows "server_wf (updRpc s cn i f)"
proof (cases "mget (sv_devices s) cn")
  case (Some d)
  with assms have "dev_wf d" "dv_device d = cn" by (auto simp: server_wf_def)
  with Some assms dev_wf_upd show ?thesis by (simp add: updRpc_def server_wf_put)
qed (use assms in \<open>simp add: updRpc_def\<close>)

lemma dev_wf_remove:
  assumes "dev_wf d" "removeRpcFromDevice d r = Inr d'"
  shows "dev_wf d' \<and> dv_device d' = dv_device d"
proof -
  define n where "n = unat (rpc_rpcId r)"
  have n: "n < 16" and d': "d' = d\<lparr>dv_rpcIdSpace := dv_rpcIdSpace d AND NOT (push_bit n 1), dv_rpcs := (dv_rpcs d)[n := None]\<rparr>"
    using assms by (auto simp: removeRpcFromDevice_def n_def dev_wf_def Let_def split: if_splits)
  show ?thesis
    unfolding d' using assms(1) n
    by (auto simp: dev_wf_def bit_and_iff bit_not_iff word16_single nth_list_update)
qed

lemma createOrUpdate_first:
  assumes "server_wf s"
  obtains d s1 where "createOrUpdateDeviceWithNewRpc s cn SUBSCRIBER_DIALOUTSUBSCRIBER = Some (s1, 0)"
    and "s1 = s\<lparr>sv_devices := mput (sv_devices s) cn d\<rparr>" and "dev_wf d" and "dv_device d = cn"
    and "rpcAt s1 cn 0 = Some (case rpcAt s cn 0 of Some r \<Rightarrow> r | None \<Rightarrow> createRpc SUBSCRIBER_DIALOUTSUBSCRIBER 1)"
proof -
  define d0 where "d0 = (case mget (sv_devices s) cn of Some d \<Rightarrow> d | None \<Rightarrow> newDevice cn)"
  have wf0: "dev_wf d0" "dv_device d0 = cn"
    using assms dev_wf_new[of cn] by (auto simp: d0_def server_wf_def newDevice_def split: option.split)
  hence l: "length (dv_rpcs d0) = 16" by (simp add: dev_wf_def)
  hence "dv_rpcs d0 ! 0 = rpcAt s cn 0"
    by (auto simp: d0_def rpcAt_def newDevice_def MAX_DIALOUT_RPCS_def split: option.splits)
  with wf0 l have d0: "dev_wf d0" "dv_device d0 = cn" "0 < length (dv_rpcs d0)" "dv_rpcs d0 ! 0 = rpcAt s cn 0" by simp_all
  define d where "d = d0\<lparr>dv_rpcIdSpace := dv_rpcIdSpace d0 OR push_bit 0 1,
    dv_rpcs := (dv_rpcs d0)[0 := (if dv_rpcs d0 ! 0 = None then Some (createRpc SUBSCRIBER_DIALOUTSUBSCRIBER (Suc 0)) else dv_rpcs d0 ! 0)]\<rparr>"
  have "dev_wf d" unfolding d_def by (rule dev_wf_add[OF d0(1)]) simp
  moreover have "dv_device d = cn" by (simp add: d_def d0)
  moreover have c: "createOrUpdateDeviceWithNewRpc s cn SUBSCRIBER_DIALOUTSUBSCRIBER = Some (s\<lparr>sv_devices := mput (sv_devices s) cn d\<rparr>, 0)"
    by (simp add: createOrUpdateDeviceWithNewRpc_def getUnusedRpcId_def d_def Let_def flip: d0_def)
  moreover have "rpcAt (s\<lparr>sv_devices := mput (sv_devices s) cn d\<rparr>) cn 0
      = Some (case rpcAt s cn 0 of Some r \<Rightarrow> r | None \<Rightarrow> createRpc SUBSCRIBER_DIALOUTSUBSCRIBER 1)"
    using d0(3,4) by (auto simp: rpcAt_def d_def split: option.split)
  ultimately show thesis using that by blast
qed

lemma rpcAt_updRpc:
  "rpcAt (updRpc s cn i f) cn i = map_option f (rpcAt s cn i)"
  by (auto simp: rpcAt_def updRpc_def split: option.split)

lemma finishRpc_wf:
  assumes "server_wf s" "finishRpc s cn i c = Inr s'"
  shows "server_wf s'"
proof -
  define s1 where "s1 = updRpc s cn i (\<lambda>r. r\<lparr>rpc_running := False, rpc_config := (if c = None then rpc_config r else c)\<rparr>)"
  have s1: "server_wf s1" unfolding s1_def by (rule server_wf_updRpc[OF assms(1)]) simp
  have "s' = s1 \<or> (\<exists>d r d'. mget (sv_devices s1) cn = Some d \<and> removeRpcFromDevice d r = Inr d' \<and>
    s' = s1\<lparr>sv_devices := mput (sv_devices s1) cn d'\<rparr>)"
    using assms(2) unfolding finishRpc_def Let_def s1_def[symmetric]
    by (auto simp: bindR_Inr_iff split: option.splits)
  thus ?thesis
  proof (elim disjE exE conjE)
    fix d r d'
    assume d: "mget (sv_devices s1) cn = Some d" "removeRpcFromDevice d r = Inr d'" "s' = s1\<lparr>sv_devices := mput (sv_devices s1) cn d'\<rparr>"
    have "dev_wf d" "dv_device d = cn" using s1 d(1) by (auto simp: server_wf_def)
    with dev_wf_remove[OF _ d(2)] s1 d(3) show "server_wf s'" by (simp add: server_wf_put)
  qed (use s1 in simp)
qed

lemma deliverConfig_wf:
  assumes "server_wf s" "deliverConfig s cn i c = Some s'"
  shows "server_wf s'"
proof -
  have "s' = updRpc s cn i (\<lambda>r. r\<lparr>rpc_cfgChannel := rpc_cfgChannel r @ [c], rpc_config := Some c\<rparr>)"
    using assms(2) by (auto simp: deliverConfig_def split: option.splits if_splits)
  thus ?thesis using server_wf_updRpc[OF assms(1)] by simp
qed

text \<open>What a message does: nothing, or its configuration goes to the first RPC of its device.\<close>

definition msgDevice :: "string \<Rightarrow> DialOutRequest \<Rightarrow> string" where
  "msgDevice deviceName cfg = (if deviceName \<noteq> [] then deviceName else dr_Device cfg)"

definition typed :: "DialOutRequest \<Rightarrow> DialOutRequest" where
  "typed cfg = (if dr_RpcType cfg = [] then cfg\<lparr>dr_RpcType := SUBSCRIBER_DIALOUTSUBSCRIBER\<rparr> else cfg)"

definition accepted :: "(string \<Rightarrow> DialOutRequest \<times> bool) \<Rightarrow> bool \<Rightarrow> string \<Rightarrow> string \<Rightarrow> bool" where
  "accepted um skipVerify deviceName msg =
     (case msg of
        [] \<Rightarrow> False
      | ch # _ \<Rightarrow>
          ch \<noteq> CHR ''{'' \<and> (case um msg of (cfg, ok) \<Rightarrow>
            ok \<and> \<not> (deviceName \<noteq> [] \<and> \<not> skipVerify \<and> dr_Device cfg \<noteq> deviceName) \<and>
            dr_RpcType (typed cfg) = SUBSCRIBER_DIALOUTSUBSCRIBER))"

lemma findRpc:
  assumes "server_wf s"
  obtains s1 r where
    "(case mget (sv_devices s) cn of
        None \<Rightarrow> createOrUpdateDeviceWithNewRpc s cn SUBSCRIBER_DIALOUTSUBSCRIBER
      | Some d \<Rightarrow> if dv_rpcs d ! 0 = None then createOrUpdateDeviceWithNewRpc s cn SUBSCRIBER_DIALOUTSUBSCRIBER else Some (s, 0))
      = Some (s1, 0)"
    and "server_wf s1" and "rpcAt s1 cn 0 = Some r" and "\<And>r'. rpcAt s cn 0 = Some r' \<Longrightarrow> r' = r"
proof (cases "\<exists>d. mget (sv_devices s) cn = Some d \<and> dv_rpcs d ! 0 \<noteq> None")
  case True
  then obtain d where d: "mget (sv_devices s) cn = Some d" "dv_rpcs d ! 0 \<noteq> None" by blast
  with assms have "length (dv_rpcs d) = 16" by (auto simp: server_wf_def dev_wf_def)
  with d assms that[of s] show thesis by (auto simp: rpcAt_def)
next
  case False
  obtain d s1 where c: "createOrUpdateDeviceWithNewRpc s cn SUBSCRIBER_DIALOUTSUBSCRIBER = Some (s1, 0)"
    "s1 = s\<lparr>sv_devices := mput (sv_devices s) cn d\<rparr>" "dev_wf d" "dv_device d = cn"
    "rpcAt s1 cn 0 = Some (case rpcAt s cn 0 of Some r \<Rightarrow> r | None \<Rightarrow> createRpc SUBSCRIBER_DIALOUTSUBSCRIBER 1)"
    by (rule createOrUpdate_first[OF assms])
  have "server_wf s1" using c(2,3,4) assms by (simp add: server_wf_put)
  with c(1,5) False show thesis by (intro that[of s1]) (auto split: option.splits)
qed

lemma consumeMsg_cases:
  assumes "server_wf s" "consumeMsg um sv dn s msg = Inr (Some (Inr s'))"
  shows "server_wf s' \<and> (if accepted um sv dn msg
    then \<exists>r. rpcAt s' (msgDevice dn (fst (um msg))) 0 = Some r \<and> rpc_config r = Some (typed (fst (um msg))) \<and>
      rpc_cfgChannel r \<noteq> [] \<and> last (rpc_cfgChannel r) = typed (fst (um msg))
    else s' = s)"
proof (cases "accepted um sv dn msg")
  case False
  with assms show ?thesis
    by (auto simp: consumeMsg_def accepted_def typed_def Let_def split: list.splits if_splits prod.splits)
next
  case True
  then obtain ch rest cfg where m: "msg = ch # rest" "ch \<noteq> CHR ''{''" "um msg = (cfg, True)"
    "\<not> (dn \<noteq> [] \<and> \<not> sv \<and> dr_Device cfg \<noteq> dn)" "dr_RpcType (typed cfg) = SUBSCRIBER_DIALOUTSUBSCRIBER"
    by (auto simp: accepted_def split: list.splits prod.splits)
  obtain s1 r where f: "(case mget (sv_devices s) (msgDevice dn cfg) of
        None \<Rightarrow> createOrUpdateDeviceWithNewRpc s (msgDevice dn cfg) SUBSCRIBER_DIALOUTSUBSCRIBER
      | Some d \<Rightarrow> if dv_rpcs d ! 0 = None then createOrUpdateDeviceWithNewRpc s (msgDevice dn cfg) SUBSCRIBER_DIALOUTSUBSCRIBER else Some (s, 0))
      = Some (s1, 0)" "server_wf s1" "rpcAt s1 (msgDevice dn cfg) 0 = Some r"
    by (rule findRpc[OF assms(1)])
  have "deliverConfig s1 (msgDevice dn cfg) 0 (typed cfg) = Some s'"
    using assms(2) m f(1) unfolding consumeMsg_def
    by (auto simp: Let_def simp flip: typed_def msgDevice_def split: if_splits)
  moreover from this have "s' = updRpc s1 (msgDevice dn cfg) 0 (\<lambda>r. r\<lparr>rpc_cfgChannel := rpc_cfgChannel r @ [typed cfg], rpc_config := Some (typed cfg)\<rparr>)"
    by (auto simp: deliverConfig_def split: option.splits if_splits)
  ultimately show ?thesis
    using True m(3) f(2,3) deliverConfig_wf[OF f(2)] by (auto simp: rpcAt_updRpc)
qed

lemma consumePartition_Cons_iff:
  "consumePartition um sv dn s (m # ms) = Inr (Some (Inr s')) \<longleftrightarrow>
   (\<exists>s1. consumeMsg um sv dn s m = Inr (Some (Inr s1)) \<and> consumePartition um sv dn s1 ms = Inr (Some (Inr s')))"
proof (cases "consumeMsg um sv dn s m")
  case (Inr r)
  show ?thesis
  proof (cases r)
    case (Some x)
    with Inr show ?thesis by (cases x) simp_all
  qed (use Inr in simp)
qed simp

lemma consumePartition_wf:
  "server_wf s \<Longrightarrow> consumePartition um sv dn s ms = Inr (Some (Inr s')) \<Longrightarrow> server_wf s'"
proof (induction ms arbitrary: s)
  case (Cons m ms)
  then obtain s1 where "consumeMsg um sv dn s m = Inr (Some (Inr s1))" "consumePartition um sv dn s1 ms = Inr (Some (Inr s'))"
    unfolding consumePartition_Cons_iff by blast
  with Cons consumeMsg_cases show ?case by blast
qed simp

lemma consumePartition_append:
  "consumePartition um sv dn s (ms @ ns) =
     bindR (consumePartition um sv dn s ms) (\<lambda>r. case r of Some (Inr s1) \<Rightarrow> consumePartition um sv dn s1 ns | _ \<Rightarrow> Inr r)"
proof (induction ms arbitrary: s)
  case (Cons m ms)
  show ?case
  proof (cases "consumeMsg um sv dn s m")
    case (Inr r)
    with Cons.IH show ?thesis by (auto split: option.split sum.split)
  qed simp
qed simp

text \<open>The responses the loop takes before it ends, and the message for one of them.\<close>

fun dev_rsps :: "'r dial_event list \<Rightarrow> 'r list" where
  "dev_rsps (DevRsp r # evs) = r # dev_rsps evs"
| "dev_rsps (ProducerErr # evs) = dev_rsps evs"
| "dev_rsps _ = []"

definition data_msg :: "string \<Rightarrow> string \<Rightarrow> 'r \<Rightarrow> 'r kafka_msg" where
  "data_msg cn ctx r = \<lparr>km_Topic = ''gnmi-data'', km_Key = cn, km_Device = cn, km_Context = ctx, km_Response = r\<rparr>"

lemma forwardLoop_messages:
  "fst (forwardLoop ptext mar cn ctx evs) =
     map (data_msg cn ctx) (filter (\<lambda>r. ptext r \<noteq> [] \<and> mar (data_msg cn ctx r)) (dev_rsps evs))"
  by (induction evs rule: dev_rsps.induct) (auto simp: data_msg_def Let_def split: prod.split)

lemma serveStream_messages:
  assumes "serveStream ptext mar s cn i cfg sl evs = Inr (s', sl', ms, res)"
  shows "ms = map (data_msg cn (dr_Context cfg))
    (filter (\<lambda>r. ptext r \<noteq> [] \<and> mar (data_msg cn (dr_Context cfg) r)) (dev_rsps evs))"
proof -
  obtain ms1 res1 c where f: "forwardLoop ptext mar cn (dr_Context cfg) evs = (ms1, res1, c)"
    by (cases "forwardLoop ptext mar cn (dr_Context cfg) evs")
  with assms have "ms = ms1" by (auto simp: serveStream_def bindR_Inr_iff)
  with f forwardLoop_messages[of ptext mar cn "dr_Context cfg" evs] show ?thesis by simp
qed

lemma serveStream_wf:
  assumes "server_wf s" "serveStream ptext mar s cn i cfg sl evs = Inr (s', sl', ms, res)"
  shows "server_wf s'"
  using assms finishRpc_wf[OF assms(1)] by (auto simp: serveStream_def bindR_Inr_iff split: prod.splits if_splits)

lemma dialoutServe_wf:
  assumes "server_wf s" "dialoutServe ptext mar s cn i cfg first_rsp evs = Inr (s', sl, ms, res)"
  shows "server_wf s'"
proof (cases first_rsp)
  case (First r)
  show ?thesis
  proof (cases r)
    case (Some r0)
    with First assms serveStream_wf[OF assms(1)] show ?thesis by (simp add: dialoutServe_def)
  next
    case None
    with First assms obtain subs where "xPathsTognmiSubscription [] (Some (dr_Paths cfg)) = Inr subs"
      by (auto simp: dialoutServe_def bindR_Inr_iff)
    with First None assms serveStream_wf[OF assms(1)] finishRpc_wf[OF assms(1)] show ?thesis
      by (cases subs) (auto simp: dialoutServe_def bindR_Inr_iff)
  qed
qed (use assms finishRpc_wf[OF assms(1)] in \<open>auto simp: dialoutServe_def bindR_Inr_iff\<close>)

lemma DialOutSubscriber_cases:
  assumes "server_wf s"
  obtains s1 r where "server_wf s1"
    and "r = (case rpcAt s cn 0 of Some r \<Rightarrow> r | None \<Rightarrow> createRpc SUBSCRIBER_DIALOUTSUBSCRIBER 1)"
    and "\<And>ptext mar first_rsp evs. DialOutSubscriber ptext mar s cn first_rsp evs =
      (case takeConfig (r\<lparr>rpc_running := True\<rparr>) of
         None \<Rightarrow> Inr (s1, None, [], Waiting)
       | Some (cfg, r') \<Rightarrow> dialoutServe ptext mar (updRpc s1 cn 0 (\<lambda>_. r')) cn 0 cfg first_rsp evs)"
    and "rpcAt s1 cn 0 = Some (r\<lparr>rpc_running := True\<rparr>)"
proof -
  obtain d s0 where c: "createOrUpdateDeviceWithNewRpc s cn SUBSCRIBER_DIALOUTSUBSCRIBER = Some (s0, 0)"
    "s0 = s\<lparr>sv_devices := mput (sv_devices s) cn d\<rparr>" "dev_wf d" "dv_device d = cn"
    "rpcAt s0 cn 0 = Some (case rpcAt s cn 0 of Some r \<Rightarrow> r | None \<Rightarrow> createRpc SUBSCRIBER_DIALOUTSUBSCRIBER 1)"
    by (rule createOrUpdate_first[OF assms])
  define s1 where "s1 = updRpc s0 cn 0 (rpc_running_update (\<lambda>_. True))"
  have "server_wf s0" using c(2,3,4) assms by (simp add: server_wf_put)
  hence "server_wf s1" unfolding s1_def by (rule server_wf_updRpc) simp
  moreover have r: "rpcAt s1 cn 0 = Some ((case rpcAt s cn 0 of Some r \<Rightarrow> r | None \<Rightarrow> createRpc SUBSCRIBER_DIALOUTSUBSCRIBER 1)\<lparr>rpc_running := True\<rparr>)"
    by (simp add: s1_def rpcAt_updRpc c(5))
  ultimately show thesis
    using c(1) r by (intro that[of s1]) (simp_all add: DialOutSubscriber_def Let_def s1_def split: option.split)
qed

lemma takeConfig_id: "takeConfig r = Some (cfg, r') \<Longrightarrow> rpc_rpcId r' = rpc_rpcId r"
  by (auto simp: takeConfig_def split: list.splits option.splits)


section \<open>Properties\<close>

text \<open>
  C14. The devices of the dial-out server stay well formed, whatever configurations are consumed and whatever calls the
  devices make: 16 slots each, a bit set exactly for the slots in use, and each RPC with the id of its slot.
\<close>

theorem dialout_wf:
  assumes "server_wf s"
  shows "(consumePartition um sv dn s msgs = Inr (Some (Inr s1)) \<longrightarrow> server_wf s1) \<and>
    (DialOutSubscriber ptext mar s cn first_rsp evs = Inr (s2, sl, ms, res) \<longrightarrow> server_wf s2)"
proof (intro conjI impI)
  assume "consumePartition um sv dn s msgs = Inr (Some (Inr s1))"
  with assms show "server_wf s1" by (rule consumePartition_wf)
next
  assume d: "DialOutSubscriber ptext mar s cn first_rsp evs = Inr (s2, sl, ms, res)"
  obtain s0 r where c: "server_wf s0" "rpcAt s0 cn 0 = Some (r\<lparr>rpc_running := True\<rparr>)"
    "DialOutSubscriber ptext mar s cn first_rsp evs = (case takeConfig (r\<lparr>rpc_running := True\<rparr>) of
         None \<Rightarrow> Inr (s0, None, [], Waiting)
       | Some (cfg, r') \<Rightarrow> dialoutServe ptext mar (updRpc s0 cn 0 (\<lambda>_. r')) cn 0 cfg first_rsp evs)"
    using DialOutSubscriber_cases[OF assms] by metis
  show "server_wf s2"
  proof (cases "takeConfig (r\<lparr>rpc_running := True\<rparr>)")
    case None
    with c d show ?thesis by simp
  next
    case (Some x)
    then obtain cfg r' where x: "takeConfig (r\<lparr>rpc_running := True\<rparr>) = Some (cfg, r')" by (cases x) simp
    have "r'\<lparr>rpc_rpcId := rpc_rpcId r\<rparr> = r'" using takeConfig_id[OF x] by (cases r') simp
    hence "updRpc s0 cn 0 (\<lambda>_. r') = updRpc s0 cn 0 (\<lambda>q. r'\<lparr>rpc_rpcId := rpc_rpcId q\<rparr>)"
      using c(2) by (auto simp: updRpc_def rpcAt_def split: option.split if_splits)
    hence "server_wf (updRpc s0 cn 0 (\<lambda>_. r'))" using server_wf_updRpc[OF c(1)] by simp
    moreover have "dialoutServe ptext mar (updRpc s0 cn 0 (\<lambda>_. r')) cn 0 cfg first_rsp evs = Inr (s2, sl, ms, res)"
      using c(3) d x by simp
    ultimately show ?thesis by (rule dialoutServe_wf)
  qed
qed

lemma server_wf_new: "server_wf (newDialOutServer rpcs)"
  by (simp add: server_wf_def newDialOutServer_def)

definition ex_req :: "string \<Rightarrow> DialOutRequest" where
  "ex_req ctx = \<lparr>dr_Device = ''r1'', dr_Paths = [\<lparr>do_Path = ''/interfaces'', do_Frequency = 1000, do_Mode = []\<rparr>],
     dr_Context = ctx, dr_RpcType = []\<rparr>"

definition ex_um :: "string \<Rightarrow> DialOutRequest \<times> bool" where
  "ex_um m = (ex_req m, True)"

definition ex_server :: dialoutServerT where
  "ex_server = (case consumePartition ex_um True [] (newDialOutServer [SUBSCRIBER_DIALOUTSUBSCRIBER]) [''c1'', ''c2'']
     of Inr (Some (Inr s)) \<Rightarrow> s | _ \<Rightarrow> newDialOutServer [])"

lemma ex_consume:
  "consumePartition ex_um True [] (newDialOutServer [SUBSCRIBER_DIALOUTSUBSCRIBER]) [''c1'', ''c2''] = Inr (Some (Inr ex_server))"
  by code_simp

theorem dialout_wf_witness: "server_wf ex_server"
  using dialout_wf[OF server_wf_new] ex_consume by blast

lemma DialOutSubscriber_latest:
  assumes "server_wf s" and "consumePartition um sv [] s (msgs @ [msg]) = Inr (Some (Inr s1))"
    and "accepted um sv [] msg" and "um msg = (cfg, True)"
    and "DialOutSubscriber ptext mar s1 (dr_Device cfg) (First (Some r0)) evs = Inr (s2, sl, ms, res)"
  shows "ms = map (data_msg (dr_Device cfg) (dr_Context cfg))
    (filter (\<lambda>r. ptext r \<noteq> [] \<and> mar (data_msg (dr_Device cfg) (dr_Context cfg) r)) (dev_rsps (withInitial r0 evs)))"
proof -
  obtain s0 where s0: "consumePartition um sv [] s msgs = Inr (Some (Inr s0))" "consumeMsg um sv [] s0 msg = Inr (Some (Inr s1))"
    using assms(2) unfolding consumePartition_append
    by (cases "consumePartition um sv [] s msgs")
      (auto simp: consumePartition_Cons_iff simp del: consumePartition.simps(2) split: option.splits sum.splits)
  from consumeMsg_cases[OF consumePartition_wf[OF assms(1) s0(1)] s0(2)] assms(3,4)
  obtain r where wf: "server_wf s1" and r: "rpcAt s1 (dr_Device cfg) 0 = Some r" "rpc_cfgChannel r \<noteq> []"
    "last (rpc_cfgChannel r) = typed cfg"
    by (auto simp: msgDevice_def)
  obtain s3 r3 where "r3 = r" and "DialOutSubscriber ptext mar s1 (dr_Device cfg) (First (Some r0)) evs =
      (case takeConfig (r3\<lparr>rpc_running := True\<rparr>) of
         None \<Rightarrow> Inr (s3, None, [], Waiting)
       | Some (cfg', r') \<Rightarrow> dialoutServe ptext mar (updRpc s3 (dr_Device cfg) 0 (\<lambda>_. r')) (dr_Device cfg) 0 cfg' (First (Some r0)) evs)"
    using DialOutSubscriber_cases[OF wf, of "dr_Device cfg"] r(1) by (metis option.simps(5))
  moreover obtain r' where "takeConfig (r\<lparr>rpc_running := True\<rparr>) = Some (typed cfg, r')"
    using r(2,3) by (cases "rpc_cfgChannel r") (auto simp: takeConfig_def)
  ultimately obtain s4 where "serveStream ptext mar s4 (dr_Device cfg) 0 (typed cfg) None (withInitial r0 evs) = Inr (s2, sl, ms, res)"
    using assms(5) by (auto simp: dialoutServe_def)
  from serveStream_messages[OF this] show ?thesis by (simp add: typed_def)
qed

text \<open>
  C7. A device that dials in is served with the configuration published last: after any messages from Kafka of which the
  last is a configuration of the device, its responses are forwarded once each and in order, all with the context of
  this configuration, unless they print as nothing or cannot be encoded.
\<close>

theorem dialout_forwards_latest:
  assumes "server_wf s" and "consumePartition um sv [] s (msgs @ [msg]) = Inr (Some (Inr s1))"
    and "accepted um sv [] msg" and "um msg = (cfg, True)"
    and "DialOutSubscriber ptext mar s1 (dr_Device cfg) (First (Some r0)) evs = Inr (s2, sl, ms, res)"
  shows "ms = map (data_msg (dr_Device cfg) (dr_Context cfg))
    (filter (\<lambda>r. ptext r \<noteq> [] \<and> mar (data_msg (dr_Device cfg) (dr_Context cfg) r)) (dev_rsps (withInitial r0 evs)))"
  using assms by (rule DialOutSubscriber_latest)

theorem dialout_forwards_latest_witness:
  "\<exists>s2 sl ms res. DialOutSubscriber id (\<lambda>_. True) ex_server ''r1'' (First (Some ''a'')) [ProducerErr, DevRsp [], DevRsp ''b'', DevEOF]
     = Inr (s2, sl, ms, res) \<and> ms = map (data_msg ''r1'' ''c2'') [''a'', ''b'']"
proof -
  let ?d = "DialOutSubscriber id (\<lambda>_. True) ex_server ''r1'' (First (Some ''a'')) [ProducerErr, DevRsp [], DevRsp ''b'', DevEOF]"
  have "case ?d of Inl _ \<Rightarrow> False | Inr _ \<Rightarrow> True" by code_simp
  then obtain s2 sl ms res where d: "?d = Inr (s2, sl, ms, res)" by (cases ?d) auto
  have r: "dr_Device (ex_req ''c2'') = ''r1''" "dr_Context (ex_req ''c2'') = ''c2''" by (simp_all add: ex_req_def)
  have c: "consumePartition ex_um True [] (newDialOutServer [SUBSCRIBER_DIALOUTSUBSCRIBER]) ([''c1''] @ [''c2'']) = Inr (Some (Inr ex_server))"
    using ex_consume by simp
  have a: "accepted ex_um True [] ''c2''" by code_simp
  have u: "ex_um ''c2'' = (ex_req ''c2'', True)" by (simp add: ex_um_def)
  from dialout_forwards_latest[OF server_wf_new c a u d[folded r(1)]] d show ?thesis by (simp add: r)
qed

lemma rpcAt_other_remove:
  "removeRpcFromDevice d r = Inr d' \<Longrightarrow> unat (rpc_rpcId r) \<noteq> i \<Longrightarrow> dv_rpcs d' ! i = dv_rpcs d ! i"
  by (auto simp: removeRpcFromDevice_def Let_def split: if_splits)

text \<open>
  Removing the RPC of a device removes the wrong one: the id of the first RPC is 1, and the code clears slot 1 and bit
  1 instead of slot 0 and bit 0. The RPC stays where it is.
\<close>

theorem removeRpcFromDevice_wrong_slot:
  assumes "dev_wf d" and "dv_rpcs d ! 0 = Some r"
  shows "\<exists>d'. removeRpcFromDevice d r = Inr d' \<and> dv_rpcs d' ! 0 = Some r \<and> bit (dv_rpcIdSpace d') 0 \<and>
    dv_rpcs d' ! 1 = None \<and> \<not> bit (dv_rpcIdSpace d') 1"
proof -
  have n: "unat (rpc_rpcId r) = 1" "length (dv_rpcs d) = 16" "bit (dv_rpcIdSpace d) 0"
    using assms by (auto simp: dev_wf_def)
  thus ?thesis
    using assms(2) by (simp add: removeRpcFromDevice_def Let_def bit_and_iff bit_not_iff word16_single[of "Suc 0", simplified])
qed

definition ex_device :: deviceInfoT where
  "ex_device = (case mget (sv_devices ex_server) ''r1'' of Some d \<Rightarrow> d | None \<Rightarrow> newDevice [])"

theorem removeRpcFromDevice_wrong_slot_witness:
  "\<exists>r d'. dv_rpcs ex_device ! 0 = Some r \<and> removeRpcFromDevice ex_device r = Inr d' \<and> dv_rpcs d' ! 0 = Some r"
proof -
  have m: "mget (sv_devices ex_server) ''r1'' \<noteq> None" "dv_rpcs ex_device ! 0 \<noteq> None" by code_simp+
  then obtain r where r: "dv_rpcs ex_device ! 0 = Some r" by blast
  have "server_wf ex_server" by (rule consumePartition_wf[OF server_wf_new ex_consume])
  hence "dev_wf ex_device" using m(1) by (auto simp: server_wf_def ex_device_def)
  from removeRpcFromDevice_wrong_slot[OF this r] r show ?thesis by blast
qed

lemma unusedFrom_spec:
  "unusedFrom ids i = (if \<exists>k. i \<le> k \<and> k < 16 \<and> \<not> bit ids k then Some (LEAST k. i \<le> k \<and> k < 16 \<and> \<not> bit ids k) else None)"
proof (induction ids i rule: unusedFrom.induct)
  case (1 ids i)
  have z: "ids AND push_bit i 1 = 0 \<longleftrightarrow> \<not> bit ids i"
    using bit_iff_and_push_bit_not_eq_0 by blast
  show ?case
  proof (cases "i < 16 \<and> bit ids i")
    case True
    hence "unusedFrom ids i = unusedFrom ids (Suc i)"
      using z by (simp add: unusedFrom.simps[of ids i] MAX_DIALOUT_RPCS_def)
    moreover have eq: "(i \<le> k \<and> k < 16 \<and> \<not> bit ids k) = (Suc i \<le> k \<and> k < 16 \<and> \<not> bit ids k)" for k
      using True by (metis Suc_leD Suc_leI le_neq_implies_less)
    ultimately show ?thesis
      using 1 True z unfolding eq by (auto simp: MAX_DIALOUT_RPCS_def)
  next
    case False
    show ?thesis
    proof (cases "i < 16")
      case True
      with False have "(LEAST k. i \<le> k \<and> k < 16 \<and> \<not> bit ids k) = i" by (intro Least_equality) auto
      with True False z show ?thesis by (auto simp: unusedFrom.simps[of ids i] MAX_DIALOUT_RPCS_def)
    next
      case False
      thus ?thesis by (auto simp: unusedFrom.simps[of ids i] MAX_DIALOUT_RPCS_def)
    qed
  qed
qed

text \<open>
  The id of a new RPC: 1 for the subscriber RPC, whatever is in use; for any other type one more than the smallest
  free position from 1 to 15, and an error exactly when none is free.
\<close>

theorem getUnusedRpcId_spec:
  "getUnusedRpcId ids t =
     (if t = SUBSCRIBER_DIALOUTSUBSCRIBER then Some 1
      else if \<exists>k. 1 \<le> k \<and> k < 16 \<and> \<not> bit ids k then Some (Suc (LEAST k. 1 \<le> k \<and> k < 16 \<and> \<not> bit ids k))
      else None)"
  unfolding getUnusedRpcId_def unusedFrom_spec by auto

text \<open>
  A message without a path stops the collector: a configuration with no path, or an undecodable message that yields
  none, makes the consumer panic before its error is looked at; and a device that never dials in blocks the consumer,
  for all devices, once 512 of its configurations are waiting.
\<close>

theorem consumeMsg_stops:
  assumes "msg \<noteq> []" and "hd msg \<noteq> CHR ''{''" and "um msg = (cfg, ok)"
  shows "(dr_Paths cfg = [] \<longrightarrow> consumeMsg um sv dn s msg = Inl IndexOutOfRange) \<and>
    (dr_Paths cfg \<noteq> [] \<and> accepted um sv dn msg \<and> server_wf s \<and>
       rpcAt s (msgDevice dn cfg) 0 = Some r \<and> length (rpc_cfgChannel r) = 512 \<longrightarrow> consumeMsg um sv dn s msg = Inr None)"
proof (intro conjI impI)
  assume "dr_Paths cfg = []"
  with assms show "consumeMsg um sv dn s msg = Inl IndexOutOfRange" by (cases msg) (simp_all add: consumeMsg_def)
next
  assume h: "dr_Paths cfg \<noteq> [] \<and> accepted um sv dn msg \<and> server_wf s \<and>
    rpcAt s (msgDevice dn cfg) 0 = Some r \<and> length (rpc_cfgChannel r) = 512"
  hence wf: "server_wf s" by simp
  obtain s1 r' where f: "(case mget (sv_devices s) (msgDevice dn cfg) of
        None \<Rightarrow> createOrUpdateDeviceWithNewRpc s (msgDevice dn cfg) SUBSCRIBER_DIALOUTSUBSCRIBER
      | Some d \<Rightarrow> if dv_rpcs d ! 0 = None then createOrUpdateDeviceWithNewRpc s (msgDevice dn cfg) SUBSCRIBER_DIALOUTSUBSCRIBER else Some (s, 0))
      = Some (s1, 0)" "rpcAt s1 (msgDevice dn cfg) 0 = Some r'" "\<And>q. rpcAt s (msgDevice dn cfg) 0 = Some q \<Longrightarrow> q = r'"
    by (rule findRpc[OF wf]) blast
  have "deliverConfig s1 (msgDevice dn cfg) 0 (typed cfg) = None"
    using f(2) f(3)[of r] h by (simp add: deliverConfig_def cfgChannel_cap_def)
  with assms f(1) h show "consumeMsg um sv dn s msg = Inr None"
    by (cases msg) (auto simp: consumeMsg_def accepted_def Let_def simp flip: typed_def msgDevice_def)
qed

theorem consumeMsg_stops_witness:
  "consumeMsg (\<lambda>m. ((ex_req m)\<lparr>dr_Paths := []\<rparr>, False)) True [] ex_server ''x'' = Inl IndexOutOfRange"
  using consumeMsg_stops[of "''x''" "\<lambda>m. ((ex_req m)\<lparr>dr_Paths := []\<rparr>, False)" "(ex_req ''x'')\<lparr>dr_Paths := []\<rparr>" False True "[]" ex_server]
  by simp

end
