(* ===== verification/Consumer.thy ===== *)
theory Consumer
  imports Dialout
begin

text \<open>
  The consumer of the data topic: kafka_consumer.go. A message is decoded by \<open>um\<close> into the dial-out context and the
  responses, the context by \<open>cfgOf\<close> into a configuration; the code ignores the errors of both decoders, so that a message
  that cannot be decoded is one with an empty context and no responses. The clock reading is an argument. The errors of
  \<open>gnmiHandleResponse\<close> are only logged. The consumer group of the Kafka library calls \<open>Setup\<close> and then
  \<open>ConsumeClaim\<close>.
\<close>

section \<open>The handler\<close>

record consumer_env =
  ce_env :: env
  ce_flags :: Flags
  ce_lib :: influx_lib
  ce_pb :: pb_lib
  ce_now :: int

type_synonym gnmiConsumerGroupHandler = "(string, JCtx) gomap"

definition Setup :: gnmiConsumerGroupHandler where
  "Setup = []"

fun handleRsps :: "consumer_env \<Rightarrow> JCtx \<Rightarrow> SubscribeResponse list \<Rightarrow> (JCtx \<times> jtimonMetric list) go" where
  "handleRsps ce jctx [] = Inr (jctx, [])"
| "handleRsps ce jctx (rsp # rsps) =
     bindR (gnmiHandleResponse (ce_flags ce) (ce_lib ce) (ce_pb ce) (ce_now ce) jctx rsp) (\<lambda>(_, j, ms).
       bindR (handleRsps ce j rsps) (\<lambda>(j', ms'). Inr (j', ms @ ms')))"

text \<open>The context of a database: a new one, or the one there is with the configuration of this message.\<close>

definition dbContext :: "consumer_env \<Rightarrow> gnmiConsumerGroupHandler \<Rightarrow> Config \<Rightarrow> JCtx go" where
  "dbContext ce dbHandles cfg =
     (case mget dbHandles (i_Dbname (Influx cfg)) of
        None \<Rightarrow> influxInit (ce_env ce) (zeroJCtx\<lparr>config := cfg\<rparr>)
      | Some jctx \<Rightarrow> Inr (jctx\<lparr>config := cfg\<rparr>))"

definition claimMsg ::
  "consumer_env \<Rightarrow> ('m \<Rightarrow> string \<times> SubscribeResponse list) \<Rightarrow> (string \<Rightarrow> Config) \<Rightarrow> gnmiConsumerGroupHandler \<Rightarrow> 'm \<Rightarrow>
   (gnmiConsumerGroupHandler \<times> jtimonMetric list) go" where
  "claimMsg ce um cfgOf dbHandles msg =
     (case um msg of (ctx, rsps) \<Rightarrow>
        let cfg = cfgOf ctx
        in bindR (dbContext ce dbHandles cfg) (\<lambda>jctx.
             bindR (handleRsps ce jctx rsps) (\<lambda>(j, ms). Inr (mput dbHandles (i_Dbname (Influx cfg)) j, ms))))"

fun ConsumeClaim ::
  "consumer_env \<Rightarrow> ('m \<Rightarrow> string \<times> SubscribeResponse list) \<Rightarrow> (string \<Rightarrow> Config) \<Rightarrow> gnmiConsumerGroupHandler \<Rightarrow> 'm list \<Rightarrow>
   (gnmiConsumerGroupHandler \<times> jtimonMetric list) go" where
  "ConsumeClaim ce um cfgOf dbHandles [] = Inr (dbHandles, [])"
| "ConsumeClaim ce um cfgOf dbHandles (msg # msgs) =
     bindR (claimMsg ce um cfgOf dbHandles msg) (\<lambda>(h, ms).
       bindR (ConsumeClaim ce um cfgOf h msgs) (\<lambda>(h', ms'). Inr (h', ms @ ms')))"


section \<open>Lemmas\<close>

text \<open>The database of a message.\<close>

definition msgDb :: "('m \<Rightarrow> string \<times> SubscribeResponse list) \<Rightarrow> (string \<Rightarrow> Config) \<Rightarrow> 'm \<Rightarrow> string" where
  "msgDb um cfgOf msg = i_Dbname (Influx (cfgOf (fst (um msg))))"

lemma claimMsg_local:
  assumes "claimMsg ce um cfgOf h msg = Inr (h', ms)"
  shows "db \<noteq> msgDb um cfgOf msg \<Longrightarrow> mget h' db = mget h db"
  using assms by (auto simp: claimMsg_def msgDb_def bindR_Inr_iff Let_def split: prod.splits)

lemma claimMsg_cong:
  assumes "claimMsg ce um cfgOf h msg = Inr (h', ms)" "mget k (msgDb um cfgOf msg) = mget h (msgDb um cfgOf msg)"
  shows "\<exists>k'. claimMsg ce um cfgOf k msg = Inr (k', ms) \<and> mget k' (msgDb um cfgOf msg) = mget h' (msgDb um cfgOf msg)"
  using assms by (auto simp: claimMsg_def msgDb_def dbContext_def bindR_Inr_iff Let_def split: prod.splits)

lemma ConsumeClaim_project:
  assumes "ConsumeClaim ce um cfgOf h msgs = Inr (h', ms)" "mget k db = mget h db"
  shows "\<exists>k' ms'. ConsumeClaim ce um cfgOf k (filter (\<lambda>m. msgDb um cfgOf m = db) msgs) = Inr (k', ms') \<and> mget k' db = mget h' db"
  using assms
proof (induction msgs arbitrary: h k ms)
  case (Cons msg msgs)
  then obtain h1 m1 m2 where h1: "claimMsg ce um cfgOf h msg = Inr (h1, m1)" "ConsumeClaim ce um cfgOf h1 msgs = Inr (h', m2)"
    by (auto simp: bindR_Inr_iff)
  show ?case
  proof (cases "msgDb um cfgOf msg = db")
    case True
    with claimMsg_cong[OF h1(1)] Cons.prems(2) obtain k1 where "claimMsg ce um cfgOf k msg = Inr (k1, m1)" "mget k1 db = mget h1 db"
      by metis
    with Cons.IH[OF h1(2) this(2)] True show ?thesis by auto
  next
    case False
    with claimMsg_local[OF h1(1)] Cons.prems(2) have "mget k db = mget h1 db" by auto
    from Cons.IH[OF h1(2) this] False show ?thesis by auto
  qed
qed simp

lemma handleRsps_config: "handleRsps ce jctx rsps = Inr (j, ms) \<Longrightarrow> config j = config jctx"
  by (induction rsps arbitrary: jctx ms) (fastforce simp: bindR_Inr_iff dest: gnmiHandle_frame)+

lemma handleRsps_append:
  "handleRsps ce jctx (a @ b) =
     bindR (handleRsps ce jctx a) (\<lambda>(j, ms). bindR (handleRsps ce j b) (\<lambda>(j', ms'). Inr (j', ms @ ms')))"
  by (induction a arbitrary: jctx) (auto simp: bindR_assoc bindR_def split: sum.split)

lemma handleRsps_Cons_iff:
  "handleRsps ce j (r # rs) = Inr (j', ms) \<longleftrightarrow>
     (\<exists>e j1 m1 m2. gnmiHandleResponse (ce_flags ce) (ce_lib ce) (ce_pb ce) (ce_now ce) j r = Inr (e, j1, m1) \<and>
        handleRsps ce j1 rs = Inr (j', m2) \<and> ms = m1 @ m2)"
  by (auto simp: bindR_Inr_iff)

lemma ConsumeClaim_stream:
  assumes "list_all (\<lambda>r. um (enc r) = (ctx, [r])) rs" "handleRsps ce j rs = Inr (j', ms)"
    "mget h (i_Dbname (Influx (cfgOf ctx))) = Some j" "config j = cfgOf ctx"
  shows "\<exists>h'. ConsumeClaim ce um cfgOf h (map enc rs) = Inr (h', ms) \<and> mget h' (i_Dbname (Influx (cfgOf ctx))) = Some j'"
  using assms
proof (induction rs arbitrary: h j ms)
  case (Cons r rs)
  from Cons.prems(2) obtain e j1 m1 m2 where
    r: "gnmiHandleResponse (ce_flags ce) (ce_lib ce) (ce_pb ce) (ce_now ce) j r = Inr (e, j1, m1)"
    and rest: "handleRsps ce j1 rs = Inr (j', m2)" and ms: "ms = m1 @ m2"
    unfolding handleRsps_Cons_iff by blast
  have same: "j\<lparr>config := cfgOf ctx\<rparr> = j" using Cons.prems(4) by (cases j) simp
  let ?h = "mput h (i_Dbname (Influx (cfgOf ctx))) j1"
  have "claimMsg ce um cfgOf h (enc r) = Inr (?h, m1)"
    using Cons.prems(1,3) r same by (simp add: claimMsg_def dbContext_def)
  moreover have "config j1 = cfgOf ctx" using gnmiHandle_frame[OF r] Cons.prems(4) by simp
  ultimately show ?case using Cons.IH[OF _ rest, of ?h] Cons.prems(1) ms by auto
qed simp

lemma ConsumeClaim_fresh:
  assumes "list_all (\<lambda>r. um (enc r) = (ctx, [r])) rs" "rs \<noteq> []"
    "influxInit (ce_env ce) (zeroJCtx\<lparr>config := cfgOf ctx\<rparr>) = Inr j" "handleRsps ce j rs = Inr (j', ms)"
  shows "\<exists>h. ConsumeClaim ce um cfgOf Setup (map enc rs) = Inr (h, ms) \<and> mget h (i_Dbname (Influx (cfgOf ctx))) = Some j'"
proof -
  obtain r rs' where rs: "rs = r # rs'" using assms(2) by (cases rs) auto
  with assms(4) obtain e j1 m1 m2 where
    r: "gnmiHandleResponse (ce_flags ce) (ce_lib ce) (ce_pb ce) (ce_now ce) j r = Inr (e, j1, m1)"
    and rest: "handleRsps ce j1 rs' = Inr (j', m2)" and ms: "ms = m1 @ m2"
    using handleRsps_Cons_iff by blast
  let ?h = "mput Setup (i_Dbname (Influx (cfgOf ctx))) j1"
  have c: "config j1 = cfgOf ctx" using gnmiHandle_frame[OF r] influxInit_config[OF assms(3)] by simp
  have "claimMsg ce um cfgOf Setup (enc r) = Inr (?h, m1)"
    using assms(1,3) r rs by (simp add: claimMsg_def dbContext_def Setup_def mget_def)
  moreover obtain h' where "ConsumeClaim ce um cfgOf ?h (map enc rs') = Inr (h', m2)" "mget h' (i_Dbname (Influx (cfgOf ctx))) = Some j'"
    using ConsumeClaim_stream[OF _ rest, of um enc ctx ?h cfgOf] assms(1) rs c by auto
  ultimately show ?thesis using rs ms by auto
qed


section \<open>Properties\<close>

text \<open>
  C32. The databases are independent: what the consumer ends up with for a database is what it would have after the
  messages of this database alone, so that no message of another database loses, repeats or changes anything.
\<close>

theorem ConsumeClaim_separates:
  assumes "ConsumeClaim ce um cfgOf h msgs = Inr (h', ms)"
  shows "\<exists>k ms'. ConsumeClaim ce um cfgOf h (filter (\<lambda>m. msgDb um cfgOf m = db) msgs) = Inr (k, ms') \<and> mget k db = mget h' db"
  using ConsumeClaim_project[OF assms refl] .

definition ex_consumer :: consumer_env where
  "ex_consumer = \<lparr>ce_env = ex_env zeroConfig, ce_flags = zeroFlags, ce_lib = plain_lib, ce_pb = ex_pb, ce_now = 0\<rparr>"

definition ex_dbcfg :: "string \<Rightarrow> Config" where
  "ex_dbcfg db = zeroConfig\<lparr>Influx := (Influx zeroConfig)\<lparr>i_Dbname := db\<rparr>\<rparr>"

definition ex_sync :: SubscribeResponse where
  "ex_sync = \<lparr>r_Update = None, r_SyncResponse = True, r_Extension = []\<rparr>"

lemma ex_influxInit: "influxInit e (zeroJCtx\<lparr>config := ex_dbcfg db\<rparr>) =
    Inr (zeroJCtx\<lparr>config := ex_dbcfg db, influxCtx := zeroInfluxCtx\<lparr>reCompiled := True\<rparr>\<rparr>)"
  by (simp add: influxInit_def ex_dbcfg_def zero_defs getInfluxClient_def upd_influx_def)

lemma ex_claims:
  "\<exists>h. ConsumeClaim ex_consumer (\<lambda>m. (m, [ex_sync])) ex_dbcfg Setup [''a'', ''b'', ''a''] = Inr (h, [])"
  by (simp add: claimMsg_def dbContext_def Setup_def ex_influxInit gnmiHandleResponse_def ex_sync_def ex_consumer_def
      updateStats_def mget_def mput_def ex_dbcfg_def zero_defs influxInit_def getInfluxClient_def upd_influx_def)

theorem ConsumeClaim_separates_witness:
  "\<exists>h k ms. ConsumeClaim ex_consumer (\<lambda>m. (m, [ex_sync])) ex_dbcfg Setup [''a'', ''b'', ''a''] = Inr (h, []) \<and>
     ConsumeClaim ex_consumer (\<lambda>m. (m, [ex_sync])) ex_dbcfg Setup [''a'', ''a''] = Inr (k, ms) \<and> mget k ''a'' = mget h ''a''"
proof -
  obtain h where h: "ConsumeClaim ex_consumer (\<lambda>m. (m, [ex_sync])) ex_dbcfg Setup [''a'', ''b'', ''a''] = Inr (h, [])"
    using ex_claims by blast
  have "filter (\<lambda>m. msgDb (\<lambda>m. (m, [ex_sync])) ex_dbcfg m = ''a'') [''a'', ''b'', ''a''] = [''a'', ''a'']"
    by (simp add: msgDb_def ex_dbcfg_def zero_defs)
  with ConsumeClaim_separates[OF h, of "''a''"] h show ?thesis by metis
qed

end
