(* ===== verification/Program.thy ===== *)
theory Program
  imports Manager Consumer
begin

text \<open>
  The program around the components: \<open>main\<close> of main.go with the modes it chooses between, the start of the dial-out server and
  of its consumers of configurations (dialout.go), the consumer group of the data topic (kafka_consumer.go), the channel of
  signals of the workers (workers.go), and \<open>ExploreConfig\<close> of config.go.

  The listener, the certificate files, the Kafka client and the JSON encoder are parameters. A server that serves and an
  endless loop do not return; what they are given is a list.
\<close>

section \<open>The dial-out server\<close>

record dial_flags =
  df_port :: int
  df_myCACert :: string
  df_myCert :: string
  df_myKey :: string

text \<open>What the host of the server gives: whether it can listen, the absolute name of a file, key pairs, CA files, and Kafka.\<close>

record dial_host =
  dh_listen :: "string \<Rightarrow> bool"
  dh_abs :: "string \<Rightarrow> string option"
  dh_keyPair :: "string \<Rightarrow> string \<Rightarrow> bool"
  dh_readFile :: "string \<Rightarrow> string option"
  dh_isPEM :: "string \<Rightarrow> bool"
  dh_kafkaClient :: bool
  dh_kafkaConsumer :: bool
  dh_kafkaProducer :: bool

text \<open>The credentials of the server: none, or a key pair and the certificates that must have signed those of the clients.\<close>

datatype server_creds = NoCreds | ClientCerts string string string

definition orFatal :: "'a option \<Rightarrow> 'a go" where
  "orFatal x = (case x of None \<Rightarrow> Inl FatalExit | Some a \<Rightarrow> Inr a)"

definition serverCreds :: "dial_host \<Rightarrow> Flags \<Rightarrow> dial_flags \<Rightarrow> server_creds go" where
  "serverCreds h fl f =
     (if f_skipVerify fl then Inr NoCreds
      else if df_myCert f = [] then Inl FatalExit
      else
        bindR (orFatal (dh_abs h (df_myCert f))) (\<lambda>certFile.
          if df_myKey f = [] then Inl FatalExit
          else
            bindR (orFatal (dh_abs h (df_myKey f))) (\<lambda>keyFile.
              if \<not> dh_keyPair h certFile keyFile then Inl FatalExit
              else
                bindR (orFatal (dh_readFile h (df_myCACert f))) (\<lambda>bs.
                  if \<not> dh_isPEM h bs then Inl FatalExit else Inr (ClientCerts certFile keyFile bs)))))"

definition startDialOutServer :: "dial_host \<Rightarrow> Flags \<Rightarrow> dial_flags \<Rightarrow> (server_creds \<times> dialoutServerT) go" where
  "startDialOutServer h fl f =
     (if \<not> dh_listen h (f_myListeningIP fl @ '':'' @ show_int (df_port f)) then Inl FatalExit
      else
        bindR (serverCreds h fl f) (\<lambda>creds.
          if \<not> dh_kafkaClient h \<or> \<not> dh_kafkaConsumer h \<or> \<not> dh_kafkaProducer h then Inl FatalExit
          else Inr (creds, newDialOutServer [SUBSCRIBER_DIALOUTSUBSCRIBER])))"

text \<open>
  \<open>populateAllConfig\<close>: a round asks for the partitions (\<^term>\<open>None\<close> is an error, after which the loop sleeps) and starts a
  consumer at the oldest offset of each; the last one runs in the loop itself, the others beside it. A round ends when the
  last consumer does, or at once when it could not be started.
\<close>

record populate_round =
  pr_partitions :: "int list option"
  pr_offset :: "int \<Rightarrow> 64 word option"

fun startConsumers :: "(int \<Rightarrow> 64 word option) \<Rightarrow> int list \<Rightarrow> (int \<times> 64 word) list \<times> (int \<times> 64 word) option" where
  "startConsumers off [] = ([], None)"
| "startConsumers off (p # ps) =
     (if ps = [] then ([], map_option (Pair p) (off p))
      else
        case startConsumers off ps of
          (beside, own) \<Rightarrow> (case off p of None \<Rightarrow> (beside, own) | Some i \<Rightarrow> ((p, i) # beside, own)))"

text \<open>The consumers beside the loop after some rounds, and the last one of each round.\<close>

fun populateAllConfig :: "populate_round list \<Rightarrow> (int \<times> 64 word) list \<times> (int \<times> 64 word) list" where
  "populateAllConfig [] = ([], [])"
| "populateAllConfig (r # rs) =
     (case populateAllConfig rs of
        (beside, owns) \<Rightarrow>
          (case pr_partitions r of
             None \<Rightarrow> (beside, owns)
           | Some ps \<Rightarrow>
               (case startConsumers (pr_offset r) ps of
                  (b, own) \<Rightarrow> (b @ beside, (case own of None \<Rightarrow> owns | Some c \<Rightarrow> c # owns)))))"


section \<open>The consumer group\<close>

text \<open>
  The Kafka library calls \<open>Setup\<close> at the start of each session, that is at first and after each rebalancing, and
  \<open>ConsumeClaim\<close> with the messages of the session. The context of the loop is never cancelled.
\<close>

fun consumerSessions ::
  "consumer_env \<Rightarrow> ('m \<Rightarrow> string \<times> SubscribeResponse list) \<Rightarrow> (string \<Rightarrow> Config) \<Rightarrow> gnmiConsumerGroupHandler \<Rightarrow> 'm list list \<Rightarrow>
   (gnmiConsumerGroupHandler \<times> jtimonMetric list) go" where
  "consumerSessions ce um cfgOf h [] = Inr (h, [])"
| "consumerSessions ce um cfgOf h (msgs # ss) =
     bindR (ConsumeClaim ce um cfgOf Setup msgs) (\<lambda>(h1, ms).
       bindR (consumerSessions ce um cfgOf h1 ss) (\<lambda>(h2, ms'). Inr (h2, ms @ ms')))"

text \<open>The boolean is whether the group was made; without it nothing is consumed.\<close>

definition createKafkaConsumerGroup ::
  "bool \<Rightarrow> bool \<Rightarrow> consumer_env \<Rightarrow> ('m \<Rightarrow> string \<times> SubscribeResponse list) \<Rightarrow> (string \<Rightarrow> Config) \<Rightarrow> 'm list list \<Rightarrow>
   (bool \<times> gnmiConsumerGroupHandler \<times> jtimonMetric list) go" where
  "createKafkaConsumerGroup clientOk groupOk ce um cfgOf ss =
     (if \<not> clientOk \<or> \<not> groupOk then Inr (False, [], [])
      else bindR (consumerSessions ce um cfgOf [] ss) (\<lambda>r. Inr (True, r)))"


section \<open>Signals\<close>

text \<open>
  The channel of the signals has room for ten; sending to a full one blocks. \<open>signalHandler\<close> starts by replacing the channel
  that \<open>NewJWorkers\<close> made.
\<close>

datatype sig_event = SigSend os_signal | SigHandlerStart

record sig_state =
  sg_chan :: "os_signal list"
  sg_handled :: bool

definition sendSig :: "os_signal \<Rightarrow> sig_state \<Rightarrow> sig_state option" where
  "sendSig s st = (if length (sg_chan st) < 10 then Some (st\<lparr>sg_chan := sg_chan st @ [s]\<rparr>) else None)"

definition EndWorkers :: "sig_state \<Rightarrow> sig_state option" where
  "EndWorkers st = sendSig Interrupt st"

definition SIGHUPWorkers :: "sig_state \<Rightarrow> sig_state option" where
  "SIGHUPWorkers st = sendSig SIGHUP st"

definition signalHandler_start :: "sig_state \<Rightarrow> sig_state" where
  "signalHandler_start st = \<lparr>sg_chan = [], sg_handled = True\<rparr>"

text \<open>The delays between two attempts of the tunnel, in seconds.\<close>

record back_off =
  bo_MaxElapsedTime :: int
  bo_InitialInterval :: int
  bo_MaxInterval :: int
  bo_RandomizationPercent :: int

definition getBackOff :: back_off where
  "getBackOff = \<lparr>bo_MaxElapsedTime = 0, bo_InitialInterval = 1, bo_MaxInterval = 60, bo_RandomizationPercent = 50\<rparr>"


section \<open>The main program\<close>

definition zeroPath :: PathsConfig where
  "zeroPath = \<lparr>p_Path = [], p_Freq = 0, p_Mode = [], p_Origin = [], p_Target = [], p_PreGnmi = False, p_Gnmi = False,
     p_Gnmi_heartbeat_interval = 0\<rparr>"

definition ValidateConfig :: "(Config \<Rightarrow> string option) \<Rightarrow> Config \<Rightarrow> string option" where
  "ValidateConfig marshal cfg = marshal cfg"

definition ExploreConfig :: "(Config \<Rightarrow> string option) \<Rightarrow> string option" where
  "ExploreConfig marshal = marshal (zeroConfig\<lparr>Kafka := Some (zeroKafka\<lparr>k_Brokers := [[]]\<rparr>), Paths := [zeroPath]\<rparr>)"

record main_flags =
  mf_pProf :: bool
  mf_versionOnly :: bool
  mf_expConfig :: bool
  mf_configFiles :: "string list"
  mf_configFileList :: string
  mf_dial :: dial_flags

text \<open>What the program does, in order.\<close>

datatype main_act =
    PProfServer
  | PromServer exporter
  | Version
  | Explored "string option"
  | Serve server_creds dialoutServerT
  | ConsumeGroup bool
  | ConfigError
  | Workers JWorkers sends
  | AllDone

record main_host =
  mh_dial :: dial_host
  mh_env :: env
  mh_marshal :: "Config \<Rightarrow> string option"
  mh_kafkaGroup :: bool
  mh_readable :: "string \<Rightarrow> bool"

definition promInit :: exporter where
  "promInit = newJTIMONPExporter"

definition dialOutPart :: "main_host \<Rightarrow> main_flags \<Rightarrow> Flags \<Rightarrow> main_act list go" where
  "dialOutPart h mf fl =
     (if \<not> f_dialOut fl then Inr []
      else if f_terminator fl then bindR (startDialOutServer (mh_dial h) fl (mf_dial mf)) (\<lambda>(c, s). Inr [Serve c s])
      else Inr [ConsumeGroup (mh_kafkaGroup h)])"

definition workersPart :: "main_host \<Rightarrow> main_flags \<Rightarrow> Flags \<Rightarrow> main_act list" where
  "workersPart h mf fl =
     (if f_terminator fl then [AllDone]
      else
        case GetConfigFiles (mh_env h) (mf_configFiles mf) (mf_configFileList mf) of
          None \<Rightarrow> [ConfigError]
        | Some files \<Rightarrow>
            (case StartWorkers fl (mh_readable h) (NewJWorkers files (mf_configFileList mf)) of
               (ws, out) \<Rightarrow> [Workers ws out, AllDone]))"

definition mainProgram :: "main_host \<Rightarrow> main_flags \<Rightarrow> Flags \<Rightarrow> main_act list go" where
  "mainProgram h mf fl =
     (let start = (if mf_pProf mf then [PProfServer] else []) @ (if f_prom fl then [PromServer promInit] else []) @ [Version]
      in if mf_versionOnly mf then Inr start
         else if mf_expConfig mf then Inr (start @ [Explored (ExploreConfig (mh_marshal h))])
         else bindR (dialOutPart h mf fl) (\<lambda>d. Inr (start @ d @ workersPart h mf fl)))"


section \<open>Lemmas\<close>

text \<open>The manager's view of the workers.\<close>

definition mview :: "JWorkers \<Rightarrow> mstate" where
  "mview ws = \<lparr>ms_m = files_of ws, ms_live = files_of ws, ms_status = [], ms_wg = int (ws_wg ws), ms_ops = [], ms_stopped = False\<rparr>"

lemma StartWorkers_mview:
  assumes "distinct files"
  shows "mview (fst (StartWorkers fl ok (NewJWorkers files fileList))) = mstart {f \<in> set files. ok f}"
proof -
  have "{f \<in> set files. ok f} = set (filter ok files)" by auto
  hence "card {f \<in> set files. ok f} = length (filter ok files)" using assms by (simp only: distinct_card distinct_filter)
  thus ?thesis
    using AddWorkers_files[of ok "NewJWorkers files fileList" files]
    by (simp add: StartWorkers_def mview_def mstart_def NewJWorkers_def Let_def)
qed

lemma serverCreds_iff:
  "serverCreds h fl f = Inr c \<longleftrightarrow>
     (if f_skipVerify fl then c = NoCreds
      else \<exists>cert key bs. c = ClientCerts cert key bs \<and> df_myCert f \<noteq> [] \<and> df_myKey f \<noteq> [] \<and> dh_abs h (df_myCert f) = Some cert \<and>
        dh_abs h (df_myKey f) = Some key \<and> dh_keyPair h cert key \<and> dh_readFile h (df_myCACert f) = Some bs \<and> dh_isPEM h bs)"
  by (auto simp: serverCreds_def orFatal_def bindR_Inr_iff split: option.splits)

lemma startConsumers_all:
  "list_all (\<lambda>p. off p \<noteq> None) ps \<Longrightarrow> ps \<noteq> [] \<Longrightarrow>
   startConsumers off ps = (map (\<lambda>p. (p, the (off p))) (butlast ps), Some (last ps, the (off (last ps))))"
  by (induction ps) (auto split: option.splits)

text \<open>
  A consumer that ends makes the loop start all of them again: after \<open>n\<close> rounds each partition but the last has \<open>n\<close>
  consumers, which all deliver its configurations from the oldest on.
\<close>

lemma populate_multiplies:
  assumes "ps \<noteq> []" "list_all (\<lambda>p. off p \<noteq> None) ps"
  shows "populateAllConfig (replicate n \<lparr>pr_partitions = Some ps, pr_offset = off\<rparr>) =
    (concat (replicate n (map (\<lambda>p. (p, the (off p))) (butlast ps))), replicate n (last ps, the (off (last ps))))"
  by (induction n) (simp_all add: startConsumers_all[OF assms(2,1)])

text \<open>A signal sent before the handler runs is lost.\<close>

lemma EndWorkers_lost: "EndWorkers st = Some st' \<Longrightarrow> sg_chan (signalHandler_start st') = []"
  by (simp add: signalHandler_start_def)

lemma consumerSessions_last:
  assumes "consumerSessions ce um cfgOf h (ss @ [msgs]) = Inr (h', ms)"
  shows "\<exists>ms1. ConsumeClaim ce um cfgOf Setup msgs = Inr (h', ms1)"
  using assms by (induction ss arbitrary: h ms) (fastforce simp: bindR_Inr_iff)+

fun isWorkers :: "main_act \<Rightarrow> bool" where
  "isWorkers (Workers ws out) = True"
| "isWorkers _ = False"

lemma mainProgram_shape:
  assumes "\<not> mf_versionOnly mf" "\<not> mf_expConfig mf" "mainProgram h mf fl = Inr acts"
  shows "\<exists>pre. filter isWorkers pre = [] \<and> acts = pre @ workersPart h mf fl"
proof -
  obtain d where d: "dialOutPart h mf fl = Inr d"
    and acts: "acts = ((if mf_pProf mf then [PProfServer] else []) @ (if f_prom fl then [PromServer promInit] else []) @ [Version] @ d) @
      workersPart h mf fl"
    using assms by (auto simp: mainProgram_def Let_def bindR_Inr_iff)
  have "filter isWorkers d = []" using d by (auto simp: dialOutPart_def bindR_Inr_iff split: if_splits prod.splits)
  with acts show ?thesis by auto
qed

text \<open>Without a synchronisation response in the session, no context of the session has seen one.\<close>

definition unsynced :: "gnmiConsumerGroupHandler \<Rightarrow> bool" where
  "unsynced h \<longleftrightarrow> (\<forall>db j. mget h db = Some j \<longrightarrow> \<not> receivedSyncRsp j)"

lemma handleRsps_unsynced:
  "handleRsps ce j rsps = Inr (j', ms) \<Longrightarrow> list_all (\<lambda>r. \<not> r_SyncResponse r) rsps \<Longrightarrow> \<not> receivedSyncRsp j \<Longrightarrow> \<not> receivedSyncRsp j'"
proof (induction rsps arbitrary: j ms)
  case (Cons r rs)
  then show ?case unfolding handleRsps_Cons_iff using gnmiHandle_frame by fastforce
qed simp

lemma influxInit_unsynced: "influxInit e j = Inr j' \<Longrightarrow> receivedSyncRsp j' = receivedSyncRsp j"
  by (auto simp: influxInit_def bindR_Inr_iff upd_defs Let_def dbBatchWrite_def dbBatchWriteM_def pointAcculumator_def
      split: if_splits)

lemma claimMsg_unsynced:
  assumes "claimMsg ce um cfgOf h msg = Inr (h', ms)" "unsynced h" "list_all (\<lambda>r. \<not> r_SyncResponse r) (snd (um msg))"
  shows "unsynced h'"
proof -
  let ?cfg = "cfgOf (fst (um msg))"
  obtain j j' where j: "dbContext ce h ?cfg = Inr j" "handleRsps ce j (snd (um msg)) = Inr (j', ms)"
    and h': "h' = mput h (i_Dbname (Influx ?cfg)) j'"
    using assms(1) by (auto simp: claimMsg_def bindR_Inr_iff Let_def split: prod.splits)
  have "\<not> receivedSyncRsp j"
    using j(1) assms(2) by (auto simp: dbContext_def unsynced_def zeroJCtx_def dest!: influxInit_unsynced split: option.splits)
  from handleRsps_unsynced[OF j(2) assms(3) this] assms(2) show ?thesis unfolding h' unsynced_def by auto
qed

lemma ConsumeClaim_unsynced:
  "ConsumeClaim ce um cfgOf h msgs = Inr (h', ms) \<Longrightarrow> unsynced h \<Longrightarrow>
   list_all (\<lambda>m. list_all (\<lambda>r. \<not> r_SyncResponse r) (snd (um m))) msgs \<Longrightarrow> unsynced h'"
proof (induction msgs arbitrary: h ms)
  case (Cons m msgs)
  then show ?case using claimMsg_unsynced by (fastforce simp: bindR_Inr_iff)
qed simp


section \<open>Properties\<close>


definition ex_host :: main_host where
  "ex_host = \<lparr>mh_dial = \<lparr>dh_listen = \<lambda>_. True, dh_abs = Some, dh_keyPair = \<lambda>_ _. True, dh_readFile = \<lambda>_. Some ''pem'',
       dh_isPEM = \<lambda>_. True, dh_kafkaClient = True, dh_kafkaConsumer = True, dh_kafkaProducer = True\<rparr>,
     mh_env = ex_env ex_cfg, mh_marshal = \<lambda>_. None, mh_kafkaGroup = True, mh_readable = \<lambda>f. f \<noteq> ''bad''\<rparr>"

definition ex_flags :: main_flags where
  "ex_flags = \<lparr>mf_pProf = False, mf_versionOnly = False, mf_expConfig = False, mf_configFiles = [''a'', ''bad'', ''b''],
     mf_configFileList = [], mf_dial = \<lparr>df_port = 32767, df_myCACert = ''ca'', df_myCert = ''cert'', df_myKey = ''key''\<rparr>\<rparr>"


text \<open>
  The dial-out server asks its clients for certificates: when it starts and verification is not switched off, it has a key
  pair and a pool of certificates from a readable PEM file, and requires a client certificate that the pool verifies.
\<close>

theorem dialout_requires_certs:
  assumes "startDialOutServer h fl f = Inr (c, s)"
  shows "server_wf s \<and> (f_skipVerify fl \<longleftrightarrow> c = NoCreds) \<and>
    (\<not> f_skipVerify fl \<longrightarrow> (\<exists>cert key bs. c = ClientCerts cert key bs \<and> dh_keyPair h cert key \<and>
      dh_readFile h (df_myCACert f) = Some bs \<and> dh_isPEM h bs))"
  using assms server_wf_new
  by (auto simp: startDialOutServer_def bindR_Inr_iff serverCreds_iff split: if_splits)

theorem dialout_requires_certs_witness:
  "\<exists>s. startDialOutServer (mh_dial ex_host) zeroFlags (mf_dial ex_flags) = Inr (ClientCerts ''cert'' ''key'' ''pem'', s) \<and> server_wf s"
proof -
  have "startDialOutServer (mh_dial ex_host) zeroFlags (mf_dial ex_flags) =
      Inr (ClientCerts ''cert'' ''key'' ''pem'', newDialOutServer [SUBSCRIBER_DIALOUTSUBSCRIBER])"
    by (simp add: startDialOutServer_def serverCreds_def orFatal_def ex_host_def ex_flags_def zeroFlags_def)
  with dialout_requires_certs[OF this] show ?thesis by blast
qed

text \<open>
  C38. A rebalancing of the consumer group forgets the synchronisation of the devices: whatever the sessions before it have
  received, in a session without a synchronisation response no database context has received one, so that the consumer is in
  the state in which it drops responses as initial synchronisation, although the devices send the synchronisation response
  only once.
\<close>

theorem rebalance_forgets_sync:
  assumes "consumerSessions ce um cfgOf h (ss @ [msgs]) = Inr (h', ms)"
    and "list_all (\<lambda>m. list_all (\<lambda>r. \<not> r_SyncResponse r) (snd (um m))) msgs" and "mget h' db = Some j"
  shows "\<not> receivedSyncRsp j"
proof -
  obtain ms1 where "ConsumeClaim ce um cfgOf Setup msgs = Inr (h', ms1)" using consumerSessions_last[OF assms(1)] by blast
  from ConsumeClaim_unsynced[OF this _ assms(2)] assms(3) show ?thesis by (auto simp: unsynced_def Setup_def)
qed

definition ex_session :: "bool \<Rightarrow> string \<times> SubscribeResponse list" where
  "ex_session sync = (''ctx'', if sync then [ex_sync] else [])"

lemma ex_sessions:
  "consumerSessions ex_consumer ex_session ex_dbcfg [] [[True]] =
     Inr ([(''ctx'', zeroJCtx\<lparr>config := ex_dbcfg ''ctx'', influxCtx := zeroInfluxCtx\<lparr>reCompiled := True\<rparr>, receivedSyncRsp := True\<rparr>)], [])"
  "\<exists>j. consumerSessions ex_consumer ex_session ex_dbcfg [] ([[True]] @ [[False]]) = Inr ([(''ctx'', j)], [])"
  by (simp_all add: claimMsg_def dbContext_def Setup_def ex_influxInit gnmiHandleResponse_def ex_sync_def ex_consumer_def ex_session_def
      updateStats_def mget_def mput_def ex_dbcfg_def zero_defs influxInit_def getInfluxClient_def upd_influx_def)

theorem rebalance_forgets_sync_witness:
  "\<exists>h j j'. consumerSessions ex_consumer ex_session ex_dbcfg [] [[True]] = Inr (h, []) \<and> mget h ''ctx'' = Some j \<and> receivedSyncRsp j \<and>
     consumerSessions ex_consumer ex_session ex_dbcfg [] ([[True]] @ [[False]]) = Inr ([(''ctx'', j')], []) \<and> \<not> receivedSyncRsp j'"
proof -
  obtain j' where j': "consumerSessions ex_consumer ex_session ex_dbcfg [] ([[True]] @ [[False]]) = Inr ([(''ctx'', j')], [])"
    using ex_sessions(2) by blast
  have "\<not> receivedSyncRsp j'"
    by (rule rebalance_forgets_sync[OF j', where db = "''ctx''"]) (simp_all add: ex_session_def mget_def)
  with ex_sessions(1) j' show ?thesis by (auto simp: mget_def)
qed

end
