(* ===== verification/TestData.thy ===== *)
theory TestData
  imports Context
begin

text \<open>
  The test data of testutils.go: the files that a run with \<open>--generate-test-data\<close> writes, the points that are written for
  comparison, and \<open>compareString\<close>. A file is its name and its contents on a \<open>disk\<close>; a handle that is not nil is the name
  of the file it was created for, and whether a file can be created is a parameter. The verb \<open>%s\<close> of package \<open>fmt\<close> is
  \<open>fmt_s\<close>; the text of an \<open>Any\<close> message comes from the protobuf runtime and is a parameter too.
\<close>

section \<open>The verbs of fmt\<close>

text \<open>
  \<open>%v\<close> of a floating point number: the shortest digits, with an exponent when the leading digit is below the fourth place
  after the point or beyond the sixth before it.
\<close>

definition dropZeros :: "string \<Rightarrow> string" where
  "dropZeros s = rev (dropWhile (\<lambda>c. c = CHR ''0'') (rev s))"

definition exponentText :: "int \<Rightarrow> string" where
  "exponentText e = ''e'' @ (if e < 0 then ''-'' else ''+'') @ (if \<bar>e\<bar> < 10 then ''0'' else '''') @ show_pos \<bar>e\<bar>"

definition f64_v :: "f64 \<Rightarrow> string" where
  "f64_v w =
     (if f64_is_nan w \<or> w = f64_PosInf \<or> w = f64_NegInf \<or> f64_num w = 0 then f64_shortest w
      else
        case short_search 17 w (dec_exp 800 0 (f64_num w) (f64_den w)) of
          (c, s) \<Rightarrow>
            let ds = show_pos c; e = int (length ds) - 1 + s; m = dropZeros ds
            in if e < - 4 \<or> 6 \<le> e then
                 (if f64_neg w then ''-'' else '''') @ [hd m] @ (if tl m = [] then '''' else ''.'' @ tl m) @ exponentText e
               else f64_shortest w)"

text \<open>A verb that does not fit prints the type and the value.\<close>

definition badVerb :: "string \<Rightarrow> string \<Rightarrow> string" where
  "badVerb ty v = ''%!s('' @ ty @ ''='' @ v @ '')''"

definition bytesText :: "bytes \<Rightarrow> string" where
  "bytesText b = map (\<lambda>w. char_of (unat w)) b"

definition sliceText :: "string list \<Rightarrow> string" where
  "sliceText xs = ''['' @ go_join xs '' '' @ '']''"

fun fmt_s :: "(any_msg \<Rightarrow> string) \<Rightarrow> gval \<Rightarrow> string" where
  "fmt_s anyText VNil = ''%!s(<nil>)''"
| "fmt_s anyText (VString s) = s"
| "fmt_s anyText (VInt32 v) = badVerb ''int32'' (show_int (sint v))"
| "fmt_s anyText (VInt64 v) = badVerb ''int64'' (show_int (sint v))"
| "fmt_s anyText (VUint32 v) = badVerb ''uint32'' (show_int (uint v))"
| "fmt_s anyText (VUint64 v) = badVerb ''uint64'' (show_int (uint v))"
| "fmt_s anyText (VFloat64 v) = badVerb ''float64'' (f64_v v)"
| "fmt_s anyText (VBool v) = badVerb ''bool'' (show_bool v)"
| "fmt_s anyText (VBytes b) = bytesText b"
| "fmt_s anyText (VAny a) = anyText a"
| "fmt_s anyText (VInts vs) = sliceText (map (\<lambda>v. badVerb ''int64'' (show_int (sint v))) vs)"
| "fmt_s anyText (VFloats vs) = sliceText (map (\<lambda>v. badVerb ''float64'' (f64_v v)) vs)"
| "fmt_s anyText (VBools vs) = sliceText (map (\<lambda>v. badVerb ''bool'' (show_bool v)) vs)"
| "fmt_s anyText (VStrings vs) = sliceText vs"
| "fmt_s anyText (VBytess vs) = sliceText (map bytesText vs)"


section \<open>Files\<close>

type_synonym disk = "(string, string) gomap"

definition appendFile :: "disk \<Rightarrow> string option \<Rightarrow> string \<Rightarrow> disk" where
  "appendFile d h s =
     (case h of
        None \<Rightarrow> d
      | Some f \<Rightarrow> mput d f ((case mget d f of None \<Rightarrow> [] | Some c \<Rightarrow> c) @ s))"

record test_files =
  testMeta :: "string option"
  testBytes :: "string option"
  testExp :: "string option"
  testRes :: "string option"

definition noTestFiles :: test_files where
  "noTestFiles = \<lparr>testMeta = None, testBytes = None, testExp = None, testRes = None\<rparr>"

text \<open>
  \<open>testSetup\<close> returns at the first file that cannot be created; the handle of that file is nil and the ones before it stay
  open. The boolean is whether it succeeds.
\<close>

definition testSetup :: "(string \<Rightarrow> bool) \<Rightarrow> bool \<Rightarrow> string \<Rightarrow> test_files \<Rightarrow> disk \<Rightarrow> bool \<times> test_files \<times> disk" where
  "testSetup creatable genTestData file tf d =
     (if \<not> genTestData then (True, tf, d)
      else if \<not> creatable (file @ ''.testmeta'') then (False, tf\<lparr>testMeta := None\<rparr>, d)
      else
        let tf1 = tf\<lparr>testMeta := Some (file @ ''.testmeta'')\<rparr>; d1 = mput d (file @ ''.testmeta'') []
        in if \<not> creatable (file @ ''.testbytes'') then (False, tf1\<lparr>testBytes := None\<rparr>, d1)
           else
             let tf2 = tf1\<lparr>testBytes := Some (file @ ''.testbytes'')\<rparr>; d2 = mput d1 (file @ ''.testbytes'') []
             in if \<not> creatable (file @ ''.testexp'') then (False, tf2\<lparr>testExp := None\<rparr>, d2)
                else (True, tf2\<lparr>testExp := Some (file @ ''.testexp'')\<rparr>, mput d2 (file @ ''.testexp'') []))"

definition testTearDown :: "bool \<Rightarrow> test_files \<Rightarrow> test_files" where
  "testTearDown genTestData tf =
     (if genTestData then tf\<lparr>testMeta := None, testBytes := None, testExp := None\<rparr> else tf)"

definition generateTestData :: "test_files \<Rightarrow> string \<Rightarrow> disk \<Rightarrow> disk" where
  "generateTestData tf data d =
     appendFile (appendFile d (testMeta tf) (show_int (int (length data)) @ '':'')) (testBytes tf) data"


section \<open>Points\<close>

datatype testDataType = GENTESTEXPDATA | GENTESTRESDATA | OtherTestData

definition sortedKeys :: "(string, 'v) gomap \<Rightarrow> string list" where
  "sortedKeys m = sort (map fst m)"

definition fieldKeys :: "(string, gval) gomap \<Rightarrow> string list" where
  "fieldKeys flds = sort (filter (\<lambda>k. k \<noteq> gDeviceTs) (map fst flds))"

definition fieldOf :: "(string, gval) gomap \<Rightarrow> string \<Rightarrow> gval" where
  "fieldOf m k = (case mget m k of None \<Rightarrow> VNil | Some v \<Rightarrow> v)"

definition tagOf :: "(string, string) gomap \<Rightarrow> string \<Rightarrow> string" where
  "tagOf m k = (case mget m k of None \<Rightarrow> [] | Some v \<Rightarrow> v)"

definition pointText :: "(any_msg \<Rightarrow> string) \<Rightarrow> (string, string) gomap \<Rightarrow> (string, gval) gomap \<Rightarrow> string" where
  "pointText anyText tags flds =
     ''TAGS: ['' @ concat (map (\<lambda>k. '' '' @ k @ ''='' @ tagOf tags k @ '' '') (sortedKeys tags)) @ '']'' @ [CHR 0x0A] @
     ''FIELDS: ['' @ concat (map (\<lambda>k. k @ ''='' @ fmt_s anyText (fieldOf flds k)) (fieldKeys flds)) @ '']'' @ [CHR 0x0A]"

definition testDataPoints ::
  "(any_msg \<Rightarrow> string) \<Rightarrow> test_files \<Rightarrow> testDataType \<Rightarrow> (string, string) gomap \<Rightarrow> (string, gval) gomap \<Rightarrow> disk \<Rightarrow> disk" where
  "testDataPoints anyText tf testType tags flds d =
     (case testType of
        GENTESTEXPDATA \<Rightarrow> appendFile d (testExp tf) (pointText anyText tags flds)
      | GENTESTRESDATA \<Rightarrow> appendFile d (testRes tf) (pointText anyText tags flds)
      | OtherTestData \<Rightarrow> d)"

definition compareString :: "string \<Rightarrow> string \<Rightarrow> bool" where
  "compareString a b \<longleftrightarrow> filter (\<lambda>c. \<not> is_space c) a = filter (\<lambda>c. \<not> is_space c) b"


section \<open>Reading the files back\<close>

text \<open>
  The loop of the tests over a pair of files: the sizes are between the colons, and each size takes as many bytes as it says.
  A size that is not a number, or more than the file has, fails the test.
\<close>

fun readSizes :: "string list \<Rightarrow> string \<Rightarrow> string list option" where
  "readSizes [] data = Some []"
| "readSizes (s # ss) data =
     (if s = [] then readSizes ss data
      else if list_all is_digit s \<and> nat (read_digits s) \<le> length data then
        map_option ((#) (take (nat (read_digits s)) data)) (readSizes ss (drop (nat (read_digits s)) data))
      else None)"

definition readTestData :: "string \<Rightarrow> string \<Rightarrow> string list option" where
  "readTestData meta data = readSizes (go_split meta '':'') data"


section \<open>Lemmas\<close>

definition fileText :: "disk \<Rightarrow> string \<Rightarrow> string" where
  "fileText d f = (case mget d f of None \<Rightarrow> [] | Some c \<Rightarrow> c)"

lemma fileText_append: "fileText (appendFile d (Some f) s) g = (if g = f then fileText d f @ s else fileText d g)"
  by (simp add: fileText_def appendFile_def)

lemma fileText_none [simp]: "fileText (appendFile d None s) g = fileText d g"
  by (simp add: appendFile_def)

lemma dec_char_is_digit: "dec_char c = is_digit c"
  by (simp add: dec_char_def is_digit_def less_eq_char_def)

lemma size_text: "list_all is_digit (show_int (int n))" "read_digits (show_int (int n)) = int n" "show_int (int n) \<noteq> []"
  "CHR '':'' \<notin> set (show_int (int n))"
proof -
  show d: "list_all is_digit (show_int (int n))"
    using dec_char_show_pos[of "int n"] by (simp add: show_int_def list_all_iff dec_char_is_digit)
  show "read_digits (show_int (int n)) = int n" by (simp add: show_int_def read_show_pos)
  show "show_int (int n) \<noteq> []" by (simp add: show_int_def)
  have "\<not> is_digit CHR '':''" by (simp add: is_digit_def less_eq_char_def)
  with d show "CHR '':'' \<notin> set (show_int (int n))" by (auto simp: list_all_iff)
qed

definition metaText :: "string list \<Rightarrow> string" where
  "metaText ps = concat (map (\<lambda>p. show_int (int (length p)) @ '':'') ps)"

lemma generate_all:
  assumes "testMeta tf = Some m" "testBytes tf = Some b" "m \<noteq> b"
  shows "fileText (foldl (\<lambda>d p. generateTestData tf p d) d ps) m = fileText d m @ metaText ps \<and>
    fileText (foldl (\<lambda>d p. generateTestData tf p d) d ps) b = fileText d b @ concat ps"
  by (induction ps arbitrary: d)
    (use assms in \<open>simp_all add: metaText_def generateTestData_def fileText_append\<close>)

lemma readSizes_meta:
  "readSizes (go_split (metaText ps) '':'') (concat ps) = Some ps"
proof (induction ps)
  case (Cons p ps)
  have "go_split (metaText (p # ps)) '':'' = show_int (int (length p)) # go_split (metaText ps) '':''"
    using go_split_char[of "CHR '':''" "show_int (int (length p))" "metaText ps"] size_text(4)[of "length p"]
    by (simp add: metaText_def)
  with Cons size_text[of "length p"] show ?case by (simp add: metaText_def)
qed (simp add: metaText_def go_split_def)

text \<open>Two association lists of one map have the same sorted keys.\<close>

lemma same_keys:
  assumes "mwf m" "mwf m'" "mget m = mget m'"
  shows "sort (map fst m) = sort (map fst m')"
proof -
  have "set (map fst m) = set (map fst m')"
    using mget_dom[of m] mget_dom[of m'] assms(3) unfolding set_map set_eq_iff by metis
  thus ?thesis using assms by (intro sorted_distinct_set_unique) (simp_all add: mwf_def)
qed

lemma same_fieldKeys: "mwf m \<Longrightarrow> mwf m' \<Longrightarrow> mget m = mget m' \<Longrightarrow> fieldKeys m = fieldKeys m'"
  using same_keys[of m m'] by (simp add: fieldKeys_def filter_sort[symmetric])

lemma same_map_points:
  assumes "mwf tags" "mwf tags'" "mget tags = mget tags'" "mwf flds" "mwf flds'" "mget flds = mget flds'"
  shows "pointText anyText tags flds = pointText anyText tags' flds'"
  using same_keys[OF assms(1-3)] same_fieldKeys[OF assms(4-6)] assms(3,6)
  by (simp add: pointText_def sortedKeys_def tagOf_def fieldOf_def)


section \<open>Properties\<close>

text \<open>
  C27. The packets of a run with test data can be read back: after a successful \<open>testSetup\<close>, the loop of the tests over the
  two files gives exactly the packets that were passed to \<open>generateTestData\<close>, in order, also empty ones and ones that contain
  the separator.
\<close>

theorem testData_roundtrip:
  assumes "testSetup creatable True file noTestFiles d = (True, tf, d0)"
    and "d1 = foldl (\<lambda>d p. generateTestData tf p d) d0 packets"
  shows "readTestData (fileText d1 (file @ ''.testmeta'')) (fileText d1 (file @ ''.testbytes'')) = Some packets"
proof -
  have tf: "testMeta tf = Some (file @ ''.testmeta'')" "testBytes tf = Some (file @ ''.testbytes'')"
    "fileText d0 (file @ ''.testmeta'') = []" "fileText d0 (file @ ''.testbytes'') = []"
    using assms(1) by (auto simp: testSetup_def Let_def fileText_def split: if_splits)
  show ?thesis
    using generate_all[OF tf(1,2), of d0 packets] tf(3,4) readSizes_meta[of packets] assms(2) by (simp add: readTestData_def)
qed

theorem testData_roundtrip_witness:
  "readTestData ''3:0:2:'' ''a:b:c'' = Some [''a:b'', '''', '':c''] \<and>
   (\<exists>tf d0. testSetup (\<lambda>f. True) True ''x'' noTestFiles [] = (True, tf, d0) \<and>
     fileText (foldl (\<lambda>d p. generateTestData tf p d) d0 [''a:b'', '''', '':c'']) ''x.testmeta'' = ''3:0:2:'')"
proof -
  define tf where "tf = noTestFiles\<lparr>testMeta := Some ''x.testmeta'', testBytes := Some ''x.testbytes'', testExp := Some ''x.testexp''\<rparr>"
  define d0 :: disk where "d0 = mput (mput (mput [] ''x.testmeta'' []) ''x.testbytes'' []) ''x.testexp'' []"
  have st: "testSetup (\<lambda>f. True) True ''x'' noTestFiles [] = (True, tf, d0)"
    by (simp add: testSetup_def Let_def tf_def d0_def)
  have d: "show_pos 3 = ''3''" "show_pos 0 = ''0''" "show_pos 2 = ''2''" by code_simp+
  have f: "fileText (foldl (\<lambda>d p. generateTestData tf p d) d0 [''a:b'', '''', '':c'']) ''x.testmeta'' = ''3:0:2:''"
    "fileText (foldl (\<lambda>d p. generateTestData tf p d) d0 [''a:b'', '''', '':c'']) ''x.testbytes'' = ''a:b:c''"
    using d by (simp_all add: generateTestData_def tf_def d0_def fileText_def appendFile_def show_int_def)
  show ?thesis using testData_roundtrip[OF st refl, of "[''a:b'', '''', '':c'']"] st f by auto
qed

text \<open>
  The points written for comparison do not depend on the order in which Go iterates over the maps of tags and fields: two
  runs with the same maps write the same text, whichever order the maps have.
\<close>

theorem testDataPoints_order:
  assumes "mwf tags" "mwf tags'" "mget tags = mget tags'" "mwf flds" "mwf flds'" "mget flds = mget flds'"
  shows "testDataPoints anyText tf t tags flds d = testDataPoints anyText tf t tags' flds' d"
  using same_map_points[OF assms] by (simp add: testDataPoints_def split: testDataType.split)

theorem testDataPoints_order_witness:
  "fileText (testDataPoints (\<lambda>a. '''') (noTestFiles\<lparr>testRes := Some ''r''\<rparr>) GENTESTRESDATA [(''b'', ''1''), (''a'', ''2'')]
     [(''f'', VBool True), (gDeviceTs, VInt64 7)] []) ''r'' =
   ''TAGS: [ a=2  b=1 ]'' @ [CHR 0x0A] @ ''FIELDS: [f=%!s(bool=true)]'' @ [CHR 0x0A] \<and>
   testDataPoints (\<lambda>a. '''') (noTestFiles\<lparr>testRes := Some ''r''\<rparr>) GENTESTRESDATA [(''b'', ''1''), (''a'', ''2'')] [] [] =
   testDataPoints (\<lambda>a. '''') (noTestFiles\<lparr>testRes := Some ''r''\<rparr>) GENTESTRESDATA [(''a'', ''2''), (''b'', ''1'')] [] []"
proof
  show "testDataPoints (\<lambda>a. '''') (noTestFiles\<lparr>testRes := Some ''r''\<rparr>) GENTESTRESDATA [(''b'', ''1''), (''a'', ''2'')] [] [] =
   testDataPoints (\<lambda>a. '''') (noTestFiles\<lparr>testRes := Some ''r''\<rparr>) GENTESTRESDATA [(''a'', ''2''), (''b'', ''1'')] [] []"
    by (rule testDataPoints_order) (auto simp: mwf_def mget_def)
qed code_simp

lemma f64_v_golden: "f64_v (f64_of_int 4294967295) = ''4.294967295e+09'' \<and> f64_v (f64_of_int 100500) = ''100500''"
  by code_simp

end
