(* ===== verification/CiscoXR.thy ===== *)
theory CiscoXR
  imports Junos TestData
begin

text \<open>
  Cisco IOS XR telemetry: subscribe_cisco_iosxr.go. A message is a forest of named fields; the schema says which fields
  are keys. \<open>walk\<close> makes one metric for every leaf and hands it to the accumulator.

  A field with no sub-fields is a leaf. The arrays behind the slices \<open>p\<close> and \<open>tags\<close> of \<open>walk\<close> are only
  overwritten where the result does not depend on it, except for the encoding path of a message: \<open>getParentPath\<close> removes
  the name spaces in place, and the path is used again for the next field of the message. This is the argument
  \<open>touches\<close> below. The file system is given by \<open>stat\<close> (\<^term>\<open>None\<close> when a file is missing, the JSON files of a
  directory, or a plain file) and \<open>load\<close> (the decoded nodes of a file).
\<close>

section \<open>Schema\<close>

datatype schemaNode = SchemaNode (sn_Name: string) (sn_Key: bool) (sn_Kids: "schemaNode list")

type_synonym schema = "schemaNode list list"

definition showNode :: "schemaNode \<Rightarrow> string" where
  "showNode n = (if sn_Key n then sn_Name n @ ''[key]'' else sn_Name n)"

fun swalk :: "schemaNode \<Rightarrow> string \<Rightarrow> string" where
  "swalk (SchemaNode name key kids) indent =
     indent @ showNode (SchemaNode name key kids) @ [CHR 0x0A] @ concat (map (\<lambda>k. swalk k (indent @ ''    '')) kids)"

definition showSchema :: "schema \<Rightarrow> string" where
  "showSchema s = concat (map (\<lambda>nodes. concat (map (\<lambda>n. swalk n []) nodes)) s)"

datatype file_kind = Dir "string list" | Plain

definition getXRSchemaPaths :: "string option \<Rightarrow> JCtx \<Rightarrow> string list option" where
  "getXRSchemaPaths envPath jctx =
     (let paths = v_Schema (Vendor (config jctx))
      in if list_ex (\<lambda>p. p = []) paths then None
         else Some (paths @ (case envPath of Some p \<Rightarrow> [p] | None \<Rightarrow> [])))"

fun loadAll :: "(string \<Rightarrow> schemaNode list option) \<Rightarrow> string list \<Rightarrow> schema option" where
  "loadAll load [] = Some []"
| "loadAll load (f # fs) =
     (case load f of None \<Rightarrow> None | Some n \<Rightarrow> map_option (Cons n) (loadAll load fs))"

fun loadPaths :: "(string \<Rightarrow> file_kind option) \<Rightarrow> (string \<Rightarrow> schemaNode list option) \<Rightarrow> string list \<Rightarrow> schema option" where
  "loadPaths stat load [] = Some []"
| "loadPaths stat load (name # names) =
     (if name = [] then None
      else case stat name of
             None \<Rightarrow> None
           | Some k \<Rightarrow>
               (case loadAll load (case k of Dir files \<Rightarrow> files | Plain \<Rightarrow> [name]) of
                  None \<Rightarrow> None
                | Some ns \<Rightarrow> map_option (\<lambda>rest. ns @ rest) (loadPaths stat load names)))"

definition getXRSchema ::
  "string option \<Rightarrow> (string \<Rightarrow> file_kind option) \<Rightarrow> (string \<Rightarrow> schemaNode list option) \<Rightarrow> JCtx \<Rightarrow> schema option" where
  "getXRSchema envPath stat load jctx =
     (case getXRSchemaPaths envPath jctx of None \<Rightarrow> None | Some paths \<Rightarrow> loadPaths stat load paths)"

text \<open>The letters and digits are the ASCII ones; \<open>xform\<close> says whether the variable \<open>MV_CISCO_IOSXR_XFORM_PATH\<close> is set.\<close>

definition transformPath :: "bool \<Rightarrow> string \<Rightarrow> string" where
  "transformPath xform path =
     (if xform then ''hbot'' @ map (\<lambda>c. if is_letter c \<or> is_digit c then c else CHR ''_'') path else path)"


section \<open>Messages\<close>

datatype xr_value =
    XString string
  | XUint32 "32 word"
  | XUint64 "64 word"
  | XSint32 "32 word"
  | XSint64 "64 word"
  | XDouble f64
  | XFloat f32
  | XBool bool
  | XBytes bytes

datatype TelemetryField = TField (tf_Name: string) (tf_Value: "xr_value option") (tf_Fields: "TelemetryField list")

record Telemetry =
  te_EncodingPath :: string
  te_DataGpbkv :: "TelemetryField list"
  te_MsgTimestamp :: "64 word"

text \<open>The field named so, or else the last one; \<^term>\<open>None\<close> when there are none.\<close>

fun namedOrLast :: "string \<Rightarrow> TelemetryField list \<Rightarrow> TelemetryField option" where
  "namedOrLast name [] = None"
| "namedOrLast name [f] = Some f"
| "namedOrLast name (f # g # fs) = (if tf_Name f = name then Some f else namedOrLast name (g # fs))"

definition getKeysFromMessage :: "TelemetryField \<Rightarrow> TelemetryField option" where
  "getKeysFromMessage f = namedOrLast ''keys'' (tf_Fields f)"

definition getContentFromMessage :: "TelemetryField \<Rightarrow> TelemetryField option" where
  "getContentFromMessage f = namedOrLast ''content'' (tf_Fields f)"

definition show_bytes :: "bytes \<Rightarrow> string" where
  "show_bytes b = ''['' @ go_join (map (\<lambda>x. show_int (uint x)) b) '' '' @ '']''"

definition getFieldStringValue :: "TelemetryField \<Rightarrow> string" where
  "getFieldStringValue field =
     (case tf_Value field of
        Some (XString s) \<Rightarrow> s
      | Some (XUint32 u) \<Rightarrow> show_int (uint u)
      | Some (XUint64 u) \<Rightarrow> show_int (uint u)
      | Some (XSint32 i) \<Rightarrow> show_int (sint i)
      | Some (XSint64 i) \<Rightarrow> show_int (sint i)
      | Some (XDouble d) \<Rightarrow> f64_fixed 6 d
      | Some (XBool b) \<Rightarrow> (if b then ''true'' else ''false'')
      | Some (XBytes b) \<Rightarrow> show_bytes b
      | _ \<Rightarrow> [])"

definition getFieldValueInterface :: "TelemetryField \<Rightarrow> bool \<Rightarrow> gval" where
  "getFieldValueInterface field enableUint =
     (case tf_Value field of
        Some (XString s) \<Rightarrow> VString s
      | Some (XUint32 u) \<Rightarrow> VUint32 u
      | Some (XUint64 u) \<Rightarrow> (if enableUint then VUint64 u else VFloat64 (f64_of_int (uint u)))
      | Some (XSint32 i) \<Rightarrow> VInt32 i
      | Some (XSint64 i) \<Rightarrow> VInt64 i
      | Some (XDouble d) \<Rightarrow> VFloat64 d
      | Some (XBool b) \<Rightarrow> VBool b
      | Some (XBytes b) \<Rightarrow> VBytes b
      | _ \<Rightarrow> VString [])"

definition getKeyValue :: "TelemetryField option \<Rightarrow> string \<Rightarrow> string" where
  "getKeyValue keys name =
     (case keys of
        None \<Rightarrow> []
      | Some k \<Rightarrow> (case find (\<lambda>f. name = tf_Name f) (tf_Fields k) of None \<Rightarrow> [] | Some f \<Rightarrow> getFieldStringValue f))"


section \<open>The walk\<close>

type_synonym keyInfo = "string \<times> string"

definition stripNS :: "string \<Rightarrow> string" where
  "stripNS path = (let s = go_split path '':'' in if length s = 2 then s ! 1 else path)"

definition getParentPath :: "string list \<Rightarrow> bool \<Rightarrow> string" where
  "getParentPath p ns = ''/'' @ go_join (if ns then map stripNS p else p) ''/'' @ ''/''"

text \<open>The loop over the kids of the schema node, for one field: the tags and the matched node.\<close>

definition matchKid ::
  "bool \<Rightarrow> string list \<Rightarrow> keyInfo list \<Rightarrow> TelemetryField \<Rightarrow> keyInfo list \<times> schemaNode option \<Rightarrow> schemaNode \<Rightarrow>
   keyInfo list \<times> schemaNode option" where
  "matchKid ns p tags field st kid =
     (if tf_Name field = sn_Name kid then
        (if sn_Key kid then tags @ [(getParentPath p ns @ ''@'' @ tf_Name field, getFieldStringValue field)] else fst st,
         Some kid)
      else st)"

definition matchKids ::
  "bool \<Rightarrow> schemaNode option \<Rightarrow> string list \<Rightarrow> keyInfo list \<Rightarrow> TelemetryField \<Rightarrow> keyInfo list \<times> schemaNode option \<Rightarrow>
   keyInfo list \<times> schemaNode option" where
  "matchKids ns n p tags field st =
     (case n of None \<Rightarrow> st | Some node \<Rightarrow> foldl (matchKid ns p tags field) st (sn_Kids node))"

definition tagsMap :: "keyInfo list \<Rightarrow> (string, string) gomap" where
  "tagsMap tags = mputs [] tags"

definition leafMetric :: "Config \<Rightarrow> string list \<Rightarrow> keyInfo list \<Rightarrow> 64 word \<Rightarrow> TelemetryField \<Rightarrow> metricIDB" where
  "leafMetric cfg p tags ts field =
     newMetricIDB (tagsMap tags)
       [(getParentPath p (v_RemoveNS (Vendor cfg)) @ tf_Name field, getFieldValueInterface field (EnableUintSupport cfg))] ts"

text \<open>
  \<open>walk\<close>: the metrics in the order in which they go to the accumulator. The tags and the matched node are kept from one
  field to the next.
\<close>

function walkFields ::
  "Config \<Rightarrow> schemaNode option \<Rightarrow> string list \<Rightarrow> keyInfo list \<Rightarrow> 64 word \<Rightarrow> keyInfo list \<times> schemaNode option \<Rightarrow> TelemetryField list \<Rightarrow>
   metricIDB list" where
  "walkFields cfg n p tags ts st [] = []"
| "walkFields cfg n p tags ts st (TField name v subs # fs) =
     (let (newTags, matched) = matchKids (v_RemoveNS (Vendor cfg)) n p tags (TField name v subs) st;
          here = (if subs = [] then [leafMetric cfg p newTags ts (TField name v subs)]
                  else walkFields cfg matched (if name \<noteq> [] then p @ [name] else []) newTags ts (newTags, None) subs)
      in here @ walkFields cfg n p tags ts (newTags, matched) fs)"
  by pat_completeness auto
termination
  by (relation "measure (\<lambda>(_, _, _, _, _, _, fs). size_list size fs)") auto

definition walk ::
  "Config \<Rightarrow> schemaNode option \<Rightarrow> TelemetryField list \<Rightarrow> string list \<Rightarrow> keyInfo list \<Rightarrow> 64 word \<Rightarrow> metricIDB list" where
  "walk cfg n f p tags ts = walkFields cfg n p tags ts (tags, None) f"

text \<open>Whether a walk calls \<open>getParentPath\<close> with its own path: for a leaf, or for a field that is a key.\<close>

definition touches :: "schemaNode option \<Rightarrow> TelemetryField list \<Rightarrow> bool" where
  "touches n fs = list_ex (\<lambda>f. tf_Fields f = [] \<or>
     (case n of None \<Rightarrow> False | Some node \<Rightarrow> list_ex (\<lambda>kid. tf_Name f = sn_Name kid \<and> sn_Key kid) (sn_Kids node))) fs"

definition baseTags :: "JCtx \<Rightarrow> string \<Rightarrow> keyInfo list" where
  "baseTags jctx sensor = [(''device'', Host (config jctx)), (''sensor'', sensor), (''vendor'', ''cisco'')]"

definition processTopLevelMsg :: "JCtx \<Rightarrow> schemaNode \<Rightarrow> TelemetryField \<Rightarrow> 64 word \<Rightarrow> metricIDB list" where
  "processTopLevelMsg jctx node field ts =
     (case getContentFromMessage field of
        None \<Rightarrow> []
      | Some content \<Rightarrow> walk (config jctx) (Some node) (tf_Fields content) [sn_Name node] (baseTags jctx (sn_Name node)) ts)"

text \<open>The key of a matched node: itself, or the last of its kids that is a key.\<close>

definition matchedName :: "schemaNode \<Rightarrow> string" where
  "matchedName n =
     (if sn_Key n then sn_Name n
      else case rev (filter sn_Key (sn_Kids n)) of [] \<Rightarrow> [] | k # _ \<Rightarrow> sn_Name k)"

text \<open>The loop over the elements of the path after the first: the current node, whether any matched, and the tags.\<close>

fun tagsLoop ::
  "TelemetryField option \<Rightarrow> string list \<Rightarrow> nat \<Rightarrow> schemaNode \<times> bool \<times> keyInfo list \<Rightarrow> string list \<Rightarrow> schemaNode \<times> keyInfo list" where
  "tagsLoop keys ePath index (node, matched, tags) [] = (node, tags)"
| "tagsLoop keys ePath index (node, matched, tags) (el # els) =
     (case find (\<lambda>n. sn_Name n = el) (sn_Kids node) of
        None \<Rightarrow> if matched then tagsLoop keys ePath (Suc index) (node, matched, tags) els else (node, tags)
      | Some n \<Rightarrow>
          let name = matchedName n;
              tags' = (if name \<noteq> []
                       then tags @ [(''/'' @ go_join (take (index + 2) ePath) ''/'' @ ''/@'' @ name, getKeyValue keys name)] else tags)
          in tagsLoop keys ePath (Suc index) (n, True, tags') els)"

definition multiLevelMsgTags :: "JCtx \<Rightarrow> schemaNode \<Rightarrow> string list \<Rightarrow> TelemetryField \<Rightarrow> schemaNode \<times> keyInfo list" where
  "multiLevelMsgTags jctx node ePath m =
     tagsLoop (getKeysFromMessage m) ePath 0 (node, False, baseTags jctx (go_join ePath ''/'')) (tl ePath)"

text \<open>The metrics, and the path as the walks leave it.\<close>

fun processMultiLevelMsg :: "JCtx \<Rightarrow> schemaNode \<Rightarrow> string list \<Rightarrow> 64 word \<Rightarrow> TelemetryField list \<Rightarrow> metricIDB list \<times> string list" where
  "processMultiLevelMsg jctx node ePath ts [] = ([], ePath)"
| "processMultiLevelMsg jctx node ePath ts (m # ms) =
     (case getContentFromMessage m of
        None \<Rightarrow> processMultiLevelMsg jctx node ePath ts ms
      | Some content \<Rightarrow>
          let (matched, tags) = multiLevelMsgTags jctx node ePath m;
              here = walk (config jctx) (Some matched) (tf_Fields content) ePath tags ts;
              ePath' = (if v_RemoveNS (Vendor (config jctx)) \<and> touches (Some matched) (tf_Fields content) then map stripNS ePath else ePath);
              (rest, last) = processMultiLevelMsg jctx node ePath' ts ms
          in (here @ rest, last))"

text \<open>The two branches over the nodes of the schema; in the second the path changes as the nodes are gone through.\<close>

definition topLevel :: "JCtx \<Rightarrow> schema \<Rightarrow> string \<Rightarrow> Telemetry \<Rightarrow> metricIDB list" where
  "topLevel jctx sch el message =
     concat (map (\<lambda>node. if el = sn_Name node
       then concat (map (\<lambda>f. processTopLevelMsg jctx node f (te_MsgTimestamp message)) (te_DataGpbkv message)) else []) (concat sch))"

fun multiLevel :: "JCtx \<Rightarrow> Telemetry \<Rightarrow> string list \<Rightarrow> schemaNode list \<Rightarrow> metricIDB list" where
  "multiLevel jctx message ePath [] = []"
| "multiLevel jctx message ePath (node # nodes) =
     (if hd ePath = sn_Name node then
        let s = go_split (hd ePath) '':'';
            p = (if v_RemoveNS (Vendor (config jctx)) \<and> length s = 2 then s ! 1 # tl ePath else ePath);
            (ms, p') = processMultiLevelMsg jctx node p (te_MsgTimestamp message) (te_DataGpbkv message)
        in ms @ multiLevel jctx message p' nodes
      else multiLevel jctx message ePath nodes)"

definition handleMessage :: "JCtx \<Rightarrow> schema \<Rightarrow> Telemetry \<Rightarrow> metricIDB list" where
  "handleMessage jctx sch message =
     (if te_EncodingPath message = [] then []
      else
        let ePath = go_split (te_EncodingPath message) ''/''
        in if length ePath = 1 then topLevel jctx sch (hd ePath) message
           else multiLevel jctx message ePath (concat sch))"


section \<open>The subscription\<close>

text \<open>\<open>strconv.ParseInt(s, 10, 64)\<close>: the number, cut off at the ends of the range, and 0 for a text that is none.\<close>

definition parseInt64 :: "string \<Rightarrow> 64 word" where
  "parseInt64 s =
     (let neg = (case s of c # _ \<Rightarrow> c = CHR ''-'' | [] \<Rightarrow> False);
          ds = (case s of c # r \<Rightarrow> if c = CHR ''-'' \<or> c = CHR ''+'' then r else s | [] \<Rightarrow> [])
      in if ds = [] \<or> \<not> list_all is_digit ds then 0
         else
           let n = foldl (\<lambda>a c. 10 * a + (int (of_char c) - 48)) 0 ds;
               v = (if neg then - n else n)
           in word_of_int (max (- (2 ^ 63)) (min (2 ^ 63 - 1) v)))"

definition xrRequests :: "bool \<Rightarrow> JCtx \<Rightarrow> PathsConfig list \<Rightarrow> (64 word \<times> string) list" where
  "xrRequests xform jctx paths =
     map (\<lambda>(i, p). (parseInt64 (CID (config jctx)) + of_nat i, transformPath xform (p_Path p))) (List.enumerate 0 paths)"

text \<open>
  The events of the streams of all paths, in the order in which they come; a subscription that cannot be made is a failed
  receive. A message that cannot be decoded is skipped.
\<close>

fun xrReceive :: "('r \<Rightarrow> Telemetry option) \<Rightarrow> schema \<Rightarrow> JCtx \<Rightarrow> 'r stream_event list \<Rightarrow> SubErrorCode option \<times> JCtx" where
  "xrReceive um sch jctx [] = (None, jctx)"
| "xrReceive um sch jctx (e # es) =
     (case e of
        Control s \<Rightarrow> (Some (signalCode s), jctx)
      | EndOfStream \<Rightarrow> (Some SubRcConnRetry, jctx)
      | RecvError _ \<Rightarrow> (Some SubRcConnRetry, jctx)
      | Received raw \<Rightarrow>
          (case um raw of
             None \<Rightarrow> xrReceive um sch jctx es
           | Some message \<Rightarrow> xrReceive um sch (foldl accumulate jctx (handleMessage jctx sch message)) es))"

record 'r xr_net =
  xn_envPath :: "string option"
  xn_xform :: bool
  xn_stat :: "string \<Rightarrow> file_kind option"
  xn_load :: "string \<Rightarrow> schemaNode list option"
  xn_decode :: "'r \<Rightarrow> Telemetry option"
  xn_events :: "(64 word \<times> string) list \<Rightarrow> 'r stream_event list"

definition subscribeXR :: "'r xr_net \<Rightarrow> JCtx \<Rightarrow> Config \<Rightarrow> PathsConfig list \<Rightarrow> SubErrorCode option \<times> JCtx" where
  "subscribeXR net jctx cfg paths =
     (case getXRSchema (xn_envPath net) (xn_stat net) (xn_load net) jctx of
        None \<Rightarrow> (Some SubRcConnRetry, jctx)
      | Some sch \<Rightarrow> xrReceive (xn_decode net) sch jctx (xn_events net (xrRequests (xn_xform net) jctx paths)))"


section \<open>Lemmas\<close>

text \<open>The leaves of a message, with the path and the value of each: what \<open>walk\<close> is to deliver, without the tags.\<close>

function leaves :: "Config \<Rightarrow> string list \<Rightarrow> TelemetryField list \<Rightarrow> (string \<times> gval) list" where
  "leaves cfg p [] = []"
| "leaves cfg p (TField name v subs # fs) =
     (if subs = [] then [(getParentPath p (v_RemoveNS (Vendor cfg)) @ name, getFieldValueInterface (TField name v subs) (EnableUintSupport cfg))]
      else leaves cfg (if name \<noteq> [] then p @ [name] else []) subs) @ leaves cfg p fs"
  by pat_completeness auto
termination
  by (relation "measure (\<lambda>(_, _, fs). size_list size fs)") auto

definition slash_key :: "keyInfo \<Rightarrow> bool" where
  "slash_key kv \<longleftrightarrow> hasPrefix ''/'' (fst kv)"

definition extends :: "keyInfo list \<Rightarrow> keyInfo list \<Rightarrow> bool" where
  "extends tags newTags \<longleftrightarrow> (\<exists>e. newTags = tags @ e \<and> list_all slash_key e)"

lemma ext_refl [simp]: "extends t t"
  by (simp add: extends_def)

lemma ext_trans: "extends a b \<Longrightarrow> extends b c \<Longrightarrow> extends a c"
  by (auto simp: extends_def)

lemma getParentPath_slash: "slash_key (getParentPath p ns @ x, v)"
  by (simp add: slash_key_def getParentPath_def)

lemma matchKid_ext: "extends tags (fst st) \<Longrightarrow> extends tags (fst (matchKid ns p tags f st kid))"
  using getParentPath_slash[of p ns "''@'' @ tf_Name f" "getFieldStringValue f"] by (auto simp: matchKid_def extends_def)

lemma matchKids_ext:
  assumes "matchKids ns n p tags f st = (newTags, m)" "extends tags (fst st)"
  shows "extends tags newTags"
proof (cases n)
  case (Some node)
  have "extends tags (fst (foldl (matchKid ns p tags f) s kids))" if "extends tags (fst s)" for s kids
    using that by (induction kids arbitrary: s) (simp_all add: matchKid_ext)
  from this[OF assms(2), of "sn_Kids node"] assms(1) Some show ?thesis by (simp add: matchKids_def)
qed (use assms in \<open>simp add: matchKids_def\<close>)

lemma walkFields_tags:
  assumes "m \<in> set (walkFields cfg n p tags ts st fs)" "extends tags (fst st)"
  shows "\<exists>t. extends tags t \<and> m_tags m = tagsMap t"
  using assms
proof (induction cfg n p tags ts st fs rule: walkFields.induct)
  case (2 cfg n p tags ts st name v subs fs)
  obtain newTags matched where k: "matchKids (v_RemoveNS (Vendor cfg)) n p tags (TField name v subs) st = (newTags, matched)"
    by (cases "matchKids (v_RemoveNS (Vendor cfg)) n p tags (TField name v subs) st")
  note e = matchKids_ext[OF k "2.prems"(2)]
  from "2.prems"(1) consider (leaf) "subs = []" "m = leafMetric cfg p newTags ts (TField name v subs)"
    | (sub) "subs \<noteq> []" "m \<in> set (walkFields cfg matched (if name \<noteq> [] then p @ [name] else []) newTags ts (newTags, None) subs)"
    | (rest) "m \<in> set (walkFields cfg n p tags ts (newTags, matched) fs)"
    by (auto simp: k split: if_splits)
  thus ?case
  proof cases
    case leaf
    with e show ?thesis by (auto simp: leafMetric_def newMetricIDB_def)
  next
    case sub
    from "2.IH"(1)[OF k[symmetric] refl sub] obtain t where "extends newTags t" "m_tags m = tagsMap t" by auto
    with e ext_trans show ?thesis by blast
  next
    case rest
    from "2.IH"(2)[OF k[symmetric] refl _ rest] e show ?thesis by simp
  qed
qed simp

lemma mputs_map_of: "mget (mputs m0 tags) k = (case map_of (rev tags) k of Some v \<Rightarrow> Some v | None \<Rightarrow> mget m0 k)"
  unfolding mputs_def by (induction tags arbitrary: m0) (auto split: option.split)

lemma mget_tagsMap: "mget (tagsMap tags) k = map_of (rev tags) k"
  using mputs_map_of[of "[]" tags k] by (simp add: tagsMap_def mget_def split: option.splits)

lemma tagsMap_ext:
  assumes "extends tags t" "\<not> hasPrefix ''/'' k"
  shows "mget (tagsMap t) k = mget (tagsMap tags) k"
proof -
  from assms(1) obtain e where e: "t = tags @ e" "list_all slash_key e" by (auto simp: extends_def)
  with assms(2) have "map_of (rev e) k = None"
    by (auto simp: map_of_eq_None_iff slash_key_def list_all_iff)
  thus ?thesis by (simp add: mget_tagsMap e map_add_def)
qed

lemma base_mget:
  "mget (tagsMap (baseTags jctx sensor)) ''device'' = Some (Host (config jctx))"
  "mget (tagsMap (baseTags jctx sensor)) ''vendor'' = Some ''cisco''"
  "mget (tagsMap (baseTags jctx sensor)) ''sensor'' = Some sensor"
  by (simp_all add: baseTags_def mget_tagsMap)

lemma walk_leaves_aux:
  "map m_fields (walkFields cfg n p tags ts st fs) = map (\<lambda>kv. [kv]) (leaves cfg p fs)"
proof (induction cfg n p tags ts st fs rule: walkFields.induct)
  case (2 cfg n p tags ts st name v subs fs)
  obtain newTags matched where k: "matchKids (v_RemoveNS (Vendor cfg)) n p tags (TField name v subs) st = (newTags, matched)"
    by (cases "matchKids (v_RemoveNS (Vendor cfg)) n p tags (TField name v subs) st")
  from "2.IH"(1)[OF k[symmetric] refl] "2.IH"(2)[OF k[symmetric] refl] k show ?case
    by (cases "subs = []") (simp_all add: leafMetric_def newMetricIDB_def)
qed simp

lemma walkFields_ts: "m \<in> set (walkFields cfg n p tags ts st fs) \<Longrightarrow> m_ts m = ts"
proof (induction cfg n p tags ts st fs rule: walkFields.induct)
  case (2 cfg n p tags ts st name v subs fs)
  obtain newTags matched where k: "matchKids (v_RemoveNS (Vendor cfg)) n p tags (TField name v subs) st = (newTags, matched)"
    by (cases "matchKids (v_RemoveNS (Vendor cfg)) n p tags (TField name v subs) st")
  from "2.prems" "2.IH"(1)[OF k[symmetric] refl] "2.IH"(2)[OF k[symmetric] refl] show ?case
    by (auto simp: k leafMetric_def newMetricIDB_def split: if_splits)
qed simp

text \<open>What every metric of a message carries.\<close>

definition labelled :: "JCtx \<Rightarrow> 64 word \<Rightarrow> metricIDB \<Rightarrow> bool" where
  "labelled jctx ts m \<longleftrightarrow> mget (m_tags m) ''device'' = Some (Host (config jctx)) \<and>
     mget (m_tags m) ''vendor'' = Some ''cisco'' \<and> mget (m_tags m) ''sensor'' \<noteq> None \<and> m_ts m = ts"

lemma walk_labelled:
  assumes "m \<in> set (walk cfg n f p tags ts)" "extends (baseTags jctx sensor) tags"
  shows "labelled jctx ts m"
proof -
  from walkFields_tags[OF assms(1)[unfolded walk_def]] obtain t where t: "extends tags t" "m_tags m = tagsMap t" by auto
  from ext_trans[OF assms(2) t(1)] have e: "extends (baseTags jctx sensor) t" .
  show ?thesis
    using walkFields_ts[OF assms(1)[unfolded walk_def]] tagsMap_ext[OF e] base_mget[of jctx sensor]
    by (simp add: labelled_def t(2))
qed

lemma tagsLoop_ext: "extends t0 tags \<Longrightarrow> extends t0 (snd (tagsLoop keys ePath i (node, matched, tags) els))"
proof (induction els arbitrary: i node matched tags)
  case (Cons el els)
  have "extends t0 (tags @ [(''/'' @ x, v)])" for x v using Cons.prems by (auto simp: extends_def slash_key_def)
  from this[of "go_join (take (i + 2) ePath) ''/'' @ ''/@'' @ name" for name] show ?case
    by (auto simp: Cons Let_def split: option.split)
qed simp

lemma processMultiLevelMsg_labelled:
  "m \<in> set (fst (processMultiLevelMsg jctx node ePath ts ms)) \<Longrightarrow> labelled jctx ts m"
proof (induction ms arbitrary: ePath)
  case (Cons x ms)
  show ?case
  proof (cases "getContentFromMessage x")
    case None
    with Cons show ?thesis by simp
  next
    case (Some content)
    obtain matched tags where t: "multiLevelMsgTags jctx node ePath x = (matched, tags)"
      by (cases "multiLevelMsgTags jctx node ePath x")
    hence "extends (baseTags jctx (go_join ePath ''/'')) tags"
      by (metis ext_refl multiLevelMsgTags_def snd_conv tagsLoop_ext)
    hence "labelled jctx ts m" if "m \<in> set (walk cfg n f p tags ts)" for cfg n f p
      using walk_labelled that by blast
    with Some t Cons show ?thesis by (auto simp: Let_def case_prod_unfold)
  qed
qed simp

lemma multiLevel_labelled:
  "m \<in> set (multiLevel jctx message ePath nodes) \<Longrightarrow> labelled jctx (te_MsgTimestamp message) m"
proof (induction nodes arbitrary: ePath)
  case (Cons node nodes)
  thus ?case by (auto simp: Let_def case_prod_unfold split: if_splits dest: processMultiLevelMsg_labelled)
qed simp

lemma topLevel_labelled:
  "m \<in> set (topLevel jctx sch el message) \<Longrightarrow> labelled jctx (te_MsgTimestamp message) m"
  by (auto simp: topLevel_def processTopLevelMsg_def split: if_splits option.splits intro: walk_labelled[OF _ ext_refl])

lemma handleMessage_labelled:
  "m \<in> set (handleMessage jctx sch message) \<Longrightarrow> labelled jctx (te_MsgTimestamp message) m"
  by (auto simp: handleMessage_def Let_def split: if_splits dest: topLevel_labelled multiLevel_labelled)

lemma config_accumulate [simp]: "config (accumulate jctx m) = config jctx"
  by (simp add: accumulate_def upd_influx_def)

lemma config_accumulates [simp]: "config (foldl accumulate jctx ms) = config jctx"
  by (induction ms arbitrary: jctx) simp_all

lemma baseTags_config: "config j = config k \<Longrightarrow> baseTags j = baseTags k"
  by (intro HOL.ext) (simp add: baseTags_def)

lemma processMultiLevelMsg_config:
  "config j = config k \<Longrightarrow> processMultiLevelMsg j node ePath ts ms = processMultiLevelMsg k node ePath ts ms"
  by (induction ms arbitrary: ePath) (simp_all add: multiLevelMsgTags_def baseTags_def split: option.split)

lemma multiLevel_config: "config j = config k \<Longrightarrow> multiLevel j message ePath nodes = multiLevel k message ePath nodes"
  by (induction nodes arbitrary: ePath) (simp_all add: processMultiLevelMsg_config[of j k])

lemma processTopLevelMsg_config: "config j = config k \<Longrightarrow> processTopLevelMsg j = processTopLevelMsg k"
  by (intro HOL.ext) (simp add: processTopLevelMsg_def baseTags_config[of j k] split: option.split)

lemma handleMessage_config: "config j = config k \<Longrightarrow> handleMessage j sch message = handleMessage k sch message"
  by (simp add: handleMessage_def topLevel_def processTopLevelMsg_config[of j k] multiLevel_config[of j k] Let_def cong: if_cong)

text \<open>The messages of a stream that can be decoded.\<close>

fun decoded :: "('r \<Rightarrow> Telemetry option) \<Rightarrow> 'r list \<Rightarrow> Telemetry list" where
  "decoded um [] = []"
| "decoded um (r # rs) = (case um r of None \<Rightarrow> decoded um rs | Some t \<Rightarrow> t # decoded um rs)"


section \<open>Properties\<close>



text \<open>
  Every metric of a message names the configured device and the vendor, has a sensor, and carries the time stamp of the
  message: no key of the message replaces these tags.
\<close>

theorem handleMessage_labels:
  assumes "m \<in> set (handleMessage jctx sch message)"
  shows "mget (m_tags m) ''device'' = Some (Host (config jctx)) \<and> mget (m_tags m) ''vendor'' = Some ''cisco'' \<and>
         mget (m_tags m) ''sensor'' \<noteq> None \<and> m_ts m = te_MsgTimestamp message"
  using handleMessage_labelled[OF assms] by (simp add: labelled_def)

definition ex_xr_node :: schemaNode where
  "ex_xr_node = SchemaNode ''ifs'' False [SchemaNode ''name'' True [], SchemaNode ''unit'' True []]"

definition ex_xr_message :: Telemetry where
  "ex_xr_message = \<lparr>te_EncodingPath = ''ifs'', te_DataGpbkv = [TField [] None
     [TField ''keys'' None [], TField ''content'' None [TField ''mtu'' (Some (XUint32 1500)) []]]], te_MsgTimestamp = 7\<rparr>"

definition ex_xr_jctx :: JCtx where
  "ex_xr_jctx = zeroJCtx\<lparr>config := zeroConfig\<lparr>Host := ''xr1''\<rparr>\<rparr>"

lemma ex_xr_metrics: "handleMessage ex_xr_jctx [[ex_xr_node]] ex_xr_message \<noteq> []"
proof -
  have "go_split ''ifs'' ''/'' = [''ifs'']" by code_simp
  thus ?thesis by (simp add: ex_xr_jctx_def ex_xr_message_def ex_xr_node_def handleMessage_def topLevel_def processTopLevelMsg_def
    getContentFromMessage_def walk_def matchKids_def matchKid_def zero_defs)
qed

lemma handleMessage_labels_witness:
  "mget (m_tags (hd (handleMessage ex_xr_jctx [[ex_xr_node]] ex_xr_message))) ''device'' = Some ''xr1'' \<and>
   m_ts (hd (handleMessage ex_xr_jctx [[ex_xr_node]] ex_xr_message)) = 7"
proof -
  have "Host (config ex_xr_jctx) = ''xr1''" "te_MsgTimestamp ex_xr_message = 7"
    by (simp_all add: ex_xr_jctx_def ex_xr_message_def)
  with handleMessage_labels[OF hd_in_set[OF ex_xr_metrics]] show ?thesis by simp
qed

text \<open>
  Of several keys of one list only the last one is kept: after the fields of two keys of a node, a third field gets the
  tag of the second key and not that of the first, so that the metrics of two rows that differ in their first key only
  have the same tags.
\<close>

theorem walk_last_key:
  assumes "sn_Kids node = [SchemaNode a True [], SchemaNode b True []]" "a \<noteq> b" "c \<noteq> a" "c \<noteq> b"
  shows "walk cfg (Some node) [TField a u [], TField b v [], TField c w []] p tags ts ! 2 =
           leafMetric cfg p (tags @ [(getParentPath p (v_RemoveNS (Vendor cfg)) @ ''@'' @ b, getFieldStringValue (TField b v []))]) ts
             (TField c w [])"
  using assms by (simp add: walk_def matchKids_def matchKid_def)

lemma walk_last_key_witness:
  "walk zeroConfig (Some ex_xr_node) [TField ''name'' (Some (XString ''e0'')) [], TField ''unit'' (Some (XUint32 3)) [],
      TField ''mtu'' (Some (XUint32 1500)) []] [''ifs''] [] 7 ! 2 =
     leafMetric zeroConfig [''ifs''] [(''/ifs/@unit'', ''3'')] 7 (TField ''mtu'' (Some (XUint32 1500)) [])"
proof -
  have "getParentPath [''ifs''] (v_RemoveNS (Vendor zeroConfig)) = ''/ifs/''"
    "getFieldStringValue (TField ''unit'' (Some (XUint32 3)) []) = ''3''"
    by (simp_all add: getParentPath_def getFieldStringValue_def zero_defs, code_simp)
  with walk_last_key[of ex_xr_node "''name''" "''unit''" "''mtu''" zeroConfig "Some (XString ''e0'')" "Some (XUint32 3)"
      "Some (XUint32 1500)" "[''ifs'']" "[]" 7] show ?thesis by (simp add: ex_xr_node_def)
qed

section \<open>The verbose log\<close>

text \<open>
  \<open>getXRSchemaNode\<close>: reading and decoding a schema file. \<open>printFields\<close>: the lines that go to the log for a message when the
  log is verbose. A leaf without a value and a leaf with a 32-bit floating point number have no case.
\<close>

definition getXRSchemaNode :: "(string \<Rightarrow> string option) \<Rightarrow> (string \<Rightarrow> schemaNode list option) \<Rightarrow> string \<Rightarrow> schemaNode list option" where
  "getXRSchemaNode readFile decode nm = (case readFile nm of None \<Rightarrow> None | Some f \<Rightarrow> decode f)"

definition printValue :: "xr_value option \<Rightarrow> string option" where
  "printValue v =
     (case v of
        Some (XString s) \<Rightarrow> Some s
      | Some (XBool b) \<Rightarrow> Some (show_bool b)
      | Some (XUint32 u) \<Rightarrow> Some (show_int (uint u))
      | Some (XUint64 u) \<Rightarrow> Some (show_int (uint u))
      | Some (XBytes b) \<Rightarrow> Some (show_bytes b)
      | Some (XSint32 i) \<Rightarrow> Some (show_int (sint i))
      | Some (XSint64 i) \<Rightarrow> Some (show_int (sint i))
      | Some (XDouble d) \<Rightarrow> Some (f64_v d)
      | _ \<Rightarrow> None)"

definition printOneField :: "JCtx \<Rightarrow> TelemetryField \<Rightarrow> string list \<Rightarrow> string list" where
  "printOneField jctx field parentPath =
     (case printValue (tf_Value field) of
        None \<Rightarrow> []
      | Some t \<Rightarrow> [getParentPath parentPath (v_RemoveNS (Vendor (config jctx))) @ tf_Name field @ '': '' @ t @ [CHR 0x0A]])"

function printFields :: "JCtx \<Rightarrow> TelemetryField list \<Rightarrow> string list \<Rightarrow> string list" where
  "printFields jctx [] parentPath = []"
| "printFields jctx (TField name v subs # fs) parentPath =
     (if subs = [] then printOneField jctx (TField name v subs) parentPath
      else printFields jctx subs (if name \<noteq> [] then parentPath @ [name] else [])) @ printFields jctx fs parentPath"
  by pat_completeness auto
termination
  by (relation "measure (\<lambda>(_, fs, _). size_list size fs)") auto

fun printable :: "TelemetryField \<Rightarrow> bool" where
  "printable (TField name v subs) = (if subs = [] then printValue v \<noteq> None else list_all printable subs)"

text \<open>The line of a leaf.\<close>

definition lineOf :: "string \<Rightarrow> string \<times> gval \<Rightarrow> bool" where
  "lineOf line kv \<longleftrightarrow> (\<exists>t. line = fst kv @ '': '' @ t @ [CHR 0x0A])"

lemma printFields_lines:
  "list_all printable fs \<Longrightarrow> list_all2 lineOf (printFields jctx fs p) (leaves (config jctx) p fs)"
proof (induction jctx fs p rule: printFields.induct)
  case (2 jctx name v subs fs p)
  show ?case
  proof (cases "subs = []")
    case True
    with 2 show ?thesis by (auto simp: printOneField_def lineOf_def)
  next
    case False
    with 2 have "list_all2 lineOf (printFields jctx subs (if name \<noteq> [] then p @ [name] else []))
        (leaves (config jctx) (if name \<noteq> [] then p @ [name] else []) subs)"
      "list_all2 lineOf (printFields jctx fs p) (leaves (config jctx) p fs)" by auto
    with False show ?thesis by (simp add: list_all2_appendI)
  qed
qed simp

text \<open>
  The verbose log of a message shows what is delivered: for a message whose leaves have values that can be printed, the log
  has one line for each metric that \<open>walk\<close> hands to the accumulator, in the same order and under the same path, whatever the
  schema says.
\<close>

theorem xr_log_agrees:
  assumes "list_all printable fs"
  shows "list_all2 (\<lambda>line m. \<exists>kv. m_fields m = [kv] \<and> lineOf line kv) (printFields jctx fs p) (walk (config jctx) n fs p tags ts)"
proof -
  have e: "map m_fields (walk (config jctx) n fs p tags ts) = map (\<lambda>kv. [kv]) (leaves (config jctx) p fs)"
    by (simp add: walk_def walk_leaves_aux)
  have "list_all2 (\<lambda>line x. \<exists>kv. x = [kv] \<and> lineOf line kv) (printFields jctx fs p) (map (\<lambda>kv. [kv]) (leaves (config jctx) p fs))"
    using printFields_lines[OF assms, of jctx p] by (simp add: list_all2_map2)
  thus ?thesis unfolding e[symmetric] by (simp add: list_all2_map2)
qed

theorem xr_log_agrees_witness:
  "printFields zeroJCtx [TField ''a'' None [TField ''b'' (Some (XUint32 7)) [], TField ''c'' (Some (XString ''x'')) []]] [] =
     [''/a/b: 7'' @ [CHR 0x0A], ''/a/c: x'' @ [CHR 0x0A]] \<and>
   length (walk (config zeroJCtx) None [TField ''a'' None [TField ''b'' (Some (XUint32 7)) [], TField ''c'' (Some (XString ''x'')) []]] [] [] 0) = 2"
proof -
  let ?fs = "[TField ''a'' None [TField ''b'' (Some (XUint32 7)) [], TField ''c'' (Some (XString ''x'')) []]]"
  have "list_all printable ?fs" by (simp add: printValue_def)
  from list_all2_lengthD[OF xr_log_agrees[OF this, of zeroJCtx "[]" None "[]" 0]]
  have l: "length (printFields zeroJCtx ?fs []) = length (walk (config zeroJCtx) None ?fs [] [] 0)" .
  have p: "printFields zeroJCtx ?fs [] = [''/a/b: 7'' @ [CHR 0x0A], ''/a/c: x'' @ [CHR 0x0A]]" by code_simp
  show ?thesis using l unfolding p by simp
qed

end
