(* ===== verification/Stats.thy ===== *)
theory Stats
  imports Junos
begin

text \<open>
  Statistics: \<open>HandleRPC\<close>, \<open>getKPIStats\<close>, \<open>periodicStats\<close> and \<open>printSummary\<close> of statshandler.go. The statistics events of
  the RPC library are the datatype \<open>rpc_stats\<close>; lengths are the integers of the library. A row of the CSV log is
  the text handed to the logger. The time texts and the elapsed whole seconds are arguments.
\<close>

section \<open>The callback of the RPC library\<close>

datatype payload = PNative OpenConfigData | PGnmi SubscribeResponse | POther

datatype rpc_stats =
    InHeader int
  | OutHeader
  | OutPayload
  | InPayload int int payload
  | InTrailer
  | RpcEnd

record kpiStats =
  k_SensorName :: string
  k_Path :: string
  k_Streamed_path :: string
  k_Component :: string
  k_SequenceNumber :: "64 word"
  k_ComponentId :: "32 word"
  k_SubComponentId :: "32 word"
  k_Timestamp :: "64 word"
  k_notif_timestamp :: "64 word"
  k_re_stream_creation_timestamp :: "64 word"
  k_re_payload_get_timestamp :: "64 word"

definition emptyKpi :: kpiStats where
  "emptyKpi = \<lparr>k_SensorName = [], k_Path = [], k_Streamed_path = [], k_Component = [], k_SequenceNumber = 0, k_ComponentId = 0,
     k_SubComponentId = 0, k_Timestamp = 0, k_notif_timestamp = 0, k_re_stream_creation_timestamp = 0, k_re_payload_get_timestamp = 0\<rparr>"

definition positive :: "64 word \<Rightarrow> 64 word" where
  "positive t = (if 0 < sint t then t else 0)"

text \<open>The first Juniper extension is used; an extension that cannot be decoded ends the process.\<close>

definition getKPIStats :: "pb_lib \<Rightarrow> SubscribeResponse \<Rightarrow> kpiStats option go" where
  "getKPIStats pb rsp =
     (case r_Update rsp of
        None \<Rightarrow> Inr None
      | Some n \<Rightarrow>
          let s0 = emptyKpi\<lparr>k_notif_timestamp := n_Timestamp n\<rparr>
          in case juniperExt (r_Extension rsp) of
               None \<Rightarrow> Inr (Some s0)
             | Some e \<Rightarrow>
                 (case pb_UnmarshalExt pb (e_Msg e) of
                    None \<Rightarrow> Inl FatalExit
                  | Some h \<Rightarrow>
                      Inr (Some (s0\<lparr>k_ComponentId := x_ComponentId h, k_SequenceNumber := x_SequenceNumber h, k_Path := x_SubscribedPath h,
                        k_SubComponentId := x_SubComponentId h, k_Component := x_Component h, k_Streamed_path := x_StreamedPath h,
                        k_SensorName := x_SensorName h, k_Timestamp := positive (x_ExportTimestamp h),
                        k_re_payload_get_timestamp := positive (x_PayloadGetTimestamp h),
                        k_re_stream_creation_timestamp := positive (x_StreamCreationTimestamp h)\<rparr>))))"

definition csvRow :: "string \<Rightarrow> int list \<Rightarrow> string" where
  "csvRow path ns = path @ concat (map (\<lambda>n. '','' @ show_int n) ns) @ [CHR 0x0A]"

definition GetUintValue :: "KeyValue \<Rightarrow> 64 word" where
  "GetUintValue kv = (case kv_Value kv of Some (UintValue u) \<Rightarrow> u | _ \<Rightarrow> 0)"

text \<open>The time stamps of the routing engine stand in the two pairs after the time stamp of the packet.\<close>

definition reTimestamps :: "KeyValue list \<Rightarrow> 64 word \<times> 64 word" where
  "reTimestamps rest =
     (case rest of
        a # b # _ \<Rightarrow>
          (if kv_Key a = ''__junos_re_stream_creation_timestamp__'' then GetUintValue a else 0,
           if kv_Key b = ''__junos_re_payload_get_timestamp__'' then GetUintValue b else 0)
      | _ \<Rightarrow> (0, 0))"

text \<open>The loop over the pairs of a packet: the context and the rows. A logger that is nil is used without a test.\<close>

fun csvLoop :: "Flags \<Rightarrow> int \<Rightarrow> OpenConfigData \<Rightarrow> JCtx \<Rightarrow> KeyValue list \<Rightarrow> (JCtx \<times> string list) go" where
  "csvLoop fl len oc jctx [] = Inr (jctx, [])"
| "csvLoop fl len oc jctx (kv # rest) =
     (let j = updateStatsKV fl jctx 0
      in case kv_Value kv of
           Some (UintValue ts) \<Rightarrow>
             (if kv_Key kv = ''__timestamp__'' then
                (if ij_csvLogger (InternalJtimon (config j)) = None then Inl NilDeref
                 else
                   let (c, g) = reTimestamps rest;
                       row = csvRow (oc_Path oc) [uint (oc_SequenceNumber oc), uint (oc_ComponentId oc), uint (oc_SubComponentId oc),
                               len, uint (oc_Timestamp oc), uint ts, uint c, uint g]
                   in bindR (csvLoop fl len oc j rest) (\<lambda>(j', rows). Inr (j', row # rows)))
              else csvLoop fl len oc j rest)
         | _ \<Rightarrow> csvLoop fl len oc j rest)"

definition kpiRow :: "int \<Rightarrow> kpiStats \<Rightarrow> string" where
  "kpiRow len k =
     csvRow (k_SensorName k @ '':'' @ k_Streamed_path k @ '':'' @ k_Path k @ '':'' @ k_Component k)
       [uint (k_SequenceNumber k), uint (k_ComponentId k), uint (k_SubComponentId k), len, sint (k_notif_timestamp k),
        sint (k_Timestamp k * 1000000), sint (k_re_stream_creation_timestamp k * 1000000), sint (k_re_payload_get_timestamp k * 1000000)]"

definition csvPayload :: "pb_lib \<Rightarrow> Flags \<Rightarrow> int \<Rightarrow> payload \<Rightarrow> JCtx \<Rightarrow> (JCtx \<times> string list) go" where
  "csvPayload pb fl len p jctx =
     (case p of
        PNative oc \<Rightarrow> csvLoop fl len oc (updateStats fl jctx) (oc_Kv oc)
      | PGnmi rsp \<Rightarrow>
          bindR (getKPIStats pb rsp) (\<lambda>st.
            case st of
              None \<Rightarrow> Inr (jctx, [])
            | Some k \<Rightarrow>
                if k_Timestamp k = 0 then Inr (jctx, [])
                else if ij_csvLogger (InternalJtimon (config jctx)) = None then Inl NilDeref
                else Inr (jctx, [kpiRow len k]))
      | POther \<Rightarrow> Inr (jctx, []))"

definition HandleRPC :: "pb_lib \<Rightarrow> Flags \<Rightarrow> JCtx \<Rightarrow> rpc_stats \<Rightarrow> (JCtx \<times> string list) go" where
  "HandleRPC pb fl jctx s =
     (case s of
        InHeader wl \<Rightarrow>
          Inr (jctx\<lparr>stats := (stats jctx)\<lparr>totalInHeaderWireLength := totalInHeaderWireLength (stats jctx) + word_of_int wl\<rparr>\<rparr>, [])
      | InPayload len wl p \<Rightarrow>
          let j = jctx\<lparr>stats := (stats jctx)\<lparr>totalInPayloadLength := totalInPayloadLength (stats jctx) + word_of_int len,
                totalInPayloadWireLength := totalInPayloadWireLength (stats jctx) + word_of_int wl\<rparr>\<rparr>
          in if isCsvStatsEnabled fl j then csvPayload pb fl len p j else Inr (j, [])
      | _ \<Rightarrow> Inr (jctx, []))"

fun HandleRPCs :: "pb_lib \<Rightarrow> Flags \<Rightarrow> JCtx \<Rightarrow> rpc_stats list \<Rightarrow> (JCtx \<times> string list) go" where
  "HandleRPCs pb fl jctx [] = Inr (jctx, [])"
| "HandleRPCs pb fl jctx (s # ss) =
     bindR (HandleRPC pb fl jctx s) (\<lambda>(j, rows). bindR (HandleRPCs pb fl j ss) (\<lambda>(j', rows'). Inr (j', rows @ rows')))"


section \<open>Printed statistics\<close>

definition padLeft :: "nat \<Rightarrow> string \<Rightarrow> string" where
  "padLeft n s = replicate (n - length s) (CHR '' '') @ s"

definition padRight :: "nat \<Rightarrow> string \<Rightarrow> string" where
  "padRight n s = s @ replicate (n - length s) (CHR '' '')"

definition tableLine :: string where
  "tableLine = ''+'' @ replicate 30 (CHR ''-'') @ concat (replicate 4 (''+'' @ replicate 20 (CHR ''-''))) @ ''+'' @ [CHR 0x0A]"

definition tableHead :: string where
  "tableHead = tableLine @
     ''|         Timestamp            |        KV          |      Packets       |       Bytes        |     Bytes(wire)    |'' @
     [CHR 0x0A] @ tableLine"

text \<open>One tick: the counter of the rows and the text, if any. There is no text before the first packet.\<close>

definition periodicTick :: "string \<Rightarrow> JCtx \<Rightarrow> nat \<Rightarrow> nat \<times> string option" where
  "periodicTick now jctx headerCounter =
     (let s = stats jctx;
          num = (\<lambda>n. '' | '' @ padLeft 18 (show_int (uint n)))
      in if totalIn s = 0 then (headerCounter, None)
         else (Suc headerCounter,
               Some ([CHR 0x0A] @ (if headerCounter mod 100 = 0 then tableHead else []) @
                 ''| '' @ now @ num (totalKV s) @ num (totalIn s) @ num (totalInPayloadLength s) @ num (totalInPayloadWireLength s) @
                 '' |'' @ [CHR 0x0A])))"

text \<open>The ticks see the context as it is at the time of each.\<close>

fun periodicTicks :: "nat \<Rightarrow> (string \<times> JCtx) list \<Rightarrow> string list" where
  "periodicTicks n [] = []"
| "periodicTicks n ((now, j) # ts) =
     (case periodicTick now j n of (n', out) \<Rightarrow> (case out of None \<Rightarrow> [] | Some t \<Rightarrow> [t]) @ periodicTicks n' ts)"

definition periodicStats :: "Flags \<Rightarrow> JCtx \<Rightarrow> (string \<times> JCtx) list \<Rightarrow> string list" where
  "periodicStats fl jctx ticks =
     (if \<not> f_statsHandler fl \<or> l_PeriodicStats (Log (config jctx)) = 0 then [] else periodicTicks 0 ticks)"

definition summaryLine :: "64 word \<Rightarrow> string \<Rightarrow> string" where
  "summaryLine n what = padRight 12 (show_int (uint n)) @ '' : '' @ what @ [CHR 0x0A]"

text \<open>The summary for the log, and whether it also goes to the terminal; \<open>secs\<close> is the elapsed time in whole seconds.\<close>

definition printSummary :: "Flags \<Rightarrow> JCtx \<Rightarrow> string \<Rightarrow> 64 word \<Rightarrow> (string \<times> bool) option" where
  "printSummary fl jctx runTime secs =
     (if \<not> f_statsHandler fl then None
      else
        let s = stats jctx;
            t = [CHR 0x0A] @ ''Collector Stats for '' @ Host (config jctx) @ '':'' @ show_int (Port (config jctx)) @
                  '' (Run time : '' @ runTime @ '')'' @ [CHR 0x0A] @
                summaryLine (totalIn s) ''in-packets'' @ summaryLine (totalKV s) ''data points (KV pairs)'' @
                summaryLine (totalInHeaderWireLength s) ''in-header wirelength (bytes)'' @
                summaryLine (totalInPayloadLength s) ''in-payload length (bytes)'' @
                summaryLine (totalInPayloadWireLength s) ''in-payload wirelength (bytes)'' @
                (if secs \<noteq> 0 then summaryLine (totalInPayloadLength s div secs) ''throughput (bytes per seconds)'' else []) @ [CHR 0x0A]
        in Some (t, ij_CsvLog (InternalJtimon (config jctx)) \<noteq> []))"

section \<open>Lemmas\<close>

lemma updateStats_fields [simp]:
  "config (updateStats fl j) = config j" "config (updateStatsKV fl j n) = config j"
  "totalInPayloadLength (stats (updateStats fl j)) = totalInPayloadLength (stats j)"
  "totalInPayloadLength (stats (updateStatsKV fl j n)) = totalInPayloadLength (stats j)"
  "totalInPayloadWireLength (stats (updateStats fl j)) = totalInPayloadWireLength (stats j)"
  "totalInPayloadWireLength (stats (updateStatsKV fl j n)) = totalInPayloadWireLength (stats j)"
  "totalInHeaderWireLength (stats (updateStats fl j)) = totalInHeaderWireLength (stats j)"
  "totalInHeaderWireLength (stats (updateStatsKV fl j n)) = totalInHeaderWireLength (stats j)"
  by (simp_all add: updateStats_def updateStatsKV_def)

text \<open>The pairs that give a row.\<close>

definition tsPair :: "KeyValue \<Rightarrow> bool" where
  "tsPair kv \<longleftrightarrow> kv_Key kv = ''__timestamp__'' \<and> (case kv_Value kv of Some (UintValue _) \<Rightarrow> True | _ \<Rightarrow> False)"

lemma updateStatsKV_0: "updateStatsKV fl j 0 = j"
  by (simp add: updateStatsKV_def)

lemma csvLoop_result: "csvLoop fl len oc j kvs = Inr (j', rows) \<Longrightarrow> j' = j \<and> length rows = length (filter tsPair kvs)"
proof (induction kvs arbitrary: rows)
  case (Cons kv kvs)
  show ?case
  proof (cases "tsPair kv")
    case True
    then obtain ts where "kv_Value kv = Some (UintValue ts)" "kv_Key kv = ''__timestamp__''"
      by (auto simp: tsPair_def split: option.splits oc_value.splits)
    with True Cons show ?thesis
      by (cases "reTimestamps kvs") (auto simp: updateStatsKV_0 bindR_Inr_iff split: if_splits)
  next
    case False
    with Cons show ?thesis by (auto simp: tsPair_def updateStatsKV_0 Let_def split: option.splits oc_value.splits if_splits)
  qed
qed simp

lemma csvPayload_result:
  "csvPayload pb fl len p j = Inr (j', rows) \<Longrightarrow> j' = (case p of PNative _ \<Rightarrow> updateStats fl j | _ \<Rightarrow> j)"
  by (auto simp: csvPayload_def bindR_Inr_iff dest!: csvLoop_result split: payload.splits option.splits if_splits)

text \<open>What an event adds to the three counters of bytes.\<close>

definition headerWire :: "rpc_stats \<Rightarrow> 64 word" where
  "headerWire s = (case s of InHeader wl \<Rightarrow> word_of_int wl | _ \<Rightarrow> 0)"

definition payloadLength :: "rpc_stats \<Rightarrow> 64 word" where
  "payloadLength s = (case s of InPayload len _ _ \<Rightarrow> word_of_int len | _ \<Rightarrow> 0)"

definition payloadWire :: "rpc_stats \<Rightarrow> 64 word" where
  "payloadWire s = (case s of InPayload _ wl _ \<Rightarrow> word_of_int wl | _ \<Rightarrow> 0)"

lemma HandleRPC_bytes:
  "HandleRPC pb fl j s = Inr (j', rows) \<Longrightarrow>
     totalInHeaderWireLength (stats j') = totalInHeaderWireLength (stats j) + headerWire s \<and>
     totalInPayloadLength (stats j') = totalInPayloadLength (stats j) + payloadLength s \<and>
     totalInPayloadWireLength (stats j') = totalInPayloadWireLength (stats j) + payloadWire s"
  by (auto simp: HandleRPC_def headerWire_def payloadLength_def payloadWire_def Let_def dest!: csvPayload_result
      split: rpc_stats.splits if_splits payload.splits)


section \<open>Properties\<close>

text \<open>
  C34. The statistics callback accounts for every byte: after any sequence of events that it handles, each of the three
  counters of bytes has grown by the sum of the lengths of its events, modulo \<open>2 ^ 64\<close>, with or without the CSV log.
\<close>

theorem HandleRPCs_totals:
  assumes "HandleRPCs pb fl j evs = Inr (j', rows)"
  shows "totalInHeaderWireLength (stats j') = totalInHeaderWireLength (stats j) + sum_list (map headerWire evs) \<and>
     totalInPayloadLength (stats j') = totalInPayloadLength (stats j) + sum_list (map payloadLength evs) \<and>
     totalInPayloadWireLength (stats j') = totalInPayloadWireLength (stats j) + sum_list (map payloadWire evs)"
  using assms
proof (induction evs arbitrary: j rows)
  case (Cons ev evs)
  then obtain k r r' where "HandleRPC pb fl j ev = Inr (k, r)" "HandleRPCs pb fl k evs = Inr (j', r')"
    by (auto simp: bindR_Inr_iff)
  with HandleRPC_bytes[OF this(1)] Cons.IH[OF this(2)] show ?case by (simp add: add.assoc)
qed simp

definition ex_stats_jctx :: JCtx where
  "ex_stats_jctx = zeroJCtx\<lparr>config := zeroConfig\<lparr>InternalJtimon := (InternalJtimon zeroConfig)
     \<lparr>ij_CsvLog := ''s.csv'', ij_csvLogger := Some (File ''s.csv'')\<rparr>\<rparr>\<rparr>"

definition ex_stats_flags :: Flags where
  "ex_stats_flags = zeroFlags\<lparr>f_statsHandler := True\<rparr>"

definition ex_stats_oc :: OpenConfigData where
  "ex_stats_oc = ex_oc\<lparr>oc_Kv := [\<lparr>kv_Key = ''__timestamp__'', kv_Value = Some (UintValue 5)\<rparr>]\<rparr>"

lemma ex_stats_rpc:
  "\<exists>j' row. HandleRPC ex_pb ex_stats_flags ex_stats_jctx (InPayload 100 90 (PNative ex_stats_oc)) = Inr (j', [row]) \<and>
     config j' = config ex_stats_jctx \<and> totalIn (stats j') = 1"
  by (simp add: HandleRPC_def csvPayload_def ex_stats_jctx_def ex_stats_flags_def ex_stats_oc_def isCsvStatsEnabled_def zero_defs
      updateStats_def updateStatsKV_def reTimestamps_def)

theorem HandleRPCs_totals_witness:
  "\<exists>j' rows. HandleRPCs ex_pb ex_stats_flags ex_stats_jctx [InHeader 40, InPayload 100 90 (PNative ex_stats_oc)] = Inr (j', rows) \<and>
     totalInPayloadLength (stats j') = 100 \<and> totalInHeaderWireLength (stats j') = 40"
proof -
  obtain j' rows where r: "HandleRPCs ex_pb ex_stats_flags ex_stats_jctx [InHeader 40, InPayload 100 90 (PNative ex_stats_oc)] = Inr (j', rows)"
    by (simp add: HandleRPC_def csvPayload_def ex_stats_jctx_def ex_stats_flags_def ex_stats_oc_def isCsvStatsEnabled_def zero_defs
      updateStats_def updateStatsKV_def reTimestamps_def)
  from HandleRPCs_totals[OF r] r show ?thesis
    by (simp add: headerWire_def payloadLength_def ex_stats_jctx_def zero_defs)
qed

text \<open>
  With the CSV log a packet of native telemetry is counted twice: the statistics callback and the handler of the packet
  both count it, while its key value pairs are counted once, so that the summary shows twice the packets received. The
  callback writes one row for every time stamp in the packet.
\<close>

theorem csv_counts_twice:
  assumes "isCsvStatsEnabled fl j" "HandleRPC pb fl j (InPayload len wl (PNative oc)) = Inr (j1, rows)"
    "handleOnePacket fl oc j1 = Inr (j2, out)"
  shows "totalIn (stats j2) = totalIn (stats j) + 2 \<and> totalKV (stats j2) = totalKV (stats j) + of_nat (length (oc_Kv oc)) \<and>
    length rows = length (filter tsPair (oc_Kv oc))"
proof -
  let ?j = "j\<lparr>stats := (stats j)\<lparr>totalInPayloadLength := totalInPayloadLength (stats j) + word_of_int len,
                totalInPayloadWireLength := totalInPayloadWireLength (stats j) + word_of_int wl\<rparr>\<rparr>"
  from assms(1) have on: "f_statsHandler fl" "isCsvStatsEnabled fl ?j" by (simp_all add: isCsvStatsEnabled_def)
  with assms(2) have "csvLoop fl len oc (updateStats fl ?j) (oc_Kv oc) = Inr (j1, rows)"
    by (simp add: HandleRPC_def Let_def csvPayload_def)
  from csvLoop_result[OF this] handleOnePacket_stats[OF assms(3)] on(1) show ?thesis
    by (simp add: updateStats_def)
qed

theorem csv_counts_twice_witness:
  "\<exists>j1 j2 rows out. HandleRPC ex_pb ex_stats_flags ex_stats_jctx (InPayload 100 90 (PNative ex_stats_oc)) = Inr (j1, rows) \<and>
     handleOnePacket ex_stats_flags ex_stats_oc j1 = Inr (j2, out) \<and> totalIn (stats j2) = 2"
proof -
  obtain j1 row where j1: "HandleRPC ex_pb ex_stats_flags ex_stats_jctx (InPayload 100 90 (PNative ex_stats_oc)) = Inr (j1, [row])"
    "config j1 = config ex_stats_jctx"
    using ex_stats_rpc by blast
  obtain j2 out where j2: "handleOnePacket ex_stats_flags ex_stats_oc j1 = Inr (j2, out)"
    using j1(2) by (simp add: handleOnePacket_def isLogging_def isInternalJtimonLogging_def IsVerboseLogging_def ex_stats_flags_def
        ex_stats_oc_def ex_stats_jctx_def zero_defs Let_def)
  have "isCsvStatsEnabled ex_stats_flags ex_stats_jctx" "totalIn (stats ex_stats_jctx) = 0"
    by (simp_all add: isCsvStatsEnabled_def ex_stats_flags_def ex_stats_jctx_def zero_defs)
  with csv_counts_twice[OF _ j1(1) j2] j1 j2 show ?thesis by auto
qed

end
