(* ===== verification/InternalLog.thy ===== *)
theory InternalLog
  imports GnmiHandle
begin

text \<open>
  The data log of gNMI responses: \<open>getPath\<close> and \<open>jLogInternalJtimonForGnmi\<close> of internal_jtimon.go. What is written is
  either the text or, with the flag for JSON output, the map that is encoded, here the record \<open>gnmi_json\<close>. The
  text form of an update, \<open>u.String()\<close>, is the argument \<open>us\<close>. The two regular expressions over this text are the matchers
  \<open>findNames\<close> and \<open>findVal\<close>. The extension header goes through JSON, which leaves zero values out and reads
  numbers back as \<open>float64\<close>. Encoding strings and integers as JSON does not fail.
\<close>

section \<open>Paths\<close>

text \<open>The loop over the keys of an element: the text, and whether a key has been seen.\<close>

fun getPath_keys :: "string \<times> bool \<Rightarrow> (string \<times> string) list \<Rightarrow> string \<times> bool" where
  "getPath_keys (p, is_key) [] = (p, is_key)"
| "getPath_keys (p, is_key) ((k, v) # kvs) =
     getPath_keys (p @ (if is_key then '' and '' else ''['') @ k @ ''='' @ [CHR 0x27] @ v @ [CHR 0x27], True) kvs"

definition getPath :: "string \<Rightarrow> PathElem list \<Rightarrow> string" where
  "getPath prefix pes =
     foldl (\<lambda>p pe. case getPath_keys (p @ ''/'' @ pe_Name pe, False) (pe_Key pe) of
                     (q, is_key) \<Rightarrow> if is_key then q @ '']'' else q) prefix pes"


section \<open>The regular expressions\<close>

text \<open>The text up to the next quote on the same line, and the rest after it.\<close>

fun upToQuote :: "string \<Rightarrow> (string \<times> string) option" where
  "upToQuote [] = None"
| "upToQuote (c # cs) =
     (if c = CHR 0x22 then Some ([], cs)
      else if c = CHR 0x0A then None
      else map_option (\<lambda>(a, r). (c # a, r)) (upToQuote cs))"

lemma upToQuote_length: "upToQuote s = Some (a, r) \<Longrightarrow> length r < length s"
  by (induction s arbitrary: a) (auto split: if_splits)

definition nameMark :: string where "nameMark = ''name:'' @ [CHR 0x22]"
definition valMark :: string where "valMark = ''val:{''"

text \<open>All matches of \<open>name:"(.*?)"\<close>, the group of each.\<close>

function findNames :: "string \<Rightarrow> string list" where
  "findNames [] = []"
| "findNames (c # cs) =
     (if hasPrefix nameMark (c # cs) then
        (case upToQuote (drop (length nameMark) (c # cs)) of
           Some (n, r) \<Rightarrow> n # findNames r
         | None \<Rightarrow> findNames cs)
      else findNames cs)"
  by pat_completeness auto
termination
proof (relation "measure length")
  fix c cs a and n r :: string
  assume "upToQuote (drop (length nameMark) (c # cs)) = Some a" "(n, r) = a"
  hence "length r < length (drop (length nameMark) (c # cs))" using upToQuote_length by metis
  thus "(r, c # cs) \<in> measure length" by simp
qed auto

text \<open>The text before the last closing brace of the first line.\<close>

definition firstLine :: "string \<Rightarrow> string" where
  "firstLine s = takeWhile (\<lambda>c. c \<noteq> CHR 0x0A) s"

definition upToLastBrace :: "string \<Rightarrow> string option" where
  "upToLastBrace s =
     (case dropWhile (\<lambda>c. c \<noteq> CHR ''}'') (rev (firstLine s)) of [] \<Rightarrow> None | _ # r \<Rightarrow> Some (rev r))"

text \<open>The group of the first match of \<open>val:\{(.*)\}\<close>.\<close>

fun findVal :: "string \<Rightarrow> string option" where
  "findVal [] = None"
| "findVal (c # cs) =
     (if hasPrefix valMark (c # cs) then
        (case upToLastBrace (drop (length valMark) (c # cs)) of Some g \<Rightarrow> Some g | None \<Rightarrow> findVal cs)
      else findVal cs)"


section \<open>The log of a response\<close>

abbreviation "tab \<equiv> [CHR 0x09]"
abbreviation "nl \<equiv> [CHR 0x0A]"

definition strField :: "string \<Rightarrow> string \<Rightarrow> (string \<times> string) list" where
  "strField name s = (if s \<noteq> [] \<and> s \<noteq> ''Unsupported type'' then [(name, convertToString (VString s))] else [])"

definition numField :: "string \<Rightarrow> int \<Rightarrow> (string \<times> string) list" where
  "numField name n = (if n \<noteq> 0 then [(name, convertToString (VFloat64 (f64_of_int n)))] else [])"

text \<open>The header fields that are written, in the order of \<open>outJHeaderKeys\<close>.\<close>

definition headerFields :: "TelemetryHeaderExt option \<Rightarrow> (string \<times> string) list" where
  "headerFields hdrExt =
     (case hdrExt of
        None \<Rightarrow> []
      | Some x \<Rightarrow>
          strField ''system_id'' (x_SystemId x) @ numField ''component_id'' (uint (x_ComponentId x)) @
          strField ''sensor_name'' (x_SensorName x) @ strField ''subscribed_path'' (x_SubscribedPath x) @
          strField ''streamed_path'' (x_StreamedPath x) @ strField ''component'' (x_Component x) @
          numField ''sequence_number'' (uint (x_SequenceNumber x)) @ numField ''export_timestamp'' (sint (x_ExportTimestamp x)))"

record json_update =
  ju_elems :: "string list"
  ju_val :: "(string \<times> string) option"

record json_notification =
  jn_timestamp :: "64 word"
  jn_prefix :: string
  jn_del_paths :: "string list"
  jn_updates :: "json_update list"

record gnmi_json =
  gj_header :: "(string \<times> string) list"
  gj_notification :: "json_notification option"

definition elemText :: "PathElem \<Rightarrow> string" where
  "elemText pe =
     tab @ tab @ ''elem {'' @ nl @ tab @ tab @ tab @ ''name: '' @ pe_Name pe @ nl @
     concat (map (\<lambda>(k, v). tab @ tab @ tab @ ''key {'' @ nl @ tab @ tab @ tab @ tab @ ''key: '' @ k @ nl @
       tab @ tab @ tab @ tab @ ''value: '' @ v @ nl @ tab @ tab @ tab @ ''}'' @ nl) (pe_Key pe)) @
     tab @ tab @ ''}'' @ nl"

definition prefixText :: "gnmi_Path option \<Rightarrow> string" where
  "prefixText prefix =
     (case prefix of
        None \<Rightarrow> []
      | Some p \<Rightarrow>
          tab @ ''prefix {'' @ nl @ (if gp_Origin p \<noteq> [] then tab @ tab @ ''origin: '' @ gp_Origin p @ nl else []) @
          concat (map elemText (gp_Elem p)) @ tab @ ''}'' @ nl)"

text \<open>One update: the text and the JSON form. The value is indexed without a test.\<close>

definition updateOut :: "(Update \<Rightarrow> string) \<Rightarrow> Update \<Rightarrow> (string \<times> json_update) go" where
  "updateOut us u =
     (let elems = findNames (us u);
          head = ''Update {'' @ nl @ tab @ ''path {'' @ nl @
            concat (map (\<lambda>n. tab @ tab @ ''elem {'' @ nl @ tab @ tab @ tab @ ''name: '' @ n @ nl @ tab @ tab @ ''}'' @ nl) elems);
          foot = tab @ ''}'' @ nl
      in case findVal (us u) of
           None \<Rightarrow> Inr (head @ foot, \<lparr>ju_elems = elems, ju_val = None\<rparr>)
         | Some g \<Rightarrow>
             let keyVal = go_splitN2 g '':''
             in bindR (at keyVal 0) (\<lambda>fieldName. bindR (at keyVal 1) (\<lambda>val.
                  Inr (head @ tab @ tab @ ''val {'' @ nl @ tab @ tab @ tab @ fieldName @ '': '' @ val @ nl @ tab @ tab @ ''}'' @ nl @ foot,
                       \<lparr>ju_elems = elems, ju_val = Some (fieldName, go_trim val [CHR 0x22])\<rparr>))))"

fun updatesOut :: "(Update \<Rightarrow> string) \<Rightarrow> Update list \<Rightarrow> (string \<times> json_update list) go" where
  "updatesOut us [] = Inr ([], [])"
| "updatesOut us (u # ups) =
     bindR (updateOut us u) (\<lambda>(s, j). bindR (updatesOut us ups) (\<lambda>(s', js). Inr (s @ s', j # js)))"

definition logPrefix :: "JCtx \<Rightarrow> gnmi_Path option \<Rightarrow> string" where
  "logPrefix jctx prefix =
     (let p0 = (if v_RemoveNS (Vendor (config jctx)) then []
                else if get_Origin prefix \<noteq> [] then get_Origin prefix @ '':'' else [])
      in case prefix of None \<Rightarrow> p0 | Some p \<Rightarrow> getPath p0 (gp_Elem p))"

definition notificationOut :: "(Update \<Rightarrow> string) \<Rightarrow> JCtx \<Rightarrow> Notification \<Rightarrow> (string \<times> json_notification) go" where
  "notificationOut us jctx n =
     (let prefixPath = logPrefix jctx (n_Prefix n);
          dels = map (\<lambda>d. getPath prefixPath (gp_Elem d)) (n_Delete n)
      in bindR (updatesOut us (n_Update n)) (\<lambda>(s, js).
           Inr (''Update {'' @ nl @ tab @ ''timestamp: '' @ show_int (sint (n_Timestamp n)) @ nl @ prefixText (n_Prefix n) @
                  concat (map (\<lambda>d. ''del_path: '' @ d @ nl) dels) @ s @ ''}'' @ nl,
                \<lparr>jn_timestamp = n_Timestamp n, jn_prefix = prefixPath, jn_del_paths = dels, jn_updates = js\<rparr>)))"

datatype internal_out = OutText string | OutJSON gnmi_json

definition jLogInternalJtimonForGnmi ::
  "(Update \<Rightarrow> string) \<Rightarrow> Flags \<Rightarrow> JCtx \<Rightarrow> gnmiParseOutputT \<Rightarrow> SubscribeResponse \<Rightarrow> internal_out option go" where
  "jLogInternalJtimonForGnmi us fl jctx po rsp =
     (let i = InternalJtimon (config jctx)
      in case jHeader po of
           None \<Rightarrow> Inr None
         | Some h \<Rightarrow>
             if ij_logger i = None \<or> ij_DataLog i = [] then Inr None
             else
               let fields = headerFields (jh_hdrExt h);
                   s0 = concat (map (\<lambda>(k, v). k @ '': '' @ v @ nl) fields)
               in case r_Update rsp of
                    None \<Rightarrow> Inr (Some (if f_outJSON fl then OutJSON \<lparr>gj_header = fields, gj_notification = None\<rparr> else OutText s0))
                  | Some n \<Rightarrow>
                      bindR (notificationOut us jctx n) (\<lambda>(s, j).
                        Inr (Some (if f_outJSON fl then OutJSON \<lparr>gj_header = fields, gj_notification = Some j\<rparr>
                                   else OutText (s0 @ s)))))"

text \<open>
  The handler of a response with its call of the data log, which stands between the publication to Prometheus and the one
  to InfluxDB; \<open>gnmiDeliver\<close> and \<open>gnmiHandleResponse\<close> are the same without this call.
\<close>

definition gnmiDeliverLogged ::
  "(Update \<Rightarrow> string) \<Rightarrow> Flags \<Rightarrow> influx_lib \<Rightarrow> int \<Rightarrow> JCtx \<Rightarrow> gnmiParseOutputT \<Rightarrow> SubscribeResponse \<Rightarrow>
   (handled \<times> internal_out option) go" where
  "gnmiDeliverLogged us fl lib now jctx po rsp =
     (if \<not> eosEnabled jctx \<and> \<not> receivedSyncRsp jctx \<and> dropInitialSync po then Inr ((Some DroppedSync, jctx, []), None)
      else if mName po = [] then Inr ((Some NoMeasurement, jctx, []), None)
      else
        bindR (if isInternalJtimonLogging jctx then jLogInternalJtimonForGnmi us fl jctx (finishOutput jctx po) rsp else Inr None)
          (\<lambda>out. Inr (gnmiDeliver fl lib now jctx po, out)))"

definition gnmiHandleLogged ::
  "(Update \<Rightarrow> string) \<Rightarrow> Flags \<Rightarrow> influx_lib \<Rightarrow> pb_lib \<Rightarrow> int \<Rightarrow> JCtx \<Rightarrow> SubscribeResponse \<Rightarrow> (handled \<times> internal_out option) go" where
  "gnmiHandleLogged us fl lib pb now jctx0 rsp =
     (let jctx = updateStats fl jctx0
      in if r_SyncResponse rsp then Inr ((None, jctx\<lparr>receivedSyncRsp := True\<rparr>, []), None)
         else
           bindR (gnmiParseNotification pb (\<not> v_RemoveNS (Vendor (config jctx))) rsp emptyOutput
             (EnableUintSupport (config jctx))) (\<lambda>parsed.
             case parsed of
               Inl _ \<Rightarrow> Inr ((Some ParseFailed, jctx, []), None)
             | Inr po \<Rightarrow> gnmiDeliverLogged us fl lib now (updateStatsKV fl jctx (inKvs po)) po rsp))"


section \<open>Lemmas\<close>

text \<open>A gNMI path in the form of the XML paths.\<close>

definition asXml :: "PathElem list \<Rightarrow> xelem list" where
  "asXml pes = map (\<lambda>pe. (pe_Name pe, pe_Key pe)) pes"

lemma getPath_keys_more:
  "getPath_keys (p, True) kvs = (p @ concat (map (\<lambda>kv. '' and '' @ xrender_kv kv) kvs), True)"
  by (induction kvs arbitrary: p) (auto simp: xrender_kv_def)

lemma go_join_concat: "go_join (x # xs) sep = x @ concat (map (\<lambda>y. sep @ y) xs)"
  by (induction xs arbitrary: x) auto

lemma getPath_elem:
  "(case getPath_keys (p @ ''/'' @ pe_Name pe, False) (pe_Key pe) of (q, is_key) \<Rightarrow> if is_key then q @ '']'' else q) =
     p @ xrender_elem (pe_Name pe, pe_Key pe)"
proof (cases "pe_Key pe")
  case (Cons kv kvs)
  thus ?thesis
    by (cases kv) (simp add: getPath_keys_more xrender_elem_def go_join_concat comp_def, simp add: xrender_kv_def)
qed (simp add: xrender_elem_def)

lemma getPath_xrender: "getPath p pes = p @ xrender (asXml pes)"
proof (induction pes arbitrary: p)
  case (Cons pe pes)
  thus ?case using getPath_elem[of p pe] by (simp add: getPath_def xrender_def asXml_def)
qed (simp add: getPath_def xrender_def asXml_def)

lemma xtags_path_tags: "xtags P (asXml pes) = path_tags P pes"
  by (induction pes arbitrary: P) (simp_all add: asXml_def)

lemma xpath_only_path_text: "xpath_only (asXml pes) = path_text pes"
  by (simp add: xpath_only_def path_text_def asXml_def comp_def)

lemma splitN2_length: "length (go_splitN2 g '':'') = (if CHR '':'' \<in> set g then 2 else 1)"
proof -
  have "(cut '':'' g = None) = (CHR '':'' \<notin> set g)" by (induction g) auto
  thus ?thesis by (auto simp: go_splitN2_def split: option.split)
qed

lemma splitN2_not_Nil [simp]: "go_splitN2 g sep \<noteq> []"
  by (simp add: go_splitN2_def split: option.split)

text \<open>An update whose value group has no colon, as the text of an empty value has it.\<close>

definition bareVal :: "string \<Rightarrow> bool" where
  "bareVal t \<longleftrightarrow> (case findVal t of None \<Rightarrow> False | Some g \<Rightarrow> CHR '':'' \<notin> set g)"

lemma updateOut_panic:
  "updateOut us u = Inl e \<longleftrightarrow> e = IndexOutOfRange \<and> bareVal (us u)"
  by (auto simp: updateOut_def bareVal_def Let_def at_def splitN2_length split: option.split)

lemma updatesOut_panic:
  "updatesOut us ups = Inl e \<longleftrightarrow> e = IndexOutOfRange \<and> list_ex (\<lambda>u. bareVal (us u)) ups"
proof (induction ups)
  case (Cons u ups)
  show ?case
  proof (cases "updateOut us u")
    case (Inl e')
    with updateOut_panic[of us u e'] updateOut_panic[of us u e] show ?thesis by auto
  next
    case (Inr r)
    hence "\<not> bareVal (us u)" using updateOut_panic[of us u IndexOutOfRange] by auto
    with Inr Cons show ?thesis by (cases "updatesOut us ups") (auto split: prod.split)
  qed
qed simp


lemma gnmiDeliverLogged_deliver: "gnmiDeliverLogged us fl lib now jctx po rsp = Inr (h, out) \<Longrightarrow> h = gnmiDeliver fl lib now jctx po"
  by (auto simp: gnmiDeliverLogged_def gnmiDeliver_def bindR_Inr_iff split: if_splits)

lemma gnmiDeliverLogged_off:
  "\<not> isInternalJtimonLogging jctx \<Longrightarrow> gnmiDeliverLogged us fl lib now jctx po rsp = Inr (gnmiDeliver fl lib now jctx po, None)"
  by (simp add: gnmiDeliverLogged_def gnmiDeliver_def)

lemma logging_updateStats [simp]:
  "isInternalJtimonLogging (updateStats fl jctx) = isInternalJtimonLogging jctx"
  "isInternalJtimonLogging (updateStatsKV fl jctx n) = isInternalJtimonLogging jctx"
  by (simp_all add: isInternalJtimonLogging_def updateStats_def updateStatsKV_def)


section \<open>Properties\<close>

text \<open>
  C17. The path that the data log shows for a gNMI path and the path that goes to the database agree: split into path and
  tags the way paths of native telemetry are, the logged path gives the path and the tags that \<open>gnmiParsePath\<close> makes of
  the same elements (no aliases configured, names and keys as in the round trip of XML paths).
\<close>

theorem getPath_agrees:
  assumes "reCompiled (influxCtx jctx)" "jalias jctx = None" "list_all xelem_wf (asXml pes)"
  shows "\<exists>kvs fs. gnmiParsePath [] pes [] lookFor = (fst kvs, snd kvs, fs) \<and> spitTagsNPath jctx (getPath [] pes) = Inr kvs"
proof -
  have "spitTagsNPath jctx (xrender (asXml pes)) = Inr (xpath_only (asXml pes), mputs [] (xtags [] (asXml pes)))"
    using assms spitLoop_render[of "asXml pes" "[]" "[]"] by (simp add: spitTagsNPath_def spit_def list_all_iff)
  thus ?thesis by (simp add: getPath_xrender xtags_path_tags xpath_only_path_text gnmiParsePath_eq)
qed

theorem getPath_agrees_witness:
  "spitTagsNPath ex_jctx (getPath [] ex_elems) = Inr (''/interfaces/interface'', [(''/interfaces/interface/@name'', ''ge-0/0/0'')])"
proof -
  have c: "reCompiled (influxCtx ex_jctx)" "jalias ex_jctx = None" by (simp_all add: ex_jctx_def zero_defs)
  have "list_all xelem_wf (asXml ex_elems)" by code_simp
  from getPath_agrees[OF c this, of "[]"] obtain kvs fs where
    "gnmiParsePath [] ex_elems [] [] = (fst kvs, snd kvs, fs)" "spitTagsNPath ex_jctx (getPath [] ex_elems) = Inr kvs" by blast
  moreover have "gnmiParsePath [] ex_elems [] [] = (''/interfaces/interface'', [(''/interfaces/interface/@name'', ''ge-0/0/0'')], [])"
    by code_simp
  ultimately show ?thesis by (cases kvs) simp
qed

text \<open>
  The data log does not change what a response does: where the handler with the log returns, its result is that of the
  handler without it, and without a data log the two are the same, panics included.
\<close>

theorem gnmiHandleLogged_transparent:
  "(gnmiHandleLogged us fl lib pb now jctx rsp = Inr (h, out) \<longrightarrow> gnmiHandleResponse fl lib pb now jctx rsp = Inr h) \<and>
   (\<not> isInternalJtimonLogging jctx \<longrightarrow> gnmiHandleLogged us fl lib pb now jctx rsp =
      bindR (gnmiHandleResponse fl lib pb now jctx rsp) (\<lambda>h. Inr (h, None)))"
proof (cases "gnmiParseNotification pb (\<not> v_RemoveNS (Vendor (config (updateStats fl jctx)))) rsp emptyOutput
             (EnableUintSupport (config (updateStats fl jctx)))")
  case (Inr parsed)
  thus ?thesis
    by (cases parsed) (auto simp: gnmiHandleLogged_def gnmiHandleResponse_def Let_def gnmiDeliverLogged_off dest: gnmiDeliverLogged_deliver)
qed (simp add: gnmiHandleLogged_def gnmiHandleResponse_def Let_def)

text \<open>
  Writing a response to the data log panics exactly when the text of one of its updates has a value without a colon, as
  that of an update with an empty value: the part after the colon is indexed without a test.
\<close>

theorem jLogInternalJtimonForGnmi_panics:
  assumes "jHeader po = Some h" "ij_logger (InternalJtimon (config jctx)) \<noteq> None"
    "ij_DataLog (InternalJtimon (config jctx)) \<noteq> []" "r_Update rsp = Some n"
  shows "jLogInternalJtimonForGnmi us fl jctx po rsp = Inl e \<longleftrightarrow>
    e = IndexOutOfRange \<and> list_ex (\<lambda>u. bareVal (us u)) (n_Update n)"
  using assms updatesOut_panic[of us "n_Update n" e]
  by (cases "updatesOut us (n_Update n)") (auto simp: jLogInternalJtimonForGnmi_def notificationOut_def Let_def)

definition ex_log_jctx :: JCtx where
  "ex_log_jctx = zeroJCtx\<lparr>config := zeroConfig\<lparr>InternalJtimon := (InternalJtimon zeroConfig)\<lparr>ij_DataLog := ''d'', ij_logger := Some (File ''d'')\<rparr>\<rparr>\<rparr>"

definition ex_empty_update :: SubscribeResponse where
  "ex_empty_update = \<lparr>r_Update = Some \<lparr>n_Timestamp = 0, n_Prefix = None, n_Update = [\<lparr>u_Path = None, u_Val = None\<rparr>], n_Delete = []\<rparr>,
     r_SyncResponse = False, r_Extension = []\<rparr>"

theorem jLogInternalJtimonForGnmi_panics_witness:
  "jLogInternalJtimonForGnmi (\<lambda>_. ''path:{elem:{}} val:{}'') zeroFlags ex_log_jctx
     (emptyOutput\<lparr>jHeader := Some \<lparr>jh_hdr = None, jh_hdrExt = None\<rparr>\<rparr>) ex_empty_update = Inl IndexOutOfRange"
proof -
  have "bareVal ''path:{elem:{}} val:{}''" by code_simp
  thus ?thesis
    by (subst jLogInternalJtimonForGnmi_panics[where h = "\<lparr>jh_hdr = None, jh_hdrExt = None\<rparr>" and n = "the (r_Update ex_empty_update)"])
      (simp_all add: ex_log_jctx_def ex_empty_update_def zero_defs)
qed

end
