(* ===== verification/SimGnmi.thy ===== *)
theory SimGnmi
  imports GnmiParse
begin

text \<open>
  The simulator's copy of the gNMI utilities, jtisim/gnmi_utils.go. It is an earlier version of gnmi_utils.go: paths are split
  at the first brackets, the origin is always part of the prefix, unsigned numbers are always floating point numbers,
  infinities are kept, and leaf-lists keep their floating point numbers. The definitions follow the copy; the lemmas say where
  the simulator and the collector agree.
\<close>

section \<open>Paths\<close>

text \<open>
  The pairs of a bracket: the key is everything before the first \<open>=\<close>, the value loses its quotes and the closing bracket. A
  pair without \<open>=\<close> and an empty value panic.
\<close>

fun simPairs :: "(string, string) gomap \<Rightarrow> string list \<Rightarrow> (string, string) gomap go" where
  "simPairs m [] = Inr m"
| "simPairs m (kvpair # rest) =
     (let kv = go_split (go_trimSpace kvpair) ''=''
      in bindR (at kv 1) (\<lambda>v.
           let idxval = go_trimPrefix v [CHR 0x22]
           in if idxval = [] then Inl SliceBounds
              else
                let idxval' = (if last idxval \<noteq> CHR '']'' then go_trimSuffix idxval [CHR 0x22]
                               else go_trimSuffix idxval [CHR 0x22, CHR '']''])
                in bindR (at kv 0) (\<lambda>k. simPairs (mput m k idxval') rest)))"

definition simElem :: "string \<Rightarrow> PathElem go" where
  "simElem s =
     (let kvSplit = go_split s ''[''
      in bindR (at kvSplit 0) (\<lambda>n.
           if length kvSplit = 1 then Inr \<lparr>pe_Name = n, pe_Key = []\<rparr>
           else bindR (at kvSplit 1) (\<lambda>b. bindR (simPairs [] (go_split b ''and'')) (\<lambda>key. Inr \<lparr>pe_Name = n, pe_Key = key\<rparr>))))"

fun simElems :: "string list \<Rightarrow> PathElem list go" where
  "simElems [] = Inr []"
| "simElems (s # ss) =
     (if s = [] then simElems ss else bindR (simElem s) (\<lambda>e. bindR (simElems ss) (\<lambda>es. Inr (e # es))))"

definition simXPathTognmiPath :: "string \<Rightarrow> (string + gnmi_Path) go" where
  "simXPathTognmiPath xpath =
     bindR (simElems (tl (go_split xpath ''/''))) (\<lambda>es.
       if length es = 0 then Inr (Inl (''Erroneous path: '' @ xpath))
       else Inr (Inr \<lparr>gp_Origin = [], gp_Target = [], gp_Elem = es\<rparr>))"

text \<open>The modes and the intervals have the text of the collector's functions.\<close>

definition simGnmiMode :: "string \<Rightarrow> SubscriptionMode" where
  "simGnmiMode inMode =
     (if inMode = ''on-change'' then ON_CHANGE else if inMode = ''target-defined'' then TARGET_DEFINED else SAMPLE)"

definition simGnmiFreq :: "SubscriptionMode \<Rightarrow> 64 word \<Rightarrow> SubscriptionMode \<times> 64 word" where
  "simGnmiFreq mode inFreq =
     (if mode = ON_CHANGE \<or> inFreq = 0 then (ON_CHANGE, 0)
      else
        let freq = (inFreq * gGnmiFreqUnits) div 1000
        in if freq \<noteq> 0 \<and> freq < gGnmiFreqMin then (mode, gGnmiFreqMin) else (mode, freq))"


section \<open>Notifications\<close>

text \<open>
  The map of the keys may be nil (\<^term>\<open>None\<close>), as in the call of the simulator's server: storing a key then panics.
\<close>

definition putKey :: "(string, string) gomap option \<Rightarrow> string \<Rightarrow> string \<Rightarrow> (string, string) gomap option go" where
  "putKey m k v = (case m of None \<Rightarrow> Inl NilMapWrite | Some m' \<Rightarrow> Inr (Some (mput m' k v)))"

fun putKeys :: "string \<Rightarrow> (string, string) gomap option \<Rightarrow> (string \<times> string) list \<Rightarrow> (string, string) gomap option go" where
  "putKeys prefix m [] = Inr m"
| "putKeys prefix m ((k, v) # kvs) = bindR (putKey m (prefix @ ''/'' @ ''@'' @ k) v) (\<lambda>m'. putKeys prefix m' kvs)"

fun simParsePath ::
  "string \<Rightarrow> PathElem list \<Rightarrow> (string, string) gomap option \<Rightarrow> string list \<Rightarrow> string list \<Rightarrow>
   (string \<times> (string, string) gomap option \<times> string list) go" where
  "simParsePath prefix [] m lookFor found = Inr (prefix, m, found)"
| "simParsePath prefix (pe # pes) m lookFor found =
     (let prefix' = prefix @ ''/'' @ pe_Name pe
      in bindR (putKeys prefix' m (pe_Key pe)) (\<lambda>m'.
           simParsePath prefix' pes m' lookFor
             (if length lookFor \<noteq> 0 \<and> hasPrefix ''__'' (pe_Name pe) \<and> pe_Name pe \<in> set lookFor
              then found @ [pe_Name pe] else found)))"

definition simGnmiParsePath ::
  "string \<Rightarrow> PathElem list \<Rightarrow> (string, string) gomap option \<Rightarrow> string list \<Rightarrow>
   (string \<times> (string, string) gomap option \<times> string list) go" where
  "simGnmiParsePath prefix pes m lookFor = simParsePath prefix pes m lookFor []"

text \<open>A leaf-list: the collector's loop, with a slice for the floating point numbers.\<close>

fun simLeafStep :: "leaf_acc \<times> f64 list \<Rightarrow> gval \<Rightarrow> leaf_acc \<times> f64 list" where
  "simLeafStep (a, fs) (VFloat64 f) = (a\<lparr>la_value := VFloats (fs @ [f])\<rparr>, fs @ [f])"
| "simLeafStep (a, fs) v = (leafStep a v, fs)"

text \<open>A \<open>double_val\<close> has no case of its own: its string is read, which is empty.\<close>

fun simGnmiParseValue :: "TypedValue \<Rightarrow> bool \<Rightarrow> gval option" where
  "simGnmiParseValue (StringVal s) ts = Some (VString s)"
| "simGnmiParseValue (IntVal i) ts = Some (VInt64 i)"
| "simGnmiParseValue (UintVal u) ts = Some (if \<not> ts then VFloat64 (f64_of_int (uint u)) else VInt64 u)"
| "simGnmiParseValue (JsonIetfVal j) ts = parseJson j"
| "simGnmiParseValue (JsonVal j) ts = parseJson j"
| "simGnmiParseValue (ProtoBytes b) ts = Some (VBytes b)"
| "simGnmiParseValue (BoolVal b) ts = Some (VBool b)"
| "simGnmiParseValue (BytesVal b) ts =
     Some (VString (if length b = 4 then f64_fixed 2 (f64_of_f32 (le_word32 b)) else hex_encode b))"
| "simGnmiParseValue (AsciiVal s) ts = Some (VString s)"
| "simGnmiParseValue (AnyVal a) ts = Some (VAny a)"
| "simGnmiParseValue (DoubleVal d) ts = Some (VString [])"
| "simGnmiParseValue (DecimalVal digits precision) ts =
     Some (VFloat64 (f64_div (f64_of_int (sint digits)) (pow10 (unat precision))))"
| "simGnmiParseValue (FloatVal f) ts = Some (VFloat64 (f64_of_f32 f))"
| "simGnmiParseValue (LeaflistVal vals) ts =
     Some (la_value (fst (foldl simLeafStep (leaf_empty, [])
       (map (\<lambda>v. case simGnmiParseValue v False of None \<Rightarrow> VNil | Some g \<Rightarrow> g) vals))))"

definition simVal :: "TypedValue option \<Rightarrow> bool \<Rightarrow> gval option" where
  "simVal v ts = (case v of None \<Rightarrow> Some (VString []) | Some t \<Rightarrow> simGnmiParseValue t ts)"

definition simPrefix :: "gnmi_Path option \<Rightarrow> gnmiParseOutputT \<Rightarrow> (string \<times> (string, string) gomap option) go" where
  "simPrefix prefix po =
     (if prefixPath po = [] then
        let p0 = (if get_Origin prefix \<noteq> [] then get_Origin prefix @ '':'' else [])
        in bindR (simGnmiParsePath p0 (get_Elem prefix) (Some (kvpairs po)) []) (\<lambda>(p, m, _). Inr (p, m))
      else Inr (prefixPath po, Some (kvpairs po)))"

type_synonym sim_upd = "(string, string) gomap option \<times> (string, gval) gomap \<times> jnprXpathDetails \<times> bool"

text \<open>One update; the inner option is the error of \<open>gnmiParseValue\<close>.\<close>

definition simUpdateStep :: "string \<Rightarrow> sim_upd \<Rightarrow> Update \<Rightarrow> sim_upd option go" where
  "simUpdateStep prefix st u =
     (case st of (kvs, xpathValue, jx, jset) \<Rightarrow>
        case u_Path u of
          None \<Rightarrow> Inr (Some st)
        | Some path \<Rightarrow>
            bindR (simGnmiParsePath prefix (gp_Elem path) kvs
                     [gGnmiJuniperHeaderFieldName, gGnmiJuniperPublishTsFieldName])
              (\<lambda>(xpath, kvs', internalFields). Inr (
                 if internalFields = [] then
                   (case simVal (u_Val u) False of
                      None \<Rightarrow> None
                    | Some v \<Rightarrow> Some (kvs', mput xpathValue xpath v, jx, jset))
                 else if gGnmiJuniperHeaderFieldName \<in> set internalFields then
                   Some (kvs', xpathValue,
                     jx\<lparr>jx_hdrXpath := xpath, jx_xPaths := mput (jx_xPaths jx) xpath (orNil (simVal (u_Val u) False))\<rparr>, True)
                 else if gGnmiJuniperPublishTsFieldName \<in> set internalFields then
                   Some (kvs', xpathValue,
                     jx\<lparr>jx_publishTsXpath := xpath, jx_xPaths := mput (jx_xPaths jx) xpath (orNil (simVal (u_Val u) True))\<rparr>, True)
                 else Some (kvs', xpathValue, jx, True))))"

fun simUpdateLoop :: "string \<Rightarrow> sim_upd \<Rightarrow> Update list \<Rightarrow> sim_upd option go" where
  "simUpdateLoop prefix st [] = Inr (Some st)"
| "simUpdateLoop prefix st (u # us) =
     bindR (simUpdateStep prefix st u) (\<lambda>r. case r of None \<Rightarrow> Inr None | Some st' \<Rightarrow> simUpdateLoop prefix st' us)"

definition keysOf :: "(string, string) gomap option \<Rightarrow> (string, string) gomap" where
  "keysOf m = (case m of None \<Rightarrow> [] | Some k \<Rightarrow> k)"

definition simGnmiParseUpdates :: "gnmi_Path option \<Rightarrow> Update list \<Rightarrow> gnmiParseOutputT \<Rightarrow> gnmiParseOutputT option go" where
  "simGnmiParseUpdates prefix updates po =
     bindR (simPrefix prefix po) (\<lambda>(p, kvs).
       bindR (simUpdateLoop p (kvs, xpaths po, \<lparr>jx_xPaths = [], jx_hdrXpath = [], jx_publishTsXpath = []\<rparr>, False) updates)
         (\<lambda>r. Inr (case r of
            None \<Rightarrow> None
          | Some (kvs', xs, jx, jset) \<Rightarrow>
              Some (po\<lparr>prefixPath := p, kvpairs := keysOf kvs', xpaths := xs, jXpaths := (if jset then Some jx else None)\<rparr>))))"

fun simDeleteLoop ::
  "string \<Rightarrow> (string, string) gomap option \<times> (string, gval) gomap \<Rightarrow> gnmi_Path list \<Rightarrow>
   ((string, string) gomap option \<times> (string, gval) gomap) go" where
  "simDeleteLoop prefix (kvs, xs) [] = Inr (kvs, xs)"
| "simDeleteLoop prefix (kvs, xs) (d # ds) =
     bindR (simGnmiParsePath prefix (gp_Elem d) kvs []) (\<lambda>(xpath, kvs', _).
       simDeleteLoop prefix (kvs', mput xs xpath VNil) ds)"

definition simGnmiParseDeletes :: "gnmi_Path option \<Rightarrow> gnmi_Path list \<Rightarrow> gnmiParseOutputT \<Rightarrow> gnmiParseOutputT go" where
  "simGnmiParseDeletes prefix deletes po =
     bindR (simPrefix prefix po) (\<lambda>(p, kvs).
       bindR (simDeleteLoop p (kvs, xpaths po) deletes) (\<lambda>(kvs', xs).
         Inr (po\<lparr>prefixPath := p, kvpairs := keysOf kvs', xpaths := xs\<rparr>)))"


text \<open>\<open>formJuniperTelemetryHdr\<close> has the text of the collector's function.\<close>

definition simFormJuniperTelemetryHdr :: "pb_lib \<Rightarrow> jnprXpathDetails option \<Rightarrow> Extension list \<Rightarrow> hdr_result" where
  "simFormJuniperTelemetryHdr = formJuniperTelemetryHdr"


section \<open>Lemmas: notifications\<close>

lemma putKeys_some:
  "putKeys prefix (Some m) kvs = Inr (Some (foldl (\<lambda>m (k, v). mput m (prefix @ ''/'' @ ''@'' @ k) v) m kvs))"
  by (induction kvs arbitrary: m) (auto simp: putKey_def)

lemma putKeys_none: "putKeys prefix None kvs = (if kvs = [] then Inr None else Inl NilMapWrite)"
  by (cases kvs) (auto simp: putKey_def)

text \<open>With a map for the keys, the copy does what \<open>gnmiParsePath\<close> does.\<close>

lemma simParsePath_some:
  "simParsePath prefix pes (Some m) lookFor found =
     (case foldl (parseElem lookFor) (prefix, m, found) pes of (p, m', f) \<Rightarrow> Inr (p, Some m', f))"
  by (induction pes arbitrary: prefix m found) (simp_all add: putKeys_some parseElem_def Let_def)

lemma simGnmiParsePath_some:
  "simGnmiParsePath prefix pes (Some m) lookFor =
     (case gnmiParsePath prefix pes m lookFor of (p, m', f) \<Rightarrow> Inr (p, Some m', f))"
  by (simp add: simGnmiParsePath_def gnmiParsePath_def simParsePath_some)

text \<open>Without one, a path with keys panics.\<close>

lemma simParsePath_none:
  "simParsePath prefix pes None lookFor found =
     (if list_ex (\<lambda>pe. pe_Key pe \<noteq> []) pes then Inl NilMapWrite
      else case foldl (parseElem lookFor) (prefix, [], found) pes of (p, m, f) \<Rightarrow> Inr (p, None, f))"
  by (induction pes arbitrary: prefix found) (simp_all add: putKeys_none parseElem_def Let_def)

lemma simPrefix_some:
  "simPrefix prefix po = (case parsePrefix True prefix po of (p, m) \<Rightarrow> Inr (p, Some m))"
  by (simp add: simPrefix_def parsePrefix_def simGnmiParsePath_some Let_def split: prod.split)

text \<open>
  The values that both read alike: no \<open>double_val\<close>, no infinity, and no floating point number in a leaf-list.
\<close>

definition notFloat :: "gval option \<Rightarrow> bool" where
  "notFloat g = (case g of Some (VFloat64 _) \<Rightarrow> False | _ \<Rightarrow> True)"

definition notInf :: "f64 \<Rightarrow> bool" where
  "notInf w \<longleftrightarrow> \<not> f64_is_inf w 1 \<and> \<not> f64_is_inf w (- 1)"

fun ordinary :: "TypedValue \<Rightarrow> bool" where
  "ordinary (DoubleVal d) = False"
| "ordinary (DecimalVal digits precision) = notInf (f64_div (f64_of_int (sint digits)) (pow10 (unat precision)))"
| "ordinary (FloatVal f) = notInf (f64_of_f32 f)"
| "ordinary (LeaflistVal vs) = list_all (\<lambda>v. ordinary v \<and> notFloat (simGnmiParseValue v False)) vs"
| "ordinary _ = True"

lemma simLeaf_fold:
  "\<forall>g \<in> set gs. notFloat (Some g) \<Longrightarrow> foldl simLeafStep (a, fs) gs = (foldl leafStep a gs, fs)"
proof (induction gs arbitrary: a)
  case (Cons g gs)
  then show ?case by (cases g) (simp_all add: notFloat_def)
qed simp

lemma simParseValue_ordinary: "ordinary v \<Longrightarrow> simGnmiParseValue v ts = gnmiParseValue v ts False"
proof (induction v arbitrary: ts)
  case (LeaflistVal vs)
  let ?f = "\<lambda>v. case simGnmiParseValue v False of None \<Rightarrow> VNil | Some g \<Rightarrow> g"
  have e: "map ?f vs = map (\<lambda>v. case gnmiParseValue v False False of None \<Rightarrow> VNil | Some g \<Rightarrow> g) vs"
    using LeaflistVal by (simp add: list_all_iff)
  have "\<forall>g \<in> set (map ?f vs). notFloat (Some g)"
    using LeaflistVal.prems by (auto simp: list_all_iff notFloat_def split: option.splits)
  from simLeaf_fold[OF this, of leaf_empty "[]"] show ?case
    by (simp only: simGnmiParseValue.simps gnmiParseValue.simps fst_conv e)
qed (simp_all add: checkAndCeilFloatValues_def notInf_def Let_def)

definition ordinaryUpdate :: "Update \<Rightarrow> bool" where
  "ordinaryUpdate u = (case u_Val u of None \<Rightarrow> True | Some v \<Rightarrow> ordinary v)"

lemma simVal_ordinary: "ordinaryUpdate u \<Longrightarrow> simVal (u_Val u) ts = parseVal (u_Val u) ts False"
  by (simp add: ordinaryUpdate_def simVal_def parseVal_def simParseValue_ordinary split: option.splits)

definition upd_rel :: "upd_state \<Rightarrow> sim_upd" where
  "upd_rel st = (case st of (kvs, r) \<Rightarrow> (Some kvs, r))"

lemma simUpdateStep_agrees:
  "ordinaryUpdate u \<Longrightarrow> simUpdateStep p (upd_rel st) u = Inr (map_option upd_rel (updateStep p False st u))"
  by (cases st)
    (simp add: simUpdateStep_def updateStep_def upd_rel_def simGnmiParsePath_some simVal_ordinary split: option.split prod.split)

lemma simUpdateLoop_agrees:
  "list_all ordinaryUpdate us \<Longrightarrow>
   simUpdateLoop p (upd_rel st) us = Inr (map_option upd_rel (updateLoop p False st us))"
  by (induction us arbitrary: st) (auto simp: simUpdateStep_agrees split: option.split)

lemma simDeleteLoop_agrees:
  "simDeleteLoop p (Some kvs, xs) ds = (case foldl (deleteStep p) (kvs, xs) ds of (kvs', xs') \<Rightarrow> Inr (Some kvs', xs'))"
  by (induction ds arbitrary: kvs xs) (simp_all add: simGnmiParsePath_some deleteStep_def split: prod.split)


section \<open>Lemmas: paths\<close>

definition firstGroup :: "relem \<Rightarrow> relem" where
  "firstGroup e = (fst e, take 1 (snd e))"

lemma firstGroup_wf: "elem_wf e \<Longrightarrow> elem_wf (firstGroup e)"
  using set_take_subset[of 1 "snd e"] by (auto simp: elem_wf_def firstGroup_def)

text \<open>White space at the front of a key would be trimmed.\<close>

definition sim_wf :: "relem \<Rightarrow> bool" where
  "sim_wf e \<longleftrightarrow> elem_wf e \<and> (\<forall>g \<in> set (snd e). \<forall>kv \<in> set g. fst kv = [] \<or> \<not> is_space (hd (fst kv)))"

lemma trimSpace_kv:
  assumes "plain_text k" "k = [] \<or> \<not> is_space (hd k)" "set l \<subseteq> {CHR '' ''}" "set r \<subseteq> {CHR '' ''}" "b \<in> {[], '']''}"
  shows "go_trimSpace (l @ (k @ ''='' @ [CHR 0x22] @ v @ [CHR 0x22] @ b) @ r) = k @ ''='' @ [CHR 0x22] @ v @ [CHR 0x22] @ b"
proof -
  have "go_trimSpace (l @ (k @ ''='' @ [CHR 0x22] @ v @ [CHR 0x22] @ b) @ r) =
      trimBy is_space (k @ ''='' @ [CHR 0x22] @ v @ [CHR 0x22] @ b)"
    unfolding go_trimSpace_def using assms(3,4) by (intro trimBy_pad) (auto simp: is_space_def)
  also have "\<dots> = k @ ''='' @ [CHR 0x22] @ v @ [CHR 0x22] @ b"
    using assms(2,5) by (intro trimBy_id) (cases k, auto simp: is_space_def)
  finally show ?thesis .
qed

lemma simPairs_one:
  assumes "plain_text (fst kv)" "plain_text (snd kv)" "fst kv = [] \<or> \<not> is_space (hd (fst kv))"
    and "set l \<subseteq> {CHR '' ''}" "set r \<subseteq> {CHR '' ''}" "b \<in> {[], '']''}"
  shows "simPairs m ((l @ (render_kv kv @ b) @ r) # ps) = simPairs (mput m (fst kv) (snd kv)) ps"
proof -
  have t: "go_trimSpace (l @ (render_kv kv @ b) @ r) = fst kv @ ''='' @ [CHR 0x22] @ snd kv @ [CHR 0x22] @ b"
    using trimSpace_kv[OF assms(1,3-6), of "snd kv"] by (simp add: render_kv_def)
  have sp: "go_split (go_trimSpace (l @ (render_kv kv @ b) @ r)) ''='' = [fst kv, [CHR 0x22] @ snd kv @ [CHR 0x22] @ b]"
  proof -
    have "CHR ''='' \<notin> set ([CHR 0x22] @ snd kv @ [CHR 0x22] @ b)"
      using assms(6) plain_textD(4)[OF assms(2)] by auto
    thus ?thesis using t plain_textD(4)[OF assms(1)]
        go_split_char[of "CHR ''=''" "fst kv" "[CHR 0x22] @ snd kv @ [CHR 0x22] @ b"] by simp
  qed
  have pre: "go_trimPrefix (CHR 0x22 # snd kv @ CHR 0x22 # b) [CHR 0x22] = snd kv @ CHR 0x22 # b"
    by (simp add: go_trimPrefix_def)
  show ?thesis
    unfolding simPairs.simps Let_def sp using assms(6) by (auto simp: at_def pre)
qed



lemma simPairs_group:
  "g \<noteq> [] \<Longrightarrow> \<forall>kv \<in> set g. plain_text (fst kv) \<and> plain_text (snd kv) \<and> (fst kv = [] \<or> \<not> is_space (hd (fst kv))) \<Longrightarrow>
   set l \<subseteq> {CHR '' ''} \<Longrightarrow>
   simPairs m (go_split_acc ''and'' l (go_join (map render_kv g) '' and '' @ '']'')) = Inr (mputs m g)"
proof (induction g arbitrary: l m)
  case (Cons kv g)
  then have kv: "plain_text (fst kv)" "plain_text (snd kv)" "fst kv = [] \<or> \<not> is_space (hd (fst kv))" by simp_all
  show ?case
  proof (cases "g = []")
    case True
    have "\<not> contains ''and'' (render_kv kv @ '']'')"
      using no_and_append[OF render_kv_no_and(1)[OF kv(1,2)], of "[]" "CHR '']''"] by simp
    with True show ?thesis
      using go_split_and_none[of "render_kv kv @ '']''" l] simPairs_one[OF kv Cons.prems(3), of "[]" "'']''" m "[]"]
      by (simp add: mputs_def case_prod_beta)
  next
    case False
    define rest where "rest = go_join (map render_kv g) '' and '' @ '']''"
    have join: "go_join (map render_kv (kv # g)) '' and '' @ '']'' = (render_kv kv @ '' '') @ ''and'' @ CHR '' '' # rest"
      using False by (simp add: rest_def go_join_Cons)
    have "go_split_acc ''and'' l (go_join (map render_kv (kv # g)) '' and '' @ '']'') =
        (l @ (render_kv kv @ []) @ '' '') # go_split_acc ''and'' '' '' rest"
      unfolding join using go_split_acc_and[OF render_kv_no_and(2)[OF kv(1,2)], of l "CHR '' '' # rest"]
      by (simp add: go_split_acc_Cons)
    thus ?thesis
      using simPairs_one[OF kv Cons.prems(3), of "'' ''" "[]" m] Cons.IH[of "'' ''"] False Cons.prems(2)
      by (simp add: rest_def mputs_Cons del: simPairs.simps)
  qed
qed simp

lemma first_bracket:
  assumes "CHR ''['' \<notin> set b" "rest = [] \<or> hd rest = CHR ''[''"
  shows "hd (go_split (b @ rest) ''['') = b"
  using assms go_split_char[of "CHR ''[''" b "tl rest"] by (cases rest) auto

lemma simElem_render:
  assumes "sim_wf e"
  shows "simElem (render_elem e) = Inr (elem_of (firstGroup e))"
proof (cases "snd e")
  case Nil
  with assms show ?thesis
    by (simp add: sim_wf_def elem_wf_def simElem_def render_elem_def at_def elem_of_def firstGroup_def mputs_def Let_def)
next
  case (Cons g gs)
  define b where "b = go_join (map render_kv g) '' and '' @ '']''"
  define rest where "rest = concat (map render_group gs)"
  have n: "CHR ''['' \<notin> set (fst e)" using assms by (simp add: sim_wf_def elem_wf_def)
  have g: "g \<noteq> []" "\<forall>kv \<in> set g. plain_text (fst kv) \<and> plain_text (snd kv) \<and> (fst kv = [] \<or> \<not> is_space (hd (fst kv)))"
    using assms Cons by (simp_all add: sim_wf_def elem_wf_def)
  have "CHR ''['' \<notin> set b" using set_group_body[of g "CHR ''[''"] g(2) by (simp add: b_def)
  moreover have "rest = [] \<or> hd rest = CHR ''[''" by (cases gs) (simp_all add: rest_def render_group_def)
  ultimately have h: "hd (go_split (b @ rest) ''['') = b" by (rule first_bracket)
  have "go_split (render_elem e) ''['' = fst e # go_split (b @ rest) ''[''"
    using go_split_char[OF n, of "b @ rest"] Cons by (simp add: render_elem_def render_group_def b_def rest_def)
  moreover have "simPairs [] (go_split b ''and'') = Inr (mputs [] g)"
    using simPairs_group[OF g, of "[]" "[]"] by (simp add: go_split_def b_def)
  ultimately show ?thesis
    using h Cons by (simp add: simElem_def at_def hd_conv_nth[symmetric] elem_of_def firstGroup_def)
qed

lemma simElems_render:
  "\<forall>e \<in> set es. sim_wf e \<Longrightarrow> simElems (map render_elem es) = Inr (map (elem_of \<circ> firstGroup) es)"
proof (induction es)
  case (Cons e es)
  then have "render_elem e \<noteq> []" by (simp add: sim_wf_def elem_wf_def render_elem_def)
  with Cons show ?case by (simp add: simElem_render)
qed simp


section \<open>Properties\<close>

text \<open>
  C19. On rendered paths the simulator parses what the collector parses, except that it keeps the first bracket group of an
  element only: its result is the collector's result for the path without the other groups. For paths with at most one group
  per element the two agree.
\<close>

theorem simXPath_agrees:
  assumes "es \<noteq> []" "\<forall>e \<in> set es. sim_wf e"
  shows "simXPathTognmiPath (render_path es) = xPathTognmiPath (render_path (map firstGroup es))"
proof -
  have wf: "\<forall>e \<in> set es. elem_wf e" "\<forall>e \<in> set (map firstGroup es). elem_wf e"
    using assms(2) by (auto simp: sim_wf_def intro: firstGroup_wf)
  show ?thesis
    using assms(1) xPath_render[OF _ wf(2)] simElems_render[OF assms(2)] split_render_path[OF wf(1)]
    by (simp add: simXPathTognmiPath_def)
qed

theorem simXPath_agrees_witness:
  "simXPathTognmiPath (render_path [(''a'', [[(''k'', ''1''), (''l'', ''2'')], [(''m'', ''3'')]])]) =
   xPathTognmiPath (render_path [(''a'', [[(''k'', ''1''), (''l'', ''2'')]])])"
proof -
  have "\<forall>e \<in> set [(''a'', [[(''k'', ''1''), (''l'', ''2'')], [(''m'', ''3'')]])]. sim_wf e"
    by (simp add: sim_wf_def elem_wf_def plain_text_def is_space_def)
  from simXPath_agrees[OF _ this] show ?thesis by (simp add: firstGroup_def)
qed

text \<open>
  C18. The simulator's parser never panics on a notification and agrees with the collector's (with the origin in the prefix and
  without unsigned numbers) on updates with ordinary values, errors included, and on all deletes.
\<close>

theorem simParse_agrees:
  assumes "list_all ordinaryUpdate us"
  shows "simGnmiParseUpdates prefix us po = Inr (gnmiParseUpdates True prefix us po False) \<and>
    simGnmiParseDeletes prefix ds po = Inr (gnmiParseDeletes True prefix ds po)"
proof -
  obtain p kvs where p: "parsePrefix True prefix po = (p, kvs)" by fastforce
  have "simGnmiParseUpdates prefix us po = Inr (gnmiParseUpdates True prefix us po False)"
    using simUpdateLoop_agrees[OF assms, of p "(kvs, xpaths po, \<lparr>jx_xPaths = [], jx_hdrXpath = [], jx_publishTsXpath = []\<rparr>, False)"]
    by (auto simp: simGnmiParseUpdates_def gnmiParseUpdates_def simPrefix_some p upd_rel_def keysOf_def split: option.split)
  moreover have "simGnmiParseDeletes prefix ds po = Inr (gnmiParseDeletes True prefix ds po)"
    by (simp add: simGnmiParseDeletes_def gnmiParseDeletes_def simPrefix_some p simDeleteLoop_agrees keysOf_def split: prod.split)
  ultimately show ?thesis by blast
qed

theorem simParse_agrees_witness:
  "simGnmiParseUpdates None
     [\<lparr>u_Path = Some \<lparr>gp_Origin = [], gp_Target = [], gp_Elem = [\<lparr>pe_Name = ''x'', pe_Key = [(''k'', ''v'')]\<rparr>]\<rparr>,
       u_Val = Some (LeaflistVal [IntVal 3, BoolVal True, IntVal 4])\<rparr>] emptyOutput = Inr (Some (emptyOutput\<lparr>prefixPath := [],
     kvpairs := [(''/x/@k'', ''v'')], xpaths := [(''/x'', VInts [3, 4])], jXpaths := None\<rparr>))"
proof -
  let ?us = "[\<lparr>u_Path = Some \<lparr>gp_Origin = [], gp_Target = [], gp_Elem = [\<lparr>pe_Name = ''x'', pe_Key = [(''k'', ''v'')]\<rparr>]\<rparr>,
       u_Val = Some (LeaflistVal [IntVal 3, BoolVal True, IntVal 4])\<rparr>]"
  have "list_all ordinaryUpdate ?us" by (simp add: ordinaryUpdate_def notFloat_def)
  from simParse_agrees[OF this, of None emptyOutput "[]"] show ?thesis
    by (simp add: gnmiParseUpdates_def parsePrefix_def get_Elem_def get_Origin_def emptyOutput_def updateStep_def gnmiParsePath_def
        parseElem_def gnmi_names parseVal_def leaf_empty_def mput_def)
qed

end
