(* ===== verification/Sim.thy ===== *)
theory Sim
  imports InternalLog SimGnmi
begin

text \<open>
  The device simulator: jtisim/interfaces.go, bgp.go, lldp.go and the dispatch of jtisim/server.go. It streams the interfaces
  of a described device as native packets or as gNMI responses. Random numbers come from \<open>rng\<close> (the bound and the
  number of the draw), the clock from \<open>clock\<close> (the number of the packet), the encoding of the header from \<open>mar\<close>. An
  endless stream is a number of rounds over the interfaces; sends and sleeps have no effect on the state. The two streams
  have the same loop, here \<open>wrapIfds\<close>, with different packets.
\<close>

section \<open>Interfaces\<close>

record IDesc =
  d_Media :: string
  d_FPC :: int
  d_PIC :: int
  d_PORT :: int
  d_Logical :: int
  d_INPkts :: int
  d_INOctets :: int
  d_INUnicastPkts :: int
  d_INMulticastPkts :: int

text \<open>
  The description of the device: a file that cannot be read ends the simulator, one that cannot be decoded panics. Reading and
  decoding are parameters.
\<close>

definition parseInterfacesJSON :: "(string \<Rightarrow> string option) \<Rightarrow> (string \<Rightarrow> IDesc option) \<Rightarrow> string \<Rightarrow> IDesc go" where
  "parseInterfacesJSON readFile decode dir =
     (case readFile (dir @ ''/interfaces.json'') of
        None \<Rightarrow> Inl FatalExit
      | Some file \<Rightarrow> (case decode file of None \<Rightarrow> Inl ExplicitPanic | Some d \<Rightarrow> Inr d))"

record ifl =
  ifl_index :: nat
  ifl_inUPkts :: "64 word"
  ifl_inMPkts :: "64 word"

record ifd =
  ifd_name :: string
  ifd_inPkts :: "64 word"
  ifd_inOctets :: "64 word"
  ifd_ifls :: "ifl list"

definition ifdName :: "IDesc \<Rightarrow> nat \<Rightarrow> nat \<Rightarrow> nat \<Rightarrow> string" where
  "ifdName d i j k = d_Media d @ ''-'' @ show_int (int i) @ ''/'' @ show_int (int j) @ ''/'' @ show_int (int k)"

definition newIfd :: "IDesc \<Rightarrow> nat \<Rightarrow> nat \<Rightarrow> nat \<Rightarrow> ifd" where
  "newIfd d i j k = \<lparr>ifd_name = ifdName d i j k, ifd_inPkts = 0, ifd_inOctets = 0,
     ifd_ifls = map (\<lambda>n. \<lparr>ifl_index = n, ifl_inUPkts = 0, ifl_inMPkts = 0\<rparr>) [0..<nat (d_Logical d)]\<rparr>"

text \<open>
  A slice cannot be made with a negative length. Two negative factors make a slice that the loops leave empty: its entries are
  nil.
\<close>

definition generateIList :: "IDesc \<Rightarrow> ifd option list go" where
  "generateIList d =
     (let n = d_FPC d * d_PIC d * d_PORT d;
          made = concat (map (\<lambda>i. concat (map (\<lambda>j. map (\<lambda>k. newIfd d i j k) [0..<nat (d_PORT d)]) [0..<nat (d_PIC d)]))
                   [0..<nat (d_FPC d)])
      in if n < 0 \<or> made \<noteq> [] \<and> d_Logical d < 0 then Inl ExplicitPanic
         else Inr (map Some made @ replicate (nat n - length made) None))"

text \<open>\<open>Int31n\<close> panics when its bound is not positive.\<close>

definition getRandom :: "(int \<Rightarrow> nat \<Rightarrow> int) \<Rightarrow> nat \<Rightarrow> int \<Rightarrow> bool \<Rightarrow> int go" where
  "getRandom rng draw num random =
     (if \<not> random then Inr 100 else if num \<le> 0 then Inl ExplicitPanic else Inr (rng num draw))"


section \<open>One round over the interfaces\<close>

text \<open>
  What the loop sends: a packet for an interface, with its counters, and one for each logical interface. \<open>add\<close> is what a
  random number adds to a counter.
\<close>

record 'p sim =
  sim_desc :: IDesc
  sim_random :: bool
  sim_rng :: "int \<Rightarrow> nat \<Rightarrow> int"
  sim_add :: "int \<Rightarrow> 64 word"
  sim_ifd :: "ifd \<Rightarrow> 64 word \<Rightarrow> 'p"
  sim_ifl :: "ifd \<Rightarrow> 64 word \<Rightarrow> ifl \<Rightarrow> 64 word \<Rightarrow> 'p"

text \<open>The state: the number of draws and the sequence number. \<open>start\<close> is the sequence number before the logical interfaces.\<close>

fun wrapIfls :: "'p sim \<Rightarrow> ifd \<Rightarrow> 64 word \<Rightarrow> nat \<times> 64 word \<Rightarrow> ifl list \<Rightarrow> ('p list \<times> ifl list \<times> nat \<times> 64 word) go" where
  "wrapIfls s d start (draw, seq) [] = Inr ([], [], draw, seq)"
| "wrapIfls s d start (draw, seq) (l # ls) =
     bindR (getRandom (sim_rng s) draw (d_INUnicastPkts (sim_desc s)) (sim_random s)) (\<lambda>r1.
       bindR (getRandom (sim_rng s) (draw + 1) (d_INMulticastPkts (sim_desc s)) (sim_random s)) (\<lambda>r2.
         let l' = l\<lparr>ifl_inUPkts := ifl_inUPkts l + sim_add s r1, ifl_inMPkts := ifl_inMPkts l + sim_add s r2\<rparr>
         in bindR (wrapIfls s d start (draw + 2, seq + 1) ls) (\<lambda>(ps, ls', st).
              Inr (sim_ifl s d start l' seq # ps, l' # ls', st))))"

fun wrapIfds :: "'p sim \<Rightarrow> nat \<times> 64 word \<Rightarrow> ifd option list \<Rightarrow> ('p list \<times> ifd option list \<times> nat \<times> 64 word) go" where
  "wrapIfds s (draw, seq) [] = Inr ([], [], draw, seq)"
| "wrapIfds s (draw, seq) (None # ds) = Inl NilDeref"
| "wrapIfds s (draw, seq) (Some d # ds) =
     bindR (getRandom (sim_rng s) draw (d_INPkts (sim_desc s)) (sim_random s)) (\<lambda>r1.
       bindR (getRandom (sim_rng s) (draw + 1) (d_INOctets (sim_desc s)) (sim_random s)) (\<lambda>r2.
         let d' = d\<lparr>ifd_inPkts := ifd_inPkts d + sim_add s r1, ifd_inOctets := ifd_inOctets d + sim_add s r2\<rparr>
         in bindR (wrapIfls s d' (seq + 1) (draw + 2, seq + 1) (ifd_ifls d')) (\<lambda>(ps, ls, st).
              bindR (wrapIfds s st ds) (\<lambda>(qs, ds', st').
                Inr (sim_ifd s d' seq # ps @ qs, Some (d'\<lparr>ifd_ifls := ls\<rparr>) # ds', st')))))"

fun wraps :: "'p sim \<Rightarrow> nat \<times> 64 word \<Rightarrow> ifd option list \<Rightarrow> nat \<Rightarrow> 'p list go" where
  "wraps s st ds 0 = Inr []"
| "wraps s st ds (Suc n) =
     bindR (wrapIfds s st ds) (\<lambda>(ps, ds', st'). bindR (wraps s st' ds' n) (\<lambda>qs. Inr (ps @ qs)))"


section \<open>Native packets\<close>

definition strKV :: "string \<Rightarrow> string \<Rightarrow> KeyValue" where
  "strKV k v = \<lparr>kv_Key = k, kv_Value = Some (StrValue v)\<rparr>"

definition uintKV :: "string \<Rightarrow> 64 word \<Rightarrow> KeyValue" where
  "uintKV k v = \<lparr>kv_Key = k, kv_Value = Some (UintValue v)\<rparr>"

definition quoted :: "string \<Rightarrow> string" where
  "quoted s = [CHR 0x27] @ s @ [CHR 0x27]"

definition ifdPrefix :: "ifd \<Rightarrow> string" where
  "ifdPrefix d = ''/interfaces/interface[name='' @ quoted (ifd_name d) @ '']/''"

definition iflPrefix :: "ifd \<Rightarrow> ifl \<Rightarrow> string" where
  "iflPrefix d l = ''/interfaces/interface[name='' @ quoted (ifd_name d) @ '']/subinterfaces/subinterface[index='' @
     quoted (show_int (int (ifl_index l))) @ '']/''"

definition iflName :: "ifd \<Rightarrow> ifl \<Rightarrow> string" where
  "iflName d l = ifd_name d @ ''.'' @ show_int (int (ifl_index l))"

text \<open>The leaves of an interface and of a logical interface that carry the octets.\<close>

definition ifdOctetKeys :: "string list" where
  "ifdOctetKeys = [
     ''init_time'', ''state/counters/carrier-transitions'', ''state/counters/last-clear'',
     ''state/counters/out-octets'', ''state/counters/out-pkts'', ''state/counters/out-unicast-pkts'',
     ''state/description'', ''state/enabled'', ''state/high-speed'', ''state/ifindex'', ''state/last-change'',
     ''state/mtu'', ''state/name'', ''state/parent_ae_name'', ''state/type'']"

definition iflOctetKeys :: "string list" where
  "iflOctetKeys = [
     ''ipv4/addresses/address/ipv4/state/mtu'',
     ''ipv4/addresses/address/ipv4/unnumbered/interface-ref/state/interface'',
     ''ipv4/addresses/address/ipv4/unnumbered/interface-ref/state/subinterface'',
     ''ipv4/addresses/address/ipv4/unnumbered/state/enabled'', ''ipv4/addresses/address/state/ip'',
     ''ipv4/addresses/address/state/origin'', ''ipv4/addresses/address/state/prefix-length'',
     ''ipv4/neighbors/neighbor/@ip'', ''ipv4/neighbors/neighbor/ipv4/state/enabled'',
     ''ipv4/neighbors/neighbor/ipv4/state/mtu'',
     ''ipv4/neighbors/neighbor/ipv4/unnumbered/interface-ref/state/interface'',
     ''ipv4/neighbors/neighbor/ipv4/unnumbered/interface-ref/state/subinterface'',
     ''ipv4/neighbors/neighbor/ipv4/unnumbered/state/enabled'', ''ipv4/neighbors/neighbor/state/expiry'',
     ''ipv4/neighbors/neighbor/state/host-name'', ''ipv4/neighbors/neighbor/state/interface-name'',
     ''ipv4/neighbors/neighbor/state/ip'', ''ipv4/neighbors/neighbor/state/is-publish'',
     ''ipv4/neighbors/neighbor/state/link-layer-address'', ''ipv4/neighbors/neighbor/state/logical-router-id'',
     ''ipv4/neighbors/neighbor/state/neighbor-state'', ''ipv4/neighbors/neighbor/state/origin'',
     ''ipv4/neighbors/neighbor/state/table-id'', ''ipv4/state/enabled'', ''ipv4/state/mtu'',
     ''ipv4/unnumbered/interface-ref/state/interface'', ''ipv4/unnumbered/interface-ref/state/subinterface'',
     ''ipv4/unnumbered/state/enabled'', ''ipv6/addresses/address/@ip'',
     ''ipv6/addresses/address/ipv6/state/enabled'', ''ipv6/addresses/address/ipv6/state/mtu'',
     ''ipv6/addresses/address/ipv6/unnumbered/interface-ref/state/interface'',
     ''ipv6/addresses/address/ipv6/unnumbered/interface-ref/state/subinterface'',
     ''ipv6/addresses/address/ipv6/unnumbered/state/enabled'', ''ipv6/addresses/address/state/ip'',
     ''ipv6/addresses/address/state/origin'', ''ipv6/addresses/address/state/prefix-length'',
     ''ipv6/addresses/address/state/status'', ''ipv6/state/enabled'', ''ipv6/state/mtu'',
     ''ipv6/unnumbered/interface-ref/state/interface'', ''ipv6/unnumbered/interface-ref/state/subinterface'',
     ''ipv6/unnumbered/state/enabled'', ''state/counters/in-octets'', ''state/counters/in-pkts'',
     ''state/counters/out-octets'', ''state/counters/out-pkts'', ''state/description'', ''state/enabled'',
     ''state/ifindex'', ''state/index'', ''state/last-change'']"

definition simPacket :: "string \<Rightarrow> (64 word \<Rightarrow> 64 word) \<Rightarrow> string \<Rightarrow> 64 word \<Rightarrow> KeyValue list \<Rightarrow> OpenConfigData" where
  "simPacket sysID clock path seq kv = \<lparr>oc_SystemId = sysID, oc_ComponentId = 1, oc_SubComponentId = 0, oc_Path = path,
     oc_SequenceNumber = seq, oc_Timestamp = clock seq, oc_Kv = kv, oc_SyncResponse = False, oc_Delete = []\<rparr>"

definition ifdData :: "string \<Rightarrow> (64 word \<Rightarrow> 64 word) \<Rightarrow> ifd \<Rightarrow> 64 word \<Rightarrow> OpenConfigData" where
  "ifdData sysID clock d seq =
     simPacket sysID clock ''sensor_1000_1_1:/junos/system/linecard/interface/:/interfaces/:PFE'' seq
       ([strKV ''__prefix__'' (ifdPrefix d), strKV ''name'' (ifd_name d), strKV ''state/oper-status'' ''UP'',
         strKV ''state/admin-status'' ''DOWN'', uintKV ''state/counters/in-pkts'' (ifd_inPkts d),
         uintKV ''state/counters/in-octets'' (ifd_inOctets d)] @ map (\<lambda>k. uintKV k (ifd_inOctets d)) ifdOctetKeys)"

definition iflData :: "string \<Rightarrow> (64 word \<Rightarrow> 64 word) \<Rightarrow> ifd \<Rightarrow> 64 word \<Rightarrow> ifl \<Rightarrow> 64 word \<Rightarrow> OpenConfigData" where
  "iflData sysID clock d start l seq =
     simPacket sysID clock ''sensor_1013_1_1:/junos/system/linecard/interface/logical/usage/:/interfaces/:PFE'' seq
       ([strKV ''__prefix__'' (iflPrefix d l), uintKV ''index'' (of_nat (ifl_index l)), strKV ''state/name'' (iflName d l),
         uintKV ''state/counters/in-unicast-pkts'' (ifl_inUPkts l), uintKV ''state/counters/in-multicast-pkts'' (ifl_inMPkts l),
         strKV ''state/oper-status'' ''UP'', strKV ''state/admin-status'' ''DOWN''] @ map (\<lambda>k. uintKV k (ifd_inOctets d)) iflOctetKeys)"

text \<open>The product of the random number and the seconds is one of 32 bits.\<close>

definition nativeAdd :: "32 word \<Rightarrow> int \<Rightarrow> 64 word" where
  "nativeAdd freq r = ucast (word_of_int r * (freq div 1000) :: 32 word)"

definition nativeSim :: "string \<Rightarrow> (64 word \<Rightarrow> 64 word) \<Rightarrow> (int \<Rightarrow> nat \<Rightarrow> int) \<Rightarrow> bool \<Rightarrow> IDesc \<Rightarrow> 32 word \<Rightarrow> OpenConfigData sim" where
  "nativeSim sysID clock rng random desc freq =
     \<lparr>sim_desc = desc, sim_random = random, sim_rng = rng, sim_add = nativeAdd freq,
      sim_ifd = ifdData sysID clock, sim_ifl = iflData sysID clock\<rparr>"

definition streamInterfaces ::
  "string \<Rightarrow> (64 word \<Rightarrow> 64 word) \<Rightarrow> (int \<Rightarrow> nat \<Rightarrow> int) \<Rightarrow> bool \<Rightarrow> IDesc \<Rightarrow> 32 word \<Rightarrow> nat \<Rightarrow> OpenConfigData list go" where
  "streamInterfaces sysID clock rng random desc freq n =
     bindR (generateIList desc) (\<lambda>ds. wraps (nativeSim sysID clock rng random desc freq) (0, 0) ds n)"

text \<open>The streams for BGP and LLDP send one packet a round.\<close>

definition fooPacket :: "string \<Rightarrow> 32 word \<Rightarrow> 64 word \<Rightarrow> (64 word \<Rightarrow> 64 word) \<Rightarrow> 64 word \<Rightarrow> OpenConfigData" where
  "fooPacket prefix c v clock seq = \<lparr>oc_SystemId = ''jtisim'', oc_ComponentId = c, oc_SubComponentId = 0, oc_Path = [],
     oc_SequenceNumber = seq, oc_Timestamp = clock seq, oc_Kv = [strKV ''__prefix__'' prefix, uintKV ''state/foo'' v],
     oc_SyncResponse = False, oc_Delete = []\<rparr>"

definition streamBGP :: "(64 word \<Rightarrow> 64 word) \<Rightarrow> nat \<Rightarrow> OpenConfigData list" where
  "streamBGP clock n = map (\<lambda>i. fooPacket ''/bgp'' 2 1111 clock (of_nat i)) [0..<n]"

definition streamLLDP :: "(64 word \<Rightarrow> 64 word) \<Rightarrow> nat \<Rightarrow> OpenConfigData list" where
  "streamLLDP clock n = map (\<lambda>i. fooPacket ''/lldp'' 3 2222 clock (of_nat i)) [0..<n]"


section \<open>gNMI responses\<close>

definition ifdCounterPaths :: "string list" where
  "ifdCounterPaths = [
     ''init-time'', ''state/counters/carrier-transitions'', ''state/counters/last-clear'',
     ''state/counters/out-octets'', ''state/counters/out-pkts'', ''state/counters/out-unicast-pkts'']"

definition ifdStatePaths :: "string list" where
  "ifdStatePaths = [
     ''state/description'', ''state/enabled'', ''state/high-speed'', ''state/ifindex'', ''state/last-change'',
     ''state/mtu'', ''state/name'', ''state/parent_ae_name'', ''state/type'']"

definition ifdOctetPaths :: "string list" where
  "ifdOctetPaths = ifdCounterPaths @ ifdStatePaths"

definition ipv4AddressPaths :: "string list" where
  "ipv4AddressPaths = [
     ''ipv4/addresses/address/ipv4/state/mtu'',
     ''ipv4/addresses/address/ipv4/unnumbered/interface-ref/state/interface'',
     ''ipv4/addresses/address/ipv4/unnumbered/interface-ref/state/subinterface'',
     ''ipv4/addresses/address/ipv4/unnumbered/state/enabled'', ''ipv4/addresses/address/state/ip'',
     ''ipv4/addresses/address/state/origin'', ''ipv4/addresses/address/state/prefix-length'']"

definition ipv4NeighborPaths :: "string list" where
  "ipv4NeighborPaths = [
     ''ipv4/neighbors/neighbor/@ip'', ''ipv4/neighbors/neighbor/ipv4/state/enabled'',
     ''ipv4/neighbors/neighbor/ipv4/state/mtu'',
     ''ipv4/neighbors/neighbor/ipv4/unnumbered/interface-ref/state/interface'',
     ''ipv4/neighbors/neighbor/ipv4/unnumbered/interface-ref/state/subinterface'']"

definition ipv4NeighborStatePaths :: "string list" where
  "ipv4NeighborStatePaths = [
     ''ipv4/neighbors/neighbor/state/expiry'', ''ipv4/neighbors/neighbor/state/host-name'',
     ''ipv4/neighbors/neighbor/state/interface-name'', ''ipv4/neighbors/neighbor/state/ip'',
     ''ipv4/neighbors/neighbor/state/is-publish'', ''ipv4/neighbors/neighbor/state/link-layer-address'',
     ''ipv4/neighbors/neighbor/state/logical-router-id'', ''ipv4/neighbors/neighbor/state/neighbor-state'',
     ''ipv4/neighbors/neighbor/state/origin'', ''ipv4/neighbors/neighbor/state/table-id'']"

definition ipv4Paths :: "string list" where
  "ipv4Paths = [
     ''ipv4/state/enabled'', ''ipv4/state/mtu'', ''ipv4/unnumbered/interface-ref/state/interface'',
     ''ipv4/unnumbered/interface-ref/state/subinterface'', ''ipv4/unnumbered/state/enabled'']"

definition ipv6AddressPaths :: "string list" where
  "ipv6AddressPaths = [
     ''ipv6/addressesses/address/@ip'', ''ipv6/addressesses/address/ipv6/state/enabled'',
     ''ipv6/addressesses/address/ipv6/state/mtu'',
     ''ipv6/addresses/address/ipv6/unnumbered/interface-ref/state/interface'',
     ''ipv6/addresses/address/ipv6/unnumbered/interface-ref/state/subinterface'',
     ''ipv6/addresses/address/ipv6/unnumbered/state/enabled'']"

definition ipv6AddressStatePaths :: "string list" where
  "ipv6AddressStatePaths = [
     ''ipv6/addresses/address/state/ip'', ''ipv6/addresses/address/state/origin'',
     ''ipv6/addresses/address/state/prefix-length'', ''ipv6/addresses/address/state/status'']"

definition ipv6Paths :: "string list" where
  "ipv6Paths = [
     ''ipv6/state/enabled'', ''ipv6/state/mtu'', ''ipv6/unnumbered/interface-red/state/interface'',
     ''ipv6/unnumbered/interface-red/state/subinterface'', ''ipv6/unnumbered/state/enabled'']"

definition iflStatePaths :: "string list" where
  "iflStatePaths = [
     ''state/counters/in-octets'', ''state/counters/in-pkts'', ''state/counters/out-octets'',
     ''state/counters/out-pkts'', ''state/description'', ''state/enabled'', ''state/ifindex'', ''state/index'',
     ''state/last-change'']"

definition iflOctetPaths :: "string list" where
  "iflOctetPaths = ipv4AddressPaths @ ipv4NeighborPaths @ ipv4NeighborStatePaths @ ipv4Paths @ ipv6AddressPaths @
     ipv6AddressStatePaths @ ipv6Paths @ iflStatePaths"

definition simUpdate :: "string \<Rightarrow> TypedValue \<Rightarrow> Update" where
  "simUpdate p v = \<lparr>u_Path = Some \<lparr>gp_Origin = [], gp_Target = [],
     gp_Elem = map (\<lambda>n. \<lparr>pe_Name = n, pe_Key = []\<rparr>) (go_split p ''/'')\<rparr>, u_Val = Some v\<rparr>"

definition simHeader :: "string \<Rightarrow> string \<Rightarrow> string \<Rightarrow> 64 word \<Rightarrow> TelemetryHeaderExt" where
  "simHeader sysID sensor streamed seq = emptyExt\<lparr>x_SystemId := sysID, x_ComponentId := 1, x_SensorName := sensor,
     x_SequenceNumber := seq, x_SubscribedPath := ''/interfaces/'', x_StreamedPath := streamed, x_Component := ''PFE''\<rparr>"

definition simResponse ::
  "(TelemetryHeaderExt \<Rightarrow> bytes) \<Rightarrow> (64 word \<Rightarrow> 64 word) \<Rightarrow> TelemetryHeaderExt \<Rightarrow> 64 word \<Rightarrow> PathElem list \<Rightarrow> Update list \<Rightarrow> SubscribeResponse" where
  "simResponse mar clock hdr seq prefix us =
     \<lparr>r_Update = Some \<lparr>n_Timestamp = clock seq, n_Prefix = Some \<lparr>gp_Origin = [], gp_Target = [], gp_Elem = prefix\<rparr>,
        n_Update = us, n_Delete = []\<rparr>,
      r_SyncResponse = False, r_Extension = [\<lparr>e_Id = 1, e_Msg = mar hdr\<rparr>]\<rparr>"

definition ifdElems :: "ifd \<Rightarrow> PathElem list" where
  "ifdElems d = [\<lparr>pe_Name = ''interfaces'', pe_Key = []\<rparr>, \<lparr>pe_Name = ''interface'', pe_Key = [(''name'', ifd_name d)]\<rparr>]"

definition iflElems :: "ifd \<Rightarrow> ifl \<Rightarrow> PathElem list" where
  "iflElems d l = ifdElems d @ [\<lparr>pe_Name = ''subinterfaces'', pe_Key = []\<rparr>,
     \<lparr>pe_Name = ''subinterface'', pe_Key = [(''index'', show_int (int (ifl_index l)))]\<rparr>]"

definition ifdRsp :: "(TelemetryHeaderExt \<Rightarrow> bytes) \<Rightarrow> string \<Rightarrow> (64 word \<Rightarrow> 64 word) \<Rightarrow> ifd \<Rightarrow> 64 word \<Rightarrow> SubscribeResponse" where
  "ifdRsp mar sysID clock d seq =
     simResponse mar clock (simHeader sysID ''sensor_1000_1_1'' ''/junos/system/linecard/interface/'' seq) seq (ifdElems d)
       ([simUpdate ''name'' (StringVal (ifd_name d)), simUpdate ''state/oper-status'' (StringVal ''UP''),
         simUpdate ''state/admin-status'' (StringVal ''DOWN''), simUpdate ''state/counters/in-pkts'' (UintVal (ifd_inPkts d)),
         simUpdate ''state/counters/in-octets'' (UintVal (ifd_inOctets d))] @
        map (\<lambda>p. simUpdate p (UintVal (ifd_inOctets d))) ifdOctetPaths)"

text \<open>The header of the logical interfaces is made once for all of them.\<close>

definition iflRsp :: "(TelemetryHeaderExt \<Rightarrow> bytes) \<Rightarrow> string \<Rightarrow> (64 word \<Rightarrow> 64 word) \<Rightarrow> ifd \<Rightarrow> 64 word \<Rightarrow> ifl \<Rightarrow> 64 word \<Rightarrow> SubscribeResponse" where
  "iflRsp mar sysID clock d start l seq =
     simResponse mar clock (simHeader sysID ''sensor_1013_1_1'' ''/junos/system/linecard/interface/logical/usage/'' start) seq (iflElems d l)
       ([simUpdate ''index'' (UintVal (of_nat (ifl_index l))), simUpdate ''state/name'' (StringVal (iflName d l)),
         simUpdate ''state/counters/in-unicast-pkts'' (UintVal (ifl_inUPkts l)),
         simUpdate ''state/counters/in-multicast-pkts'' (UintVal (ifl_inMPkts l)),
         simUpdate ''state/oper-status'' (StringVal ''UP''), simUpdate ''state/admin-status'' (StringVal ''DOWN'')] @
        map (\<lambda>p. simUpdate p (UintVal (ifd_inOctets d))) iflOctetPaths)"

definition gnmiAdd :: "64 word \<Rightarrow> int \<Rightarrow> 64 word" where
  "gnmiAdd freq r = word_of_int r * (freq * 1000)"

definition gnmiSim ::
  "(TelemetryHeaderExt \<Rightarrow> bytes) \<Rightarrow> string \<Rightarrow> (64 word \<Rightarrow> 64 word) \<Rightarrow> (int \<Rightarrow> nat \<Rightarrow> int) \<Rightarrow> bool \<Rightarrow> IDesc \<Rightarrow> 64 word \<Rightarrow> SubscribeResponse sim" where
  "gnmiSim mar sysID clock rng random desc freq =
     \<lparr>sim_desc = desc, sim_random = random, sim_rng = rng, sim_add = gnmiAdd freq,
      sim_ifd = ifdRsp mar sysID clock, sim_ifl = iflRsp mar sysID clock\<rparr>"

definition gnmiStreamInterfaces ::
  "(TelemetryHeaderExt \<Rightarrow> bytes) \<Rightarrow> string \<Rightarrow> (64 word \<Rightarrow> 64 word) \<Rightarrow> (int \<Rightarrow> nat \<Rightarrow> int) \<Rightarrow> bool \<Rightarrow> IDesc \<Rightarrow> 64 word \<Rightarrow> nat \<Rightarrow>
   SubscribeResponse list go" where
  "gnmiStreamInterfaces mar sysID clock rng random desc freq n =
     bindR (generateIList desc) (\<lambda>ds. wraps (gnmiSim mar sysID clock rng random desc freq) (0, 0) ds n)"


section \<open>The servers\<close>

datatype stream_kind = SInterfaces | SBGP | SLLDP

text \<open>Which streams a request starts; an unknown sensor ends the simulator.\<close>

definition pathStream :: "string \<Rightarrow> stream_kind go" where
  "pathStream pname =
     (if hasPrefix ''/interfaces'' pname then Inr SInterfaces
      else if hasPrefix ''/bgp'' pname then Inr SBGP
      else if hasPrefix ''/lldp'' pname then Inr SLLDP
      else Inl FatalExit)"

fun TelemetrySubscribe :: "(string \<times> 32 word) list \<Rightarrow> (stream_kind \<times> 32 word) list go" where
  "TelemetrySubscribe [] = Inr []"
| "TelemetrySubscribe ((pname, freq) # ps) =
     bindR (pathStream pname) (\<lambda>k. bindR (TelemetrySubscribe ps) (\<lambda>ks. Inr ((k, freq) # ks)))"

text \<open>The path of a subscription is read with a nil map for the keys.\<close>

fun simSubscriptions :: "Subscription list \<Rightarrow> (string \<times> 64 word) list go" where
  "simSubscriptions [] = Inr []"
| "simSubscriptions (sub # subs) =
     bindR (simGnmiParsePath [] (gp_Elem (s_Path sub)) None []) (\<lambda>(pname, _, _).
       if hasPrefix ''/interfaces'' pname
       then bindR (simSubscriptions subs) (\<lambda>ks. Inr ((pname, s_SampleInterval sub) # ks))
       else Inl FatalExit)"

text \<open>The gNMI server: the streams started after the synchronisation response, for the request received.\<close>

definition simSubscribe :: "SubscriptionList option \<Rightarrow> (string \<times> 64 word) list go" where
  "simSubscribe req =
     (case req of
        None \<Rightarrow> Inl FatalExit
      | Some subReq \<Rightarrow>
          if sl_Encoding subReq \<noteq> PROTO \<or> sl_Mode subReq \<noteq> 0 then Inl FatalExit
          else simSubscriptions (sl_Subscription subReq))"


text \<open>
  Both servers then pass on what the streams send, until a send to the client fails or the client is gone; the streams share
  one channel, whose events are the argument. The result is what was sent and whether the server still runs.
\<close>

datatype 'p sim_event = FromStream 'p bool | ClientDone

fun passOn :: "'p sim_event list \<Rightarrow> 'p list \<times> bool" where
  "passOn [] = ([], True)"
| "passOn (ClientDone # es) = ([], False)"
| "passOn (FromStream p ok # es) = (if ok then (case passOn es of (ps, r) \<Rightarrow> (p # ps, r)) else ([], False))"

text \<open>The whole calls: the gNMI server begins with the synchronisation response.\<close>

definition serveTelemetry :: "(string \<times> 32 word) list \<Rightarrow> OpenConfigData sim_event list \<Rightarrow> (OpenConfigData list \<times> bool) go" where
  "serveTelemetry plist es = bindR (TelemetrySubscribe plist) (\<lambda>streams. Inr (passOn es))"

definition syncRsp :: SubscribeResponse where
  "syncRsp = \<lparr>r_Update = None, r_SyncResponse = True, r_Extension = []\<rparr>"

definition serveGnmi :: "SubscriptionList option \<Rightarrow> SubscribeResponse sim_event list \<Rightarrow> (SubscribeResponse list \<times> bool) go" where
  "serveGnmi req es =
     bindR (simSubscribe req) (\<lambda>streams. case passOn es of (ps, r) \<Rightarrow> Inr (syncRsp # ps, r))"

text \<open>Everyone may log in; the other calls of the two services return nothing.\<close>

definition LoginCheck :: "string \<Rightarrow> string \<Rightarrow> bool" where
  "LoginCheck user password = True"

text \<open>The simulator runs once it can listen on its address; the boolean is whether \<open>Start\<close> gives no error.\<close>

definition simStart :: "(string \<Rightarrow> bool) \<Rightarrow> string \<Rightarrow> int \<Rightarrow> bool" where
  "simStart canListen host port = canListen (host @ '':'' @ show_int port)"


section \<open>Lemmas\<close>

lemma show_int_no_slash: "CHR ''/'' \<notin> set (show_int (int n))"
proof
  assume "CHR ''/'' \<in> set (show_int (int n))"
  hence "dec_char CHR ''/''" using dec_char_show_pos[of "int n"] by (auto simp: show_int_def)
  thus False by (simp add: dec_char_def)
qed

lemma append_slash_inj:
  assumes "a @ ''/'' @ b = c @ ''/'' @ d" "CHR ''/'' \<notin> set a" "CHR ''/'' \<notin> set c"
  shows "a = c \<and> b = d"
  using assms
proof (induction a arbitrary: c)
  case Nil
  thus ?case by (cases c) auto
next
  case (Cons x a)
  thus ?case by (cases c) auto
qed

lemma ifdName_inj: "ifdName d i j k = ifdName d i' j' k' \<Longrightarrow> i = i' \<and> j = j' \<and> k = k'"
proof -
  assume "ifdName d i j k = ifdName d i' j' k'"
  hence "show_int (int i) @ ''/'' @ show_int (int j) @ ''/'' @ show_int (int k) =
      show_int (int i') @ ''/'' @ show_int (int j') @ ''/'' @ show_int (int k')"
    by (simp add: ifdName_def)
  from append_slash_inj[OF this show_int_no_slash show_int_no_slash]
  have "i = i'" and r: "show_int (int j) @ ''/'' @ show_int (int k) = show_int (int j') @ ''/'' @ show_int (int k')"
    using show_int_inj[of "int i" "int i'"] by auto
  from append_slash_inj[OF r show_int_no_slash show_int_no_slash] \<open>i = i'\<close> show ?thesis
    using show_int_inj[of "int j" "int j'"] show_int_inj[of "int k" "int k'"] by auto
qed

lemma made_ifds:
  "concat (map (\<lambda>i. concat (map (\<lambda>j. map (\<lambda>k. newIfd d i j k) ks) js)) is) =
     map (\<lambda>(i, j, k). newIfd d i j k) (List.product is (List.product js ks))"
proof -
  have "concat (map (\<lambda>j. map (\<lambda>k. newIfd d i j k) ks) js) = map (\<lambda>(j, k). newIfd d i j k) (List.product js ks)" for i
    by (induction js) (simp_all add: comp_def)
  thus ?thesis by (induction "is") (simp_all add: comp_def case_prod_unfold)
qed

text \<open>The sequence numbers of a list of packets.\<close>

definition numbered :: "('p \<Rightarrow> 64 word) \<Rightarrow> 64 word \<Rightarrow> 'p list \<Rightarrow> bool" where
  "numbered f seq ps \<longleftrightarrow> map f ps = map (\<lambda>i. seq + of_nat i) [0..<length ps]"

lemma numbered_Nil [simp]: "numbered f seq []"
  by (simp add: numbered_def)

lemma numbered_append: "numbered f seq ps \<Longrightarrow> numbered f (seq + of_nat (length ps)) qs \<Longrightarrow> numbered f seq (ps @ qs)"
proof -
  assume p: "numbered f seq ps" and q: "numbered f (seq + of_nat (length ps)) qs"
  have "map (\<lambda>i. seq + of_nat i) [0..<length ps + length qs] =
      map (\<lambda>i. seq + of_nat i) [0..<length ps] @ map (\<lambda>i. seq + of_nat (length ps) + of_nat i) [0..<length qs]"
    unfolding upt_add_eq_append[OF le0] map_append by (auto simp: add.assoc intro!: nth_equalityI)
  with p q show ?thesis by (simp add: numbered_def)
qed

lemma numbered_Cons: "f p = seq \<Longrightarrow> numbered f (seq + 1) ps \<Longrightarrow> numbered f seq (p # ps)"
  using numbered_append[of f seq "[p]" ps] by (simp add: numbered_def)

lemma wrapIfls_numbered:
  assumes "\<And>d start l seq. f (sim_ifl s d start l seq) = seq" "wrapIfls s d start (draw, seq) ls = Inr (ps, ls', draw', seq')"
  shows "numbered f seq ps \<and> length ps = length ls \<and> length ls' = length ls \<and> seq' = seq + of_nat (length ps)"
  using assms(2)
proof (induction ls arbitrary: draw seq ps ls')
  case (Cons l ls)
  then obtain l1 ps1 ls1 where w: "wrapIfls s d start (draw + 2, seq + 1) ls = Inr (ps1, ls1, draw', seq')"
    and p: "ps = sim_ifl s d start l1 seq # ps1" "ls' = l1 # ls1"
    by (auto simp: bindR_Inr_iff Let_def)
  from Cons.IH[OF w] p assms(1) show ?case by (auto intro: numbered_Cons simp: add.assoc)
qed simp

lemma wrapIfds_numbered:
  assumes "\<And>d seq. f (sim_ifd s d seq) = seq" "\<And>d start l seq. f (sim_ifl s d start l seq) = seq"
    "wrapIfds s (draw, seq) ds = Inr (ps, ds', draw', seq')"
  shows "numbered f seq ps \<and> seq' = seq + of_nat (length ps)"
  using assms(3)
proof (induction ds arbitrary: draw seq ps ds')
  case (Cons x ds)
  then obtain d where x: "x = Some d" by (cases x) auto
  with Cons.prems obtain d' lx ps1 ls1 dr1 sq1 qs ds1 where
    l: "wrapIfls s d' (seq + 1) (draw + 2, seq + 1) lx = Inr (ps1, ls1, dr1, sq1)"
    and r: "wrapIfds s (dr1, sq1) ds = Inr (qs, ds1, draw', seq')" and p: "ps = sim_ifd s d' seq # ps1 @ qs"
    by (auto simp: bindR_Inr_iff Let_def)
  from wrapIfls_numbered[OF assms(2) l] Cons.IH[OF r]
  have "numbered f (seq + 1) (ps1 @ qs)" "seq' = seq + 1 + of_nat (length (ps1 @ qs))" by (auto intro: numbered_append simp: add.assoc)
  with p assms(1) show ?case by (auto intro: numbered_Cons simp: add.assoc)
qed simp

lemma wraps_numbered:
  assumes "\<And>d seq. f (sim_ifd s d seq) = seq" "\<And>d start l seq. f (sim_ifl s d start l seq) = seq"
    "wraps s (draw, seq) ds n = Inr ps"
  shows "numbered f seq ps"
  using assms(3)
proof (induction n arbitrary: draw seq ds ps)
  case (Suc n)
  then obtain p1 ds1 dr1 sq1 qs where w: "wrapIfds s (draw, seq) ds = Inr (p1, ds1, dr1, sq1)" "wraps s (dr1, sq1) ds1 n = Inr qs"
    and p: "ps = p1 @ qs"
    by (auto simp: bindR_Inr_iff)
  from wrapIfds_numbered[OF assms(1,2) w(1)] Suc.IH[OF w(2)] p show ?case by (auto intro: numbered_append)
qed simp

lemma sim_text_wf:
  assumes "xkv_wf (''name'', ifd_name d)"
  shows "list_all xelem_wf (asXml (ifdElems d) @ [([], [])])" "list_all xelem_wf (asXml (iflElems d l) @ [([], [])])"
proof -
  have "xname_wf ''interfaces''" "xname_wf ''interface''" "xname_wf ''subinterfaces''" "xname_wf ''subinterface''" "xname_wf []"
    by code_simp+
  moreover have "xkv_wf (''index'', show_int (int n))" for n
  proof -
    have k: "\<forall>c \<in> set ''index''. kclass c" by code_simp
    have "\<forall>c \<in> set (show_int (int n)). dec_char c" using dec_char_show_pos[of "int n"] by (auto simp: show_int_def)
    hence "set (show_int (int n)) \<inter> {CHR ''['', CHR '']'', CHR 0x0A, CHR 0x27} = {} \<and> CHR '' '' \<notin> set (show_int (int n))"
      by (auto simp: dec_char_def)
    moreover from this have "\<not> contains '' and '' (show_int (int n))" by (auto simp: contains_iff)
    ultimately show ?thesis using k by (simp add: xkv_wf_def)
  qed
  ultimately show "list_all xelem_wf (asXml (ifdElems d) @ [([], [])])" "list_all xelem_wf (asXml (iflElems d l) @ [([], [])])"
    using assms by (simp_all add: asXml_def ifdElems_def iflElems_def xelem_wf_def)
qed

lemma prefix_xrender:
  "ifdPrefix d = xrender (asXml (ifdElems d) @ [([], [])])"
  "iflPrefix d l = xrender (asXml (iflElems d l) @ [([], [])])"
  by (simp_all add: ifdPrefix_def iflPrefix_def quoted_def xrender_def xrender_elem_def xrender_kv_def asXml_def ifdElems_def iflElems_def)

lemma xtags_snoc: "xtags P (es @ [([], [])]) = xtags P es"
  by (induction es arbitrary: P) simp_all

lemma spit_sim:
  assumes "reCompiled (influxCtx jctx)" "jalias jctx = None" "list_all xelem_wf (asXml pes @ [([], [])])"
  shows "spitTagsNPath jctx (xrender (asXml pes @ [([], [])])) = Inr (path_text pes @ ''/'', mputs [] (path_tags [] pes))"
  using assms spitLoop_render[of "asXml pes @ [([], [])]" "[]" "[]"]
  by (simp add: spitTagsNPath_def spit_def list_all_iff xtags_snoc xtags_path_tags xpath_only_path_text[symmetric])
    (simp add: xpath_only_def)

text \<open>The collector's request to the simulator.\<close>

definition keyless :: "relem list \<Rightarrow> bool" where
  "keyless es = list_all (\<lambda>e. snd e = []) es"

lemma keyless_path:
  "keyless es \<Longrightarrow> simGnmiParsePath [] (map elem_of es) None [] = Inr (render_path es, None, [])"
proof -
  assume k: "keyless es"
  hence "\<not> list_ex (\<lambda>pe. pe_Key pe \<noteq> []) (map elem_of es)" by (auto simp: keyless_def list_all_iff list_ex_iff elem_of_def mputs_def)
  moreover have "path_text (map elem_of es) = render_path es"
    using k by (induction es) (simp_all add: keyless_def path_text_def render_path_def render_elem_def elem_of_def)
  ultimately show ?thesis by (simp add: simGnmiParsePath_def simParsePath_none parsePath_fold)
qed

lemma keyed_path:
  assumes "elem_wf e" "e \<in> set es" "snd e \<noteq> []"
  shows "simGnmiParsePath [] (map elem_of es) None [] = Inl NilMapWrite"
proof -
  obtain kv kvs where "concat (snd e) = kv # kvs"
    using assms(1,3) by (cases "concat (snd e)") (auto simp: elem_wf_def neq_Nil_conv)
  hence "mget (pe_Key (elem_of e)) (fst kv) \<noteq> None"
    using gm.get_stores[of "[]" "concat (snd e)" "fst kv"] by (auto simp: elem_of_def mputs_eq_stores split: option.splits)
  hence "pe_Key (elem_of e) \<noteq> []" by auto
  with assms(2) have "list_ex (\<lambda>pe. pe_Key pe \<noteq> []) (map elem_of es)" by (auto simp: list_ex_iff)
  thus ?thesis by (simp add: simGnmiParsePath_def simParsePath_none)
qed

definition subInterval :: "PathsConfig \<Rightarrow> 64 word" where
  "subInterval p = snd (gnmiFreq (gnmiMode (p_Mode p)) (p_Freq p))"

lemma sub_of_sel: "gp_Elem (s_Path (sub_of pe)) = map elem_of (snd pe)" "s_SampleInterval (sub_of pe) = subInterval (fst pe)"
  by (simp_all add: sub_of_def subInterval_def split: prod.split)

lemma simSubscriptions_keyless:
  "list_all (\<lambda>pe. keyless (snd pe) \<and> hasPrefix ''/interfaces'' (render_path (snd pe))) pes \<Longrightarrow>
   simSubscriptions (map sub_of pes) = Inr (map (\<lambda>pe. (render_path (snd pe), subInterval (fst pe))) pes)"
  by (induction pes) (simp_all add: sub_of_sel keyless_path)

text \<open>The updates of the simulator, as the collector reads them.\<close>

lemma path_text_split: "path_text (map (\<lambda>n. \<lparr>pe_Name = n, pe_Key = []\<rparr>) ns) = (if ns = [] then [] else ''/'' @ go_join ns ''/'')"
  by (induction ns) (simp_all add: path_text_def go_join_Cons)

lemma upd_xpath_sim: "upd_xpath P (simUpdate p v) = P @ ''/'' @ p"
  by (simp add: upd_xpath_def simUpdate_def get_Elem_def path_text_split go_join_split)

lemma path_tags_sim: "path_tags P (get_Elem (u_Path (simUpdate p v))) = []"
proof -
  have "path_tags P (map (\<lambda>n. \<lparr>pe_Name = n, pe_Key = []\<rparr>) ns) = []" for ns
    by (induction ns arbitrary: P) simp_all
  thus ?thesis by (simp add: simUpdate_def get_Elem_def)
qed

definition simValue :: "bool \<Rightarrow> TypedValue \<Rightarrow> gval" where
  "simValue en v = (case v of StringVal s \<Rightarrow> VString s | UintVal u \<Rightarrow> if en then VUint64 u else VFloat64 (f64_of_int (uint u)) | _ \<Rightarrow> VNil)"

definition simple_value :: "TypedValue \<Rightarrow> bool" where
  "simple_value v = (case v of StringVal s \<Rightarrow> True | UintVal u \<Rightarrow> True | _ \<Rightarrow> False)"

definition plain_path :: "string \<Rightarrow> bool" where
  "plain_path p = list_all (\<lambda>n. n \<noteq> gGnmiJuniperHeaderFieldName \<and> n \<noteq> gGnmiJuniperPublishTsFieldName) (go_split p ''/'')"

lemma sim_update_plain: "plain_path p \<Longrightarrow> simple_value v \<Longrightarrow> plain_update (simUpdate p v) \<and> upd_val en (simUpdate p v) = Some (simValue en v)"
  by (auto simp: plain_path_def list_all_iff plain_update_def simUpdate_def upd_val_def parseVal_def simValue_def simple_value_def
      split: TypedValue.splits)

text \<open>What the collector makes of a response of the simulator.\<close>

lemma sim_updates_parse:
  assumes "list_all (\<lambda>(p, v). plain_path p \<and> simple_value v) pvs"
  shows "gnmiParseUpdates org (Some \<lparr>gp_Origin = [], gp_Target = [], gp_Elem = elems\<rparr>) (map (\<lambda>(p, v). simUpdate p v) pvs) emptyOutput en =
    Some (emptyOutput\<lparr>prefixPath := path_text elems, kvpairs := mputs [] (path_tags [] elems),
      xpaths := mputs [] (map (\<lambda>(p, v). (path_text elems @ ''/'' @ p, simValue en v)) pvs), jXpaths := None\<rparr>)"
proof -
  let ?us = "map (\<lambda>(p, v). simUpdate p v) pvs"
  have pl: "\<forall>u \<in> set ?us. plain_update u \<and> upd_val en u \<noteq> None"
    using assms sim_update_plain by (auto simp: list_all_iff)
  have vals: "map (\<lambda>u. (upd_xpath P u, the (upd_val en u))) ?us = map (\<lambda>(p, v). (P @ ''/'' @ p, simValue en v)) pvs" for P
    using assms sim_update_plain by (auto simp: list_all_iff upd_xpath_sim)
  have tags: "concat (map (\<lambda>u. path_tags P (get_Elem (u_Path u))) ?us) = []" for P
    by (auto simp: path_tags_sim)
  have loop: "updateLoop P en (kvs, [], jx, b) ?us = Some (kvs, mputs [] (map (\<lambda>(p, v). (P @ ''/'' @ p, simValue en v)) pvs), jx, b)"
    for P kvs jx b
    unfolding updateLoop_plain[OF pl] vals tags by (simp add: mputs_def)
  have "parsePrefix org (Some \<lparr>gp_Origin = [], gp_Target = [], gp_Elem = elems\<rparr>) emptyOutput = (path_text elems, mputs [] (path_tags [] elems))"
    by (simp add: parsePrefix_def gnmiParsePath_eq emptyOutput_def get_Origin_def get_Elem_def)
  thus ?thesis
    using loop by (simp add: gnmiParseUpdates_def emptyOutput_def)
qed

definition ifdLeaves :: "ifd \<Rightarrow> (string \<times> TypedValue) list" where
  "ifdLeaves d =
     [(''name'', StringVal (ifd_name d)), (''state/oper-status'', StringVal ''UP''), (''state/admin-status'', StringVal ''DOWN''),
      (''state/counters/in-pkts'', UintVal (ifd_inPkts d)), (''state/counters/in-octets'', UintVal (ifd_inOctets d))] @
     map (\<lambda>p. (p, UintVal (ifd_inOctets d))) ifdOctetPaths"

lemma ifdLeaves_ok: "list_all (\<lambda>(p, v). plain_path p \<and> simple_value v) (ifdLeaves d)"
proof -
  have "list_all plain_path ([''name'', ''state/oper-status'', ''state/admin-status'', ''state/counters/in-pkts'', ''state/counters/in-octets''] @
      ifdOctetPaths)" by code_simp
  thus ?thesis by (simp add: ifdLeaves_def list_all_iff simple_value_def)
qed

lemma ifdLeaves_keys: "distinct (map fst (ifdLeaves d))"
proof -
  have "distinct ([''name'', ''state/oper-status'', ''state/admin-status'', ''state/counters/in-pkts'', ''state/counters/in-octets''] @
      ifdOctetPaths)" by code_simp
  thus ?thesis by (simp add: ifdLeaves_def comp_def)
qed

lemma ifdLeaves_get:
  assumes "(p, v) \<in> set (ifdLeaves d)"
  shows "mget (mputs [] (map (\<lambda>(p, v). (P @ ''/'' @ p, simValue en v)) (ifdLeaves d))) (P @ ''/'' @ p) = Some (simValue en v)"
proof -
  let ?kvs = "map (\<lambda>(p, v). (P @ ''/'' @ p, simValue en v)) (ifdLeaves d)"
  have "map fst ?kvs = map (\<lambda>p. P @ ''/'' @ p) (map fst (ifdLeaves d))" by (simp add: comp_def case_prod_beta)
  hence wf: "mwf ?kvs" using ifdLeaves_keys[of d] by (simp add: mwf_def distinct_map inj_on_def)
  have "(P @ ''/'' @ p, simValue en v) \<in> set ?kvs" using assms by force
  hence "mget ?kvs (P @ ''/'' @ p) = Some (simValue en v)" using mget_mem[OF wf] by blast
  thus ?thesis unfolding mget_mputs[OF wf] by simp
qed

text \<open>The names of the time stamps are not paths of the simulator.\<close>

lemma ifdLeaves_names: "(p, v) \<in> set (ifdLeaves d) \<Longrightarrow> p \<noteq> gGnmiJtimonExportTsName \<and> p \<noteq> gGnmiJtimonProducerTsName"
proof -
  assume "(p, v) \<in> set (ifdLeaves d)"
  moreover have "list_all (\<lambda>p. p \<noteq> gGnmiJtimonExportTsName \<and> p \<noteq> gGnmiJtimonProducerTsName)
      ([''name'', ''state/oper-status'', ''state/admin-status'', ''state/counters/in-pkts'', ''state/counters/in-octets''] @ ifdOctetPaths)"
    by code_simp
  ultimately show ?thesis by (auto simp: ifdLeaves_def list_all_iff)
qed


section \<open>Properties\<close>


definition ex_desc :: IDesc where
  "ex_desc = \<lparr>d_Media = ''ge'', d_FPC = 1, d_PIC = 1, d_PORT = 2, d_Logical = 2, d_INPkts = 5, d_INOctets = 5,
     d_INUnicastPkts = 5, d_INMulticastPkts = 5\<rparr>"


text \<open>
  The packets of the native stream are numbered without gaps, from 0 on, over all rounds and modulo \<open>2 ^ 64\<close>.
\<close>

theorem streamInterfaces_numbered:
  assumes "streamInterfaces sysID clock rng random desc freq n = Inr ps"
  shows "map oc_SequenceNumber ps = map of_nat [0..<length ps]"
proof -
  obtain ds where "wraps (nativeSim sysID clock rng random desc freq) (0, 0) ds n = Inr ps"
    using assms by (auto simp: streamInterfaces_def bindR_Inr_iff)
  from wraps_numbered[OF _ _ this, of oc_SequenceNumber] show ?thesis
    by (simp add: numbered_def nativeSim_def ifdData_def iflData_def simPacket_def)
qed

theorem streamInterfaces_numbered_witness:
  "\<exists>ps. streamInterfaces ''jtisim'' (\<lambda>_. 0) (\<lambda>_ _. 0) False ex_desc 2000 1 = Inr ps \<and> map oc_SequenceNumber ps = [0, 1, 2, 3, 4, 5]"
proof -
  have "case streamInterfaces ''jtisim'' (\<lambda>_. 0) (\<lambda>_ _. 0) False ex_desc 2000 1 of Inl _ \<Rightarrow> False | Inr ps \<Rightarrow> length ps = 6" by code_simp
  then obtain ps where ps: "streamInterfaces ''jtisim'' (\<lambda>_. 0) (\<lambda>_ _. 0) False ex_desc 2000 1 = Inr ps" "length ps = 6"
    by (cases "streamInterfaces ''jtisim'' (\<lambda>_. 0) (\<lambda>_ _. 0) False ex_desc 2000 1") auto
  from streamInterfaces_numbered[OF ps(1)] ps show ?thesis by (simp add: upt_rec)
qed

text \<open>
  The collector sees the same tags in both streams of the simulator: splitting the prefix of a native packet gives the tags
  that the parser of gNMI paths makes of the prefix of the gNMI response for the same logical interface, and the same path up to
  the final slash (no aliases configured, a name the path syntax can carry).
\<close>

theorem sim_streams_agree:
  assumes "reCompiled (influxCtx jctx)" "jalias jctx = None" "xkv_wf (''name'', ifd_name d)"
  shows "\<exists>p tags. gnmiParsePath [] (iflElems d l) [] [] = (p, tags, []) \<and> spitTagsNPath jctx (iflPrefix d l) = Inr (p @ ''/'', tags)"
  using spit_sim[OF assms(1,2) sim_text_wf(2)[OF assms(3)]] by (simp add: prefix_xrender(2) gnmiParsePath_eq)

text \<open>
  The gNMI stream repeats its sequence numbers: the header of the logical interfaces of an interface is made once, before the
  loop over them, so that all their responses carry the same extension while the native packets are numbered.
\<close>

theorem gnmi_sim_repeats:
  assumes "wrapIfls (gnmiSim mar sysID clock rng random desc freq) d start (draw, seq) ls = Inr (ps, ls', st)"
  shows "map r_Extension ps = replicate (length ls)
    [\<lparr>e_Id = 1, e_Msg = mar (simHeader sysID ''sensor_1013_1_1'' ''/junos/system/linecard/interface/logical/usage/'' start)\<rparr>]"
  using assms
proof (induction ls arbitrary: draw seq ps ls')
  case (Cons l ls)
  let ?s = "gnmiSim mar sysID clock rng random desc freq"
  from Cons.prems obtain l1 ps1 ls1 where "wrapIfls ?s d start (draw + 2, seq + 1) ls = Inr (ps1, ls1, st)"
    "ps = sim_ifl ?s d start l1 seq # ps1"
    by (auto simp: bindR_Inr_iff Let_def)
  with Cons.IH show ?case by (simp add: gnmiSim_def iflRsp_def simResponse_def)
qed simp

theorem sim_streams_agree_witness:
  "\<exists>p tags. gnmiParsePath [] (iflElems (newIfd ex_desc 0 0 1) \<lparr>ifl_index = 1, ifl_inUPkts = 0, ifl_inMPkts = 0\<rparr>) [] [] = (p, tags, []) \<and>
     spitTagsNPath ex_jctx (iflPrefix (newIfd ex_desc 0 0 1) \<lparr>ifl_index = 1, ifl_inUPkts = 0, ifl_inMPkts = 0\<rparr>) = Inr (p @ ''/'', tags)"
proof -
  have c: "reCompiled (influxCtx ex_jctx)" "jalias ex_jctx = None" by (simp_all add: ex_jctx_def zero_defs)
  have "xkv_wf (''name'', ifd_name (newIfd ex_desc 0 0 1))" by code_simp
  from sim_streams_agree[OF c this] show ?thesis .
qed

text \<open>
  C29. The simulator serves the collector: for configured interface paths without keys, the request that the collector makes of
  them starts one stream per path, with the text of the path and its sample interval, and the first response is the
  synchronisation response.
\<close>

theorem sim_serves_collector:
  assumes "v_Gnmi (Vendor cfg) = Some g" "gc_Mode g = 0" "gnmiEncoding jctx = PROTO"
    and "\<forall>pe \<in> set pes. snd pe \<noteq> [] \<and> (\<forall>e \<in> set (snd pe). elem_wf e)"
    and "list_all (\<lambda>pe. keyless (snd pe) \<and> hasPrefix ''/interfaces'' (render_path (snd pe))) pes"
  shows "\<exists>req. gnmiRequest jctx cfg (map (\<lambda>pe. (fst pe)\<lparr>p_Path := render_path (snd pe)\<rparr>) pes) = Inr (Inr req) \<and>
    simSubscribe (Some req) = Inr (map (\<lambda>pe. (render_path (snd pe), subInterval (fst pe))) pes) \<and>
    serveGnmi (Some req) es = Inr (syncRsp # fst (passOn es), snd (passOn es))"
  using assms subs_render[OF assms(4)] simSubscriptions_keyless[OF assms(5)]
  by (simp add: gnmiRequest_def xPathsTognmiSubscription_def simSubscribe_def serveGnmi_def split: prod.split)

definition ex_sim_cfg :: Config where
  "ex_sim_cfg = zeroConfig\<lparr>Vendor := (Vendor zeroConfig)\<lparr>v_Gnmi := Some \<lparr>gc_Encoding = ''proto'', gc_Mode = 0\<rparr>\<rparr>\<rparr>"

definition ex_sim_path :: PathsConfig where
  "ex_sim_path = \<lparr>p_Path = [], p_Freq = 5000, p_Mode = [], p_Origin = [], p_Target = [], p_PreGnmi = False, p_Gnmi = True,
     p_Gnmi_heartbeat_interval = 0\<rparr>"

theorem sim_serves_collector_witness:
  "\<exists>req. gnmiRequest (zeroJCtx\<lparr>config := ex_sim_cfg\<rparr>) ex_sim_cfg [ex_sim_path\<lparr>p_Path := ''/interfaces/interface''\<rparr>] = Inr (Inr req) \<and>
     simSubscribe (Some req) = Inr [(''/interfaces/interface'', subInterval ex_sim_path)]"
proof -
  let ?pes = "[(ex_sim_path, [(''interfaces'', []), (''interface'', [])])] :: (PathsConfig \<times> relem list) list"
  have "\<forall>pe \<in> set ?pes. snd pe \<noteq> [] \<and> (\<forall>e \<in> set (snd pe). elem_wf e)" by (simp add: elem_wf_def)
  moreover have "list_all (\<lambda>pe. keyless (snd pe) \<and> hasPrefix ''/interfaces'' (render_path (snd pe))) ?pes"
    by (simp add: keyless_def render_path_def render_elem_def)
  ultimately show ?thesis
    using sim_serves_collector[of ex_sim_cfg "\<lparr>gc_Encoding = ''proto'', gc_Mode = 0\<rparr>" "zeroJCtx\<lparr>config := ex_sim_cfg\<rparr>" ?pes "[]"]
    by (auto simp: ex_sim_cfg_def gnmiEncoding_def render_path_def render_elem_def)
qed

text \<open>
  A path with a key crashes the simulator: for every path that the collector can send and that has a key in one of its
  elements, \<open>Subscribe\<close> panics with a write to a nil map.
\<close>

theorem sim_keyed_panics:
  assumes "\<forall>e \<in> set (snd pe). elem_wf e" "e \<in> set (snd pe)" "snd e \<noteq> []"
  shows "simSubscribe (Some \<lparr>sl_Mode = 0, sl_Encoding = PROTO, sl_Subscription = sub_of pe # subs, sl_Target = t\<rparr>) = Inl NilMapWrite"
  using keyed_path[of e "snd pe"] assms by (simp add: simSubscribe_def sub_of_sel)

theorem sim_keyed_panics_witness:
  "simSubscribe (Some \<lparr>sl_Mode = 0, sl_Encoding = PROTO,
     sl_Subscription = [sub_of (ex_sim_path, [(''interfaces'', []), (''interface'', [[(''name'', ''ge'')]])])], sl_Target = None\<rparr>) = Inl NilMapWrite"
proof (rule sim_keyed_panics[where e = "(''interface'', [[(''name'', ''ge'')]])"])
  show "\<forall>e \<in> set (snd (ex_sim_path, [(''interfaces'', []), (''interface'', [[(''name'', ''ge'')]])])). elem_wf e"
    by (simp add: elem_wf_def plain_text_def)
qed auto

text \<open>
  C10. The counters of the simulator arrive: what the collector parses from the gNMI response for an interface has the
  measurement of the subscription, the name of the interface as a tag, under each of the twenty paths the value of its leaf
  (unsigned numbers as configured), and the sequence number of the stream (the extension header is decoded as it was encoded).
\<close>

theorem sim_interface_arrives:
  assumes "hdr = simHeader sysID ''sensor_1000_1_1'' ''/junos/system/linecard/interface/'' seq" "pb_UnmarshalExt pb (mar hdr) = Some hdr"
  shows "\<exists>po. gnmiParseNotification pb org (ifdRsp mar sysID clock d seq) emptyOutput en = Inr (Inr po) \<and>
    mName po = ''/interfaces/'' \<and> mget (kvpairs po) ''/interfaces/interface/@name'' = Some (ifd_name d) \<and>
    list_all (\<lambda>(p, v). mget (xpaths po) (''/interfaces/interface/'' @ p) = Some (simValue en v)) (ifdLeaves d) \<and>
    jHeader po = Some \<lparr>jh_hdr = None, jh_hdrExt = Some hdr\<rparr> \<and> x_SequenceNumber hdr = seq"
proof -
  let ?P = "''/interfaces/interface''"
  let ?xs = "mputs [] (map (\<lambda>(p, v). (?P @ ''/'' @ p, simValue en v)) (ifdLeaves d))"
  have ptext: "path_text (ifdElems d) = ?P" by (simp add: path_text_def ifdElems_def)
  obtain n0 where n0: "r_Update (ifdRsp mar sysID clock d seq) = Some n0" by (simp add: ifdRsp_def simResponse_def)
  have us: "n_Update n0 = map (\<lambda>(p, v). simUpdate p v) (ifdLeaves d)"
    using n0 by (auto simp: ifdRsp_def simResponse_def ifdLeaves_def comp_def)
  have ne: "ifdLeaves d \<noteq> []" by (simp add: ifdLeaves_def)
  have get: "mget ?xs (?P @ ''/'' @ p) = Some (simValue en v)" if "(p, v) \<in> set (ifdLeaves d)" for p v
    using ifdLeaves_get[OF that, of ?P en] by simp
  have tag: "mget (mputs [] (path_tags [] (ifdElems d))) ''/interfaces/interface/@name'' = Some (ifd_name d)"
    by (simp add: ifdElems_def mputs_def)
  let ?po = "emptyOutput\<lparr>prefixPath := ?P, kvpairs := mputs [] (path_tags [] (ifdElems d)), xpaths := ?xs, jXpaths := None\<rparr>"
  have p: "gnmiParseUpdates org (n_Prefix n0) (n_Update n0) emptyOutput en = Some ?po"
    using sim_updates_parse[OF ifdLeaves_ok, of org "ifdElems d" d en] us ptext n0 by (auto simp: ifdRsp_def simResponse_def)
  have n: "r_Update (ifdRsp mar sysID clock d seq) = Some n0" "n_Delete n0 = []" "get_Target (n_Prefix n0) = []" "get_Origin (n_Prefix n0) = []"
    "n_Update n0 \<noteq> []" "r_Extension (ifdRsp mar sysID clock d seq) = [\<lparr>e_Id = 1, e_Msg = mar hdr\<rparr>]"
    using us ne assms(1) n0 by (auto simp: ifdRsp_def simResponse_def get_Target_def get_Origin_def)
  define po1 where "po1 = ?po\<lparr>inKvs := inKvs ?po + of_nat (length ?xs)\<rparr>"
  have nt: "gnmiParseNotification pb org (ifdRsp mar sysID clock d seq) emptyOutput en =
      gnmiParseHeader pb (ifdRsp mar sysID clock d seq) po1"
    using n p by (simp add: gnmiParseNotification_def po1_def)
  have hdr1: "formJuniperTelemetryHdr pb (jXpaths po1) (r_Extension (ifdRsp mar sysID clock d seq)) = Hdr \<lparr>jh_hdr = None, jh_hdrExt = Some hdr\<rparr>"
    using n(6) assms(2) by (simp add: formJuniperTelemetryHdr_def po1_def juniperExt_def extHdr_def)
  have sp: "x_SubscribedPath hdr = ''/interfaces/''" "x_SequenceNumber hdr = seq" using assms(1) by (simp_all add: simHeader_def)
  obtain po where po: "gnmiParseHeader pb (ifdRsp mar sysID clock d seq) po1 = Inr (Inr po)" "mName po = ''/interfaces/''"
    "kvpairs po = kvpairs po1" "jHeader po = Some \<lparr>jh_hdr = None, jh_hdrExt = Some hdr\<rparr>"
    "xpaths po = putTs ?P (n_Timestamp n0) (mput ?xs (?P @ ''/'' @ gGnmiJtimonExportTsName) (VInt64 (x_ExportTimestamp hdr)))"
    using hdr1 sp n(1) by (simp add: gnmiParseHeader_def Let_def) (simp add: po1_def)
  have "mget (xpaths po) (?P @ ''/'' @ p) = Some (simValue en v)" if "(p, v) \<in> set (ifdLeaves d)" for p v
    using get[OF that] ifdLeaves_names[OF that] unfolding po(5) by (simp add: putTs_def gDeviceTs_def)
  with nt po tag sp show ?thesis
    by (intro exI[of _ po]) (auto simp: list_all_iff po1_def)
qed

definition ex_ifd :: ifd where
  "ex_ifd = \<lparr>ifd_name = ''ge-0/0/0'', ifd_inPkts = 7, ifd_inOctets = 9, ifd_ifls = []\<rparr>"

definition ex_sim_hdr :: TelemetryHeaderExt where
  "ex_sim_hdr = simHeader ''sim'' ''sensor_1000_1_1'' ''/junos/system/linecard/interface/'' 3"

theorem sim_interface_arrives_witness:
  "\<exists>po. gnmiParseNotification (ex_pb\<lparr>pb_UnmarshalExt := \<lambda>_. Some ex_sim_hdr\<rparr>) True (ifdRsp (\<lambda>_. []) ''sim'' (\<lambda>_. 5) ex_ifd 3) emptyOutput True = Inr (Inr po) \<and>
     mget (xpaths po) ''/interfaces/interface/state/counters/in-pkts'' = Some (VUint64 7)"
proof -
  have "(''state/counters/in-pkts'', UintVal 7) \<in> set (ifdLeaves ex_ifd)" by (simp add: ifdLeaves_def ex_ifd_def)
  with sim_interface_arrives[OF ex_sim_hdr_def, of "ex_pb\<lparr>pb_UnmarshalExt := \<lambda>_. Some ex_sim_hdr\<rparr>" "\<lambda>_. []" True "\<lambda>_. 5" ex_ifd True]
  show ?thesis by (fastforce simp: list_all_iff simValue_def)
qed

end
