(* ===== verification/LpServer.thy ===== *)
theory LpServer
  imports TestData
begin

text \<open>
  The line protocol server of lpserver/lpserver.go, which stands for InfluxDB in the tests: \<open>processData\<close>, the handlers and
  the store they share.

  The first part has the handlers one after the other. The parser of the line protocol (package models of InfluxDB), whether a
  file can be created and what the JSON decoder makes of a request are parameters. An open file is a number; the list of files
  has the name, the text and whether the file is open. A write to a nil or closed file returns an error that the code does
  not look at. The second part lets the handlers run side by side, because \<open>close\<close> gives the lock back before it touches the
  store.
\<close>

section \<open>The store\<close>

record lp_file =
  lf_name :: string
  lf_text :: string
  lf_open :: bool

record lpData =
  lp_name :: string
  lp_file :: "nat option"
  lp_disk :: "lp_file list"

definition lpInit :: "lp_file list \<Rightarrow> lpData" where
  "lpInit d = \<lparr>lp_name = [], lp_file = None, lp_disk = d\<rparr>"

text \<open>\<open>os.File\<close>: the open file of the store, if there is one.\<close>

definition openFile :: "lpData \<Rightarrow> nat option" where
  "openFile st =
     (case lp_file st of
        Some i \<Rightarrow> if i < length (lp_disk st) \<and> lf_open (lp_disk st ! i) then Some i else None
      | None \<Rightarrow> None)"

definition writeString :: "string \<Rightarrow> lpData \<Rightarrow> lpData" where
  "writeString s st =
     (case openFile st of
        None \<Rightarrow> st
      | Some i \<Rightarrow> st\<lparr>lp_disk := (lp_disk st)[i := (lp_disk st ! i)\<lparr>lf_text := lf_text (lp_disk st ! i) @ s\<rparr>]\<rparr>)"

definition createFile :: "string \<Rightarrow> lpData \<Rightarrow> lpData" where
  "createFile n st =
     st\<lparr>lp_file := Some (length (lp_disk st)), lp_disk := lp_disk st @ [\<lparr>lf_name = n, lf_text = [], lf_open = True\<rparr>]\<rparr>"

text \<open>\<open>Close\<close>: \<^term>\<open>None\<close> is an error.\<close>

definition closeFile :: "lpData \<Rightarrow> lpData option" where
  "closeFile st =
     (case openFile st of
        None \<Rightarrow> None
      | Some i \<Rightarrow> Some (st\<lparr>lp_disk := (lp_disk st)[i := (lp_disk st ! i)\<lparr>lf_open := False\<rparr>]\<rparr>))"


section \<open>Points\<close>

text \<open>A parsed point: its tags in the order of the library, and its fields unless they cannot be read.\<close>

record lp_point =
  pt_Tags :: "(string \<times> string) list"
  pt_Fields :: "(string, gval) gomap option"

type_synonym lp_parser = "string \<Rightarrow> string \<Rightarrow> lp_point list option"

fun tagLines :: "nat \<Rightarrow> (string \<times> string) list \<Rightarrow> string list" where
  "tagLines i [] = []"
| "tagLines i ((k, v) # ts) = (show_int (int i) @ '' ['' @ k @ '' = '' @ v @ '']'' @ [CHR 0x0A]) # tagLines (Suc i) ts"

definition fieldLine :: "(string, gval) gomap \<Rightarrow> string \<Rightarrow> string" where
  "fieldLine flds k = ''['' @ k @ ''='' @ fmt_s (\<lambda>a. []) (fieldOf flds k) @ '']'' @ [CHR 0x0A]"

text \<open>The writes of a point, one after the other, and whether its fields could be read.\<close>

definition pointWrites :: "lp_point \<Rightarrow> string list \<times> bool" where
  "pointWrites p =
     (let hd = [''TAGS: ['' @ [CHR 0x0A]] @ tagLines 0 (pt_Tags p) @ ['']'' @ [CHR 0x0A], ''FIELDS: ['' @ [CHR 0x0A]]
      in case pt_Fields p of
           None \<Rightarrow> (hd, False)
         | Some flds \<Rightarrow> (hd @ map (fieldLine flds) (fieldKeys flds) @ ['']'' @ [CHR 0x0A]], True))"

text \<open>The writes of a request and whether \<open>processData\<close> returns no error; it stops at the first point without fields.\<close>

fun pointsWrites :: "lp_point list \<Rightarrow> string list \<times> bool" where
  "pointsWrites [] = ([], True)"
| "pointsWrites (p # ps) =
     (case pointWrites p of
        (w, False) \<Rightarrow> (w, False)
      | (w, True) \<Rightarrow> (case pointsWrites ps of (ws, ok) \<Rightarrow> (w @ ws, ok)))"

definition processData :: "lp_parser \<Rightarrow> string \<Rightarrow> string \<Rightarrow> lpData \<Rightarrow> bool \<times> lpData" where
  "processData parse precision data st =
     (if lp_name st = [] then (False, st)
      else
        case parse data precision of
          None \<Rightarrow> (False, st)
        | Some points \<Rightarrow> (case pointsWrites points of (ws, ok) \<Rightarrow> (ok, foldl (\<lambda>st w. writeString w st) st ws)))"


section \<open>Handlers\<close>

text \<open>A request whose body cannot be read, or that names no store, changes nothing.\<close>

datatype lp_request = Write string "string option" | Query "string option" | StoreOp string "string option"

datatype lp_reply = NoReply | StatusOk

definition openStore :: "(string \<Rightarrow> bool) \<Rightarrow> string \<Rightarrow> lpData \<Rightarrow> lpData" where
  "openStore creatable n st =
     (if lp_name st = [] then
        if creatable n then (createFile n st)\<lparr>lp_name := n\<rparr> else st\<lparr>lp_file := None\<rparr>
      else st)"

definition closeStore :: "lpData \<Rightarrow> lpData" where
  "closeStore st =
     (if lp_name st \<noteq> [] then
        case closeFile st of
          None \<Rightarrow> st
        | Some st' \<Rightarrow> st'\<lparr>lp_file := None, lp_name := []\<rparr>
      else st)"

definition storeHandler :: "(string \<Rightarrow> bool) \<Rightarrow> string \<Rightarrow> string option \<Rightarrow> lpData \<Rightarrow> lpData" where
  "storeHandler creatable action nm st =
     (case nm of
        None \<Rightarrow> st
      | Some n \<Rightarrow>
          if action = ''open'' then openStore creatable n st
          else if action = ''close'' then closeStore st
          else st)"

definition writeHandler :: "lp_parser \<Rightarrow> string \<Rightarrow> string option \<Rightarrow> lpData \<Rightarrow> lpData" where
  "writeHandler parse precision body st =
     (case body of None \<Rightarrow> st | Some data \<Rightarrow> snd (processData parse precision data st))"

definition queryHandler :: "string option \<Rightarrow> lp_reply" where
  "queryHandler body = (case body of None \<Rightarrow> NoReply | Some data \<Rightarrow> StatusOk)"

text \<open>The routes of \<open>StartServer\<close>.\<close>

fun lpServe :: "(string \<Rightarrow> bool) \<Rightarrow> lp_parser \<Rightarrow> lpData \<Rightarrow> lp_request \<Rightarrow> lpData \<times> lp_reply" where
  "lpServe creatable parse st (Write precision body) = (writeHandler parse precision body st, NoReply)"
| "lpServe creatable parse st (Query body) = (st, queryHandler body)"
| "lpServe creatable parse st (StoreOp action nm) = (storeHandler creatable action nm st, StatusOk)"

definition lpRun :: "(string \<Rightarrow> bool) \<Rightarrow> lp_parser \<Rightarrow> lpData \<Rightarrow> lp_request list \<Rightarrow> lpData" where
  "lpRun creatable parse st rs = foldl (\<lambda>st r. fst (lpServe creatable parse st r)) st rs"


section \<open>A session\<close>

text \<open>The store between open and close: \<open>d\<close> are the files before it, \<open>t\<close> is what was written to it.\<close>

definition session :: "lp_file list \<Rightarrow> string \<Rightarrow> string \<Rightarrow> lpData" where
  "session d n t = \<lparr>lp_name = n, lp_file = Some (length d), lp_disk = d @ [\<lparr>lf_name = n, lf_text = t, lf_open = True\<rparr>]\<rparr>"

lemma openFile_session [simp]: "openFile (session d n t) = Some (length d)"
  by (simp add: openFile_def session_def)

lemma lp_name_session [simp]: "lp_name (session d n t) = n"
  by (simp add: session_def)

lemma writeString_session [simp]: "writeString s (session d n t) = session d n (t @ s)"
  by (simp add: writeString_def) (simp add: session_def)

lemma writes_session: "foldl (\<lambda>st w. writeString w st) (session d n t) ws = session d n (t @ concat ws)"
  by (induction ws arbitrary: t) simp_all

text \<open>The text of a request: the writes of its points, or nothing when they cannot be parsed.\<close>

definition requestText :: "lp_parser \<Rightarrow> lp_request \<Rightarrow> string" where
  "requestText parse r =
     (case r of
        Write precision (Some data) \<Rightarrow>
          (case parse data precision of None \<Rightarrow> [] | Some points \<Rightarrow> concat (fst (pointsWrites points)))
      | _ \<Rightarrow> [])"

fun isClose :: "lp_request \<Rightarrow> bool" where
  "isClose (StoreOp action (Some m)) = (action = ''close'')"
| "isClose _ = False"

lemma processData_session:
  "n \<noteq> [] \<Longrightarrow> snd (processData parse p data (session d n t)) = session d n (t @ requestText parse (Write p (Some data)))"
  by (simp add: processData_def requestText_def writes_session split: option.split prod.split)

lemma serve_session:
  "n \<noteq> [] \<Longrightarrow> \<not> isClose r \<Longrightarrow> fst (lpServe creatable parse (session d n t) r) = session d n (t @ requestText parse r)"
  by (cases r)
    (auto simp: writeHandler_def processData_session requestText_def storeHandler_def openStore_def split: option.split)

lemma run_session:
  "n \<noteq> [] \<Longrightarrow> list_all (\<lambda>r. \<not> isClose r) rs \<Longrightarrow>
   lpRun creatable parse (session d n t) rs = session d n (t @ concat (map (requestText parse) rs))"
  by (induction rs arbitrary: t) (simp_all add: lpRun_def serve_session)

lemma close_session:
  "n \<noteq> [] \<Longrightarrow> closeStore (session d n t) =
     \<lparr>lp_name = [], lp_file = None, lp_disk = d @ [\<lparr>lf_name = n, lf_text = t, lf_open = False\<rparr>]\<rparr>"
  by (simp add: closeStore_def closeFile_def) (simp add: session_def)

text \<open>
  C28. What a test reads from the store is what the collector wrote: when the requests arrive one after the other, the file of a
  store holds, after \<open>open\<close>, any requests and \<open>close\<close>, exactly the points of the write requests in their order; opening
  another store meanwhile and queries have no effect, the other files are as before, and the server is ready for the next
  store.
\<close>

theorem lp_session:
  assumes "n \<noteq> []" "creatable n" "list_all (\<lambda>r. \<not> isClose r) rs"
  shows "lpRun creatable parse (lpInit d) (StoreOp ''open'' (Some n) # rs @ [StoreOp ''close'' (Some m)]) =
    lpInit (d @ [\<lparr>lf_name = n, lf_text = concat (map (requestText parse) rs), lf_open = False\<rparr>])"
proof -
  have "storeHandler creatable ''open'' (Some n) (lpInit d) = session d n []"
    using assms(2) by (simp add: storeHandler_def openStore_def createFile_def session_def lpInit_def)
  with run_session[OF assms(1,3), of creatable parse d "[]"] show ?thesis
    by (simp add: lpRun_def storeHandler_def close_session[OF assms(1)] lpInit_def)
qed

definition ex_parse :: lp_parser where
  "ex_parse data p = (if data = ''bad'' then None
     else Some [\<lparr>pt_Tags = [(''t'', data)], pt_Fields = Some [(''f'', VBool True), (gDeviceTs, VInt64 1)]\<rparr>])"

theorem lp_session_witness:
  "lpRun (\<lambda>n. True) ex_parse (lpInit []) [StoreOp ''open'' (Some ''s''), Write ''ns'' (Some ''v''), Write ''ns'' (Some ''bad''),
     StoreOp ''open'' (Some ''other''), Query None, StoreOp ''close'' (Some ''s'')] =
   lpInit [\<lparr>lf_name = ''s'', lf_text = ''TAGS: ['' @ [CHR 0x0A] @ ''0 [t = v]'' @ [CHR 0x0A] @ '']'' @ [CHR 0x0A] @ ''FIELDS: ['' @
     [CHR 0x0A] @ ''[f=%!s(bool=true)]'' @ [CHR 0x0A] @ '']'' @ [CHR 0x0A], lf_open = False\<rparr>]"
proof -
  have "concat (map (requestText ex_parse) [Write ''ns'' (Some ''v''), Write ''ns'' (Some ''bad''),
     StoreOp ''open'' (Some ''other''), Query None]) = ''TAGS: ['' @ [CHR 0x0A] @ ''0 [t = v]'' @ [CHR 0x0A] @ '']'' @ [CHR 0x0A] @
     ''FIELDS: ['' @ [CHR 0x0A] @ ''[f=%!s(bool=true)]'' @ [CHR 0x0A] @ '']'' @ [CHR 0x0A]"
    by code_simp
  with lp_session[of "''s''" "\<lambda>n. True" "[Write ''ns'' (Some ''v''), Write ''ns'' (Some ''bad''),
     StoreOp ''open'' (Some ''other''), Query None]" ex_parse "[]" "''s''"] show ?thesis by simp
qed


section \<open>Requests side by side\<close>

text \<open>
  Where a request is; the points of a write request have been parsed, and its texts are the writes of
  \<^const>\<open>pointsWrites\<close>. A write request has the lock while it writes, an open request while it makes the file and sets the name;
  a close request takes the lock and gives it back, and then looks at the name, closes the file, and sets the file and the
  name, with no lock.
\<close>

datatype lpc =
    WStart "string list" | WLoop "string list"
  | OStart string | OName string
  | CStart | CCheck | CClose | CNil | CName
  | Finished bool

record lpsys =
  sy_lock :: "nat option"
  sy_st :: lpData
  sy_pcs :: "lpc list"

definition sys_at :: "lpsys \<Rightarrow> nat \<Rightarrow> lpc \<Rightarrow> bool" where
  "sys_at s i c \<longleftrightarrow> i < length (sy_pcs s) \<and> sy_pcs s ! i = c"

definition goto :: "nat \<Rightarrow> lpc \<Rightarrow> nat option \<Rightarrow> lpData \<Rightarrow> lpsys \<Rightarrow> lpsys" where
  "goto i c l st s = \<lparr>sy_lock = l, sy_st = st, sy_pcs = (sy_pcs s)[i := c]\<rparr>"

inductive lstep :: "lpsys \<Rightarrow> lpsys \<Rightarrow> bool" where
  w_lock: "sys_at s i (WStart ws) \<Longrightarrow> sy_lock s = None \<Longrightarrow> lp_name (sy_st s) \<noteq> [] \<Longrightarrow>
    lstep s (goto i (WLoop ws) (Some i) (sy_st s) s)"
| w_refused: "sys_at s i (WStart ws) \<Longrightarrow> sy_lock s = None \<Longrightarrow> lp_name (sy_st s) = [] \<Longrightarrow>
    lstep s (goto i (Finished False) None (sy_st s) s)"
| w_write: "sys_at s i (WLoop (w # ws)) \<Longrightarrow> lstep s (goto i (WLoop ws) (sy_lock s) (writeString w (sy_st s)) s)"
| w_done: "sys_at s i (WLoop []) \<Longrightarrow> lstep s (goto i (Finished True) None (sy_st s) s)"
| o_lock: "sys_at s i (OStart n) \<Longrightarrow> sy_lock s = None \<Longrightarrow> lp_name (sy_st s) = [] \<Longrightarrow>
    lstep s (goto i (OName n) (Some i) (createFile n (sy_st s)) s)"
| o_fail: "sys_at s i (OStart n) \<Longrightarrow> sy_lock s = None \<Longrightarrow> lp_name (sy_st s) = [] \<Longrightarrow>
    lstep s (goto i (Finished True) None ((sy_st s)\<lparr>lp_file := None\<rparr>) s)"
| o_skip: "sys_at s i (OStart n) \<Longrightarrow> sy_lock s = None \<Longrightarrow> lp_name (sy_st s) \<noteq> [] \<Longrightarrow>
    lstep s (goto i (Finished True) None (sy_st s) s)"
| o_name: "sys_at s i (OName n) \<Longrightarrow> lstep s (goto i (Finished True) None ((sy_st s)\<lparr>lp_name := n\<rparr>) s)"
| c_lock: "sys_at s i CStart \<Longrightarrow> sy_lock s = None \<Longrightarrow> lstep s (goto i CCheck None (sy_st s) s)"
| c_check: "sys_at s i CCheck \<Longrightarrow> lp_name (sy_st s) \<noteq> [] \<Longrightarrow> lstep s (goto i CClose (sy_lock s) (sy_st s) s)"
| c_skip: "sys_at s i CCheck \<Longrightarrow> lp_name (sy_st s) = [] \<Longrightarrow> lstep s (goto i (Finished True) (sy_lock s) (sy_st s) s)"
| c_close: "sys_at s i CClose \<Longrightarrow> closeFile (sy_st s) = Some st \<Longrightarrow> lstep s (goto i CNil (sy_lock s) st s)"
| c_error: "sys_at s i CClose \<Longrightarrow> closeFile (sy_st s) = None \<Longrightarrow> lstep s (goto i (Finished True) (sy_lock s) (sy_st s) s)"
| c_nil: "sys_at s i CNil \<Longrightarrow> lstep s (goto i CName (sy_lock s) ((sy_st s)\<lparr>lp_file := None\<rparr>) s)"
| c_name: "sys_at s i CName \<Longrightarrow> lstep s (goto i (Finished True) (sy_lock s) ((sy_st s)\<lparr>lp_name := []\<rparr>) s)"

inductive_cases lstep_cases: "lstep s t"

text \<open>The lock: a request that holds it is the only one.\<close>

fun holds :: "lpc \<Rightarrow> bool" where
  "holds (WLoop ws) = True"
| "holds (OName n) = True"
| "holds _ = False"

definition lock_inv :: "lpsys \<Rightarrow> bool" where
  "lock_inv s \<longleftrightarrow> (\<forall>i < length (sy_pcs s). holds (sy_pcs s ! i) = (sy_lock s = Some i)) \<and>
     (\<forall>i. sy_lock s = Some i \<longrightarrow> i < length (sy_pcs s))"

lemma lock_inv_goto:
  "lock_inv s \<Longrightarrow> i < length (sy_pcs s) \<Longrightarrow>
   (sy_lock s = None \<and> l = (if holds c then Some i else None)) \<or>
   (holds (sy_pcs s ! i) \<and> l = (if holds c then sy_lock s else None)) \<or>
   (\<not> holds (sy_pcs s ! i) \<and> \<not> holds c \<and> l = sy_lock s) \<Longrightarrow> lock_inv (goto i c l st s)"
  unfolding lock_inv_def goto_def by (auto simp: nth_list_update split: if_splits)

lemma lock_inv_step: "lock_inv s \<Longrightarrow> lstep s t \<Longrightarrow> lock_inv t"
  by (erule lstep_cases; simp, rule lock_inv_goto) (auto simp: sys_at_def)

interpretation lp: step_system "\<lambda>s. sy_lock s = None \<and> list_all (\<lambda>c. \<not> holds c) (sy_pcs s)" lstep lock_inv
  by unfold_locales (auto simp: lock_inv_step, auto simp: lock_inv_def list_all_length)

text \<open>Two requests are never inside the lock together; a close request gives it back at once.\<close>

lemma lp_mutual_exclusion:
  assumes "sy_lock s = None" "list_all (\<lambda>c. \<not> holds c) (sy_pcs s)" "lstep\<^sup>*\<^sup>* s t"
    and "i < length (sy_pcs t)" "j < length (sy_pcs t)" "holds (sy_pcs t ! i)" "holds (sy_pcs t ! j)"
  shows "i = j"
  using lp.inv_reachable[of s t] assms by (auto simp: lock_inv_def)

text \<open>Write requests only: who is done, in the order of the lock, and what the one with the lock has written.\<close>

definition writers :: "lp_file list \<Rightarrow> string \<Rightarrow> string \<Rightarrow> string list list \<Rightarrow> lpsys" where
  "writers d n t reqs = \<lparr>sy_lock = None, sy_st = session d n t, sy_pcs = map WStart reqs\<rparr>"

definition doneText :: "string list list \<Rightarrow> nat list \<Rightarrow> string" where
  "doneText reqs ds = concat (map (\<lambda>i. concat (reqs ! i)) ds)"

definition progress :: "string list list \<Rightarrow> nat list \<Rightarrow> string list \<Rightarrow> lpsys \<Rightarrow> nat \<Rightarrow> bool" where
  "progress reqs ds pre s i \<longleftrightarrow>
     (i \<notin> set ds \<and> sy_pcs s ! i = WStart (reqs ! i)) \<or> (i \<in> set ds \<and> sy_pcs s ! i = Finished True) \<or>
     (i \<notin> set ds \<and> sy_lock s = Some i \<and> (\<exists>ws. sy_pcs s ! i = WLoop ws \<and> reqs ! i = pre @ ws))"

definition ser_inv :: "lp_file list \<Rightarrow> string \<Rightarrow> string \<Rightarrow> string list list \<Rightarrow> nat list \<Rightarrow> string list \<Rightarrow> lpsys \<Rightarrow> bool" where
  "ser_inv d n t reqs ds pre s \<longleftrightarrow>
     length (sy_pcs s) = length reqs \<and> distinct ds \<and> set ds \<subseteq> {..<length reqs} \<and>
     (\<forall>i < length reqs. progress reqs ds pre s i) \<and> (sy_lock s = None \<longrightarrow> pre = []) \<and>
     sy_st s = session d n (t @ doneText reqs ds @ concat pre)"

lemma ser_inv_step:
  assumes "lstep s s'" "ser_inv d n t reqs ds pre s" "n \<noteq> []"
  shows "\<exists>ds' pre'. ser_inv d n t reqs ds' pre' s'"
proof -
  have pr: "progress reqs ds pre s i \<and> sy_pcs s ! i = c \<and> lp_name (sy_st s) = n" if "sys_at s i c" for i c
    using that assms(2) by (simp add: sys_at_def ser_inv_def)
  from assms(1) show ?thesis
  proof cases
    case (w_lock i ws)
    then have "pre = []" "ws = reqs ! i" "i \<notin> set ds" using assms(2) pr[OF w_lock(2)] by (auto simp: ser_inv_def sys_at_def progress_def)
    with assms(2) w_lock have "ser_inv d n t reqs ds [] s'"
      by (auto simp: ser_inv_def goto_def progress_def nth_list_update sys_at_def)
    thus ?thesis by blast
  next
    case (w_write i w ws)
    then have "sy_lock s = Some i" "reqs ! i = pre @ w # ws" "i \<notin> set ds" "i < length reqs"
      using assms(2) pr[OF w_write(2)] by (auto simp: ser_inv_def sys_at_def progress_def)
    with assms(2) w_write have "ser_inv d n t reqs ds (pre @ [w]) s'"
      by (auto simp: ser_inv_def goto_def progress_def nth_list_update)
    thus ?thesis by blast
  next
    case (w_done i)
    then have "sy_lock s = Some i" "reqs ! i = pre" "i \<notin> set ds" "i < length reqs"
      using assms(2) pr[OF w_done(2)] by (auto simp: ser_inv_def sys_at_def progress_def)
    with assms(2) w_done have "ser_inv d n t reqs (ds @ [i]) [] s'"
      by (auto simp: ser_inv_def goto_def progress_def nth_list_update doneText_def)
    thus ?thesis by blast
  qed (use assms(3) in \<open>auto dest!: pr simp: progress_def\<close>)
qed

lemma ser_inv_run:
  assumes "lstep\<^sup>*\<^sup>* (writers d n t reqs) s" "n \<noteq> []"
  shows "\<exists>ds pre. ser_inv d n t reqs ds pre s"
  using assms(1)
proof (induction rule: rtranclp_induct)
  case base
  have "ser_inv d n t reqs [] [] (writers d n t reqs)"
    by (auto simp: ser_inv_def writers_def progress_def doneText_def)
  thus ?case by blast
next
  case (step y z)
  with ser_inv_step assms(2) show ?case by blast
qed

text \<open>
  C13. Write requests that arrive side by side are serialised: whenever none of them has the lock, the file holds what it held
  before followed by the whole text of each finished request, one after the other in some order, none of them torn or lost,
  and no request is refused while the store is open.
\<close>

theorem lp_writes_serialise:
  assumes "n \<noteq> []" "lstep\<^sup>*\<^sup>* (writers d n t reqs) s" "sy_lock s = None"
  shows "\<exists>ds. distinct ds \<and> set ds = {i. sys_at s i (Finished True)} \<and>
    sy_st s = session d n (t @ concat (map (\<lambda>i. concat (reqs ! i)) ds)) \<and> (\<nexists>i. sys_at s i (Finished False))"
proof -
  obtain ds pre where i: "ser_inv d n t reqs ds pre s" using ser_inv_run[OF assms(2,1)] by blast
  with assms(3) have "pre = []" "set ds = {i. sys_at s i (Finished True)}" "\<nexists>i. sys_at s i (Finished False)"
    by (force simp: ser_inv_def progress_def sys_at_def)+
  with i show ?thesis by (auto simp: ser_inv_def doneText_def)
qed

lemma goto_goto [simp]: "goto i c l st (goto i c' l' st' s) = goto i c l st s"
  by (simp add: goto_def)

lemma sys_at_goto [simp]: "sys_at (goto i c l st s) j c' = (if j = i then i < length (sy_pcs s) \<and> c = c' else sys_at s j c')"
  by (auto simp: sys_at_def goto_def)

lemma goto_sel [simp]: "sy_lock (goto i c l st s) = l" "sy_st (goto i c l st s) = st" "length (sy_pcs (goto i c l st s)) = length (sy_pcs s)"
  by (simp_all add: goto_def)

lemma sys_at_length: "sys_at s i c \<Longrightarrow> i < length (sy_pcs s)"
  by (simp add: sys_at_def)

text \<open>A write request with the lock can run to its end.\<close>

lemma loop_run:
  "sys_at s i (WLoop ws) \<Longrightarrow> sy_st s = session d n t \<Longrightarrow>
   lstep\<^sup>*\<^sup>* s (goto i (Finished True) None (session d n (t @ concat ws)) s)"
proof (induction ws arbitrary: s t)
  case Nil
  then show ?case using w_done[of s i] by auto
next
  case (Cons w ws)
  let ?s = "goto i (WLoop ws) (sy_lock s) (writeString w (sy_st s)) s"
  have "lstep s ?s" using Cons.prems(1) by (rule w_write)
  moreover have "lstep\<^sup>*\<^sup>* ?s (goto i (Finished True) None (session d n ((t @ w) @ concat ws)) ?s)"
    by (rule Cons.IH) (use Cons.prems sys_at_length in auto)
  ultimately show ?case by (simp add: converse_rtranclp_into_rtranclp)
qed

lemma write_run:
  assumes "sys_at s i (WStart ws)" "sy_lock s = None" "sy_st s = session d n t" "n \<noteq> []"
  shows "lstep\<^sup>*\<^sup>* s (goto i (Finished True) None (session d n (t @ concat ws)) s)"
proof -
  let ?s = "goto i (WLoop ws) (Some i) (sy_st s) s"
  have "lstep s ?s" using assms by (intro w_lock) simp_all
  moreover have "lstep\<^sup>*\<^sup>* ?s (goto i (Finished True) None (session d n (t @ concat ws)) ?s)"
    by (rule loop_run) (use assms sys_at_length in auto)
  ultimately show ?thesis by (simp add: converse_rtranclp_into_rtranclp)
qed

theorem lp_writes_serialise_witness:
  "\<exists>s ds. lstep\<^sup>*\<^sup>* (writers [] ''s'' '''' [[''a'', ''b''], [''c'']]) s \<and> sy_st s = session [] ''s'' ''cab'' \<and>
     set ds = {i. sys_at s i (Finished True)} \<and>
     sy_st s = session [] ''s'' (concat (map (\<lambda>i. concat ([[''a'', ''b''], [''c'']] ! i)) ds))"
proof -
  let ?w = "writers [] ''s'' '''' [[''a'', ''b''], [''c'']]"
  let ?s1 = "goto 1 (Finished True) None (session [] ''s'' ''c'') ?w"
  let ?s2 = "goto 0 (Finished True) None (session [] ''s'' ''cab'') ?s1"
  have "lstep\<^sup>*\<^sup>* ?w ?s1" using write_run[of ?w 1 "[''c'']" "[]" "''s''" "''''"] by (simp add: sys_at_def writers_def)
  moreover have "lstep\<^sup>*\<^sup>* ?s1 ?s2" using write_run[of ?s1 0 "[''a'', ''b'']" "[]" "''s''" "''c''"] by (simp add: writers_def) (simp add: sys_at_def)
  ultimately have r: "lstep\<^sup>*\<^sup>* ?w ?s2" by simp
  from lp_writes_serialise[OF _ r] obtain ds where "set ds = {i. sys_at ?s2 i (Finished True)}"
    "sy_st ?s2 = session [] ''s'' (concat (map (\<lambda>i. concat ([[''a'', ''b''], [''c'']] ! i)) ds))" by auto
  with r show ?thesis by (intro exI[of _ ?s2] exI[of _ ds]) simp
qed

text \<open>
  A close request does not wait for a write request: there is a run in which a write of two texts returns without error,
  the store is closed, and the file holds the first text only, because \<open>close\<close> gives the lock back before it closes the
  file.
\<close>

theorem lp_close_loses:
  assumes "n \<noteq> []"
  shows "\<exists>s. lstep\<^sup>*\<^sup>* \<lparr>sy_lock = None, sy_st = session d n t, sy_pcs = [WStart [a, b], CStart]\<rparr> s \<and>
    sy_pcs s = [Finished True, Finished True] \<and> sy_st s = lpInit (d @ [\<lparr>lf_name = n, lf_text = t @ a, lf_open = False\<rparr>])"
proof -
  define at0 where "at0 l st p q = \<lparr>sy_lock = l, sy_st = st, sy_pcs = [p, q]\<rparr>" for l st p q
  let ?c = "\<lparr>lp_name = n, lp_file = Some (length d), lp_disk = d @ [\<lparr>lf_name = n, lf_text = t @ a, lf_open = False\<rparr>]\<rparr>"
  have cl: "closeFile (session d n (t @ a)) = Some ?c" by (simp add: closeFile_def) (simp add: session_def)
  have wr: "writeString b ?c = ?c" by (simp add: writeString_def openFile_def)
  have "lstep\<^sup>*\<^sup>* (at0 None (session d n t) (WStart [a, b]) CStart) (at0 None (session d n t) (WStart [a, b]) CCheck)"
    using c_lock[of "at0 None (session d n t) (WStart [a, b]) CStart" 1] by (intro r_into_rtranclp) (simp add: at0_def sys_at_def goto_def)
  also have "lstep\<^sup>*\<^sup>* \<dots> (at0 (Some 0) (session d n t) (WLoop [a, b]) CCheck)"
    using w_lock[of "at0 None (session d n t) (WStart [a, b]) CCheck" 0] assms by (intro r_into_rtranclp) (simp add: at0_def sys_at_def goto_def)
  also have "lstep\<^sup>*\<^sup>* \<dots> (at0 (Some 0) (session d n (t @ a)) (WLoop [b]) CCheck)"
    using w_write[of "at0 (Some 0) (session d n t) (WLoop [a, b]) CCheck" 0] by (intro r_into_rtranclp) (simp add: at0_def sys_at_def goto_def)
  also have "lstep\<^sup>*\<^sup>* \<dots> (at0 (Some 0) (session d n (t @ a)) (WLoop [b]) CClose)"
    using c_check[of "at0 (Some 0) (session d n (t @ a)) (WLoop [b]) CCheck" 1] assms by (intro r_into_rtranclp) (simp add: at0_def sys_at_def goto_def)
  also have "lstep\<^sup>*\<^sup>* \<dots> (at0 (Some 0) ?c (WLoop [b]) CNil)"
    using c_close[of "at0 (Some 0) (session d n (t @ a)) (WLoop [b]) CClose" 1] cl by (intro r_into_rtranclp) (simp add: at0_def sys_at_def goto_def)
  also have "lstep\<^sup>*\<^sup>* \<dots> (at0 (Some 0) ?c (WLoop []) CNil)"
    using w_write[of "at0 (Some 0) ?c (WLoop [b]) CNil" 0] wr by (intro r_into_rtranclp) (simp add: at0_def sys_at_def goto_def)
  also have "lstep\<^sup>*\<^sup>* \<dots> (at0 None ?c (Finished True) CNil)"
    using w_done[of "at0 (Some 0) ?c (WLoop []) CNil" 0] by (intro r_into_rtranclp) (simp add: at0_def sys_at_def goto_def)
  also have "lstep\<^sup>*\<^sup>* \<dots> (at0 None (?c\<lparr>lp_file := None\<rparr>) (Finished True) CName)"
    using c_nil[of "at0 None ?c (Finished True) CNil" 1] by (intro r_into_rtranclp) (simp add: at0_def sys_at_def goto_def)
  also have "lstep\<^sup>*\<^sup>* \<dots> (at0 None (lpInit (lp_disk ?c)) (Finished True) (Finished True))"
    using c_name[of "at0 None (?c\<lparr>lp_file := None\<rparr>) (Finished True) CName" 1] by (intro r_into_rtranclp) (simp add: at0_def sys_at_def goto_def lpInit_def)
  finally show ?thesis
    by (intro exI[of _ "at0 None (lpInit (lp_disk ?c)) (Finished True) (Finished True)"])
      (simp add: at0_def)
qed

theorem lp_close_loses_witness:
  "\<exists>s. lstep\<^sup>*\<^sup>* \<lparr>sy_lock = None, sy_st = session [] ''s'' '''', sy_pcs = [WStart [''x'', ''y''], CStart]\<rparr> s \<and>
     sys_at s 0 (Finished True) \<and> sy_st s = lpInit [\<lparr>lf_name = ''s'', lf_text = ''x'', lf_open = False\<rparr>]"
  using lp_close_loses[of "''s''" "[]" "''''" "''x''" "''y''"] by (auto simp: sys_at_def)

section \<open>Every request is answered\<close>

fun pcRank :: "lpc \<Rightarrow> nat" where
  "pcRank (WStart ws) = length ws + 2"
| "pcRank (WLoop ws) = length ws + 1"
| "pcRank (OStart n) = 2"
| "pcRank (OName n) = 1"
| "pcRank CStart = 5"
| "pcRank CCheck = 4"
| "pcRank CClose = 3"
| "pcRank CNil = 2"
| "pcRank CName = 1"
| "pcRank (Finished b) = 0"

definition lrank :: "(lpsys \<times> lpsys) set" where
  "lrank = measure (\<lambda>s. sum_list (map pcRank (sy_pcs s)))"

lemma goto_rank: "i < length (sy_pcs s) \<Longrightarrow> pcRank c < pcRank (sy_pcs s ! i) \<Longrightarrow> (goto i c l st s, s) \<in> lrank"
  using member_le_sum_list[of "pcRank (sy_pcs s ! i)" "map pcRank (sy_pcs s)"]
  by (simp add: lrank_def goto_def map_update sum_list_update)

lemma lstep_rank: "lstep s t \<Longrightarrow> (t, s) \<in> lrank"
  by (erule lstep_cases) (auto simp: sys_at_def intro!: goto_rank)

interpretation lt: terminating_system "\<lambda>s. sy_lock s = None \<and> list_all (\<lambda>c. \<not> holds c) (sy_pcs s)" lstep lock_inv lstep lrank
  by unfold_locales (auto simp: lstep_rank, simp add: lrank_def)

text \<open>The request with the lock can go on; when nobody has it, every unfinished request can.\<close>

lemma holder_steps:
  assumes "sys_at s i c" "holds c"
  shows "\<exists>t. lstep s t"
proof (cases c)
  case (WLoop ws)
  with assms show ?thesis using w_done[of s i] w_write[of s i] by (cases ws) blast+
next
  case (OName n)
  with assms show ?thesis using o_name by blast
qed (use assms in simp_all)

lemma free_steps:
  assumes "sys_at s i c" "sy_lock s = None" "\<not> holds c" "\<And>b. c \<noteq> Finished b"
  shows "\<exists>t. lstep s t"
  using assms
  by (cases c) (blast intro: w_lock w_refused o_lock o_skip c_lock c_check c_skip c_nil c_name,
    simp_all, (metis w_lock w_refused o_lock o_skip c_lock c_check c_skip c_close c_error c_nil c_name not_None_eq)+)

definition answered :: "lpsys \<Rightarrow> bool" where
  "answered s \<longleftrightarrow> list_all (\<lambda>c. \<exists>b. c = Finished b) (sy_pcs s)"

lemma lstep_stuck:
  assumes "lock_inv s" "\<nexists>t. lstep s t"
  shows "answered s"
proof -
  have "sy_lock s \<noteq> Some i" for i
    using assms holder_steps[of s i "sy_pcs s ! i"] by (metis lock_inv_def sys_at_def)
  then have l: "sy_lock s = None" by (cases "sy_lock s") auto
  then have "\<exists>b. sy_pcs s ! i = Finished b" if "i < length (sy_pcs s)" for i
    using assms that free_steps[of s i "sy_pcs s ! i"] by (auto simp: lock_inv_def sys_at_def)
  thus ?thesis by (simp add: answered_def list_all_length)
qed

text \<open>
  C39. Every request is answered, whatever the others do: from any start with the lock free no run of the handlers is infinite,
  a run stops only when all requests are finished, so that no request waits for the lock for good, and such an end exists.
\<close>

theorem lp_all_answered:
  assumes "sy_lock s = None" "list_all (\<lambda>c. \<not> holds c) (sy_pcs s)"
  shows "wf {(u, t). lstep\<^sup>*\<^sup>* s t \<and> lstep t u} \<and> {t. lstep\<^sup>*\<^sup>* s t \<and> (\<nexists>u. lstep t u)} \<subseteq> {t. answered t} \<and>
    (\<exists>t. lstep\<^sup>*\<^sup>* s t \<and> answered t)"
proof (intro conjI)
  show "wf {(u, t). lstep\<^sup>*\<^sup>* s t \<and> lstep t u}" using assms by (intro lt.work_terminates) simp
  show stuck: "{t. lstep\<^sup>*\<^sup>* s t \<and> (\<nexists>u. lstep t u)} \<subseteq> {t. answered t}"
    using lp.inv_reachable[of s] assms lstep_stuck by blast
  show "\<exists>t. lstep\<^sup>*\<^sup>* s t \<and> answered t"
    using lt.work_ends_reachable[of s s] assms stuck by blast
qed

theorem lp_all_answered_witness:
  "\<exists>t. lstep\<^sup>*\<^sup>* \<lparr>sy_lock = None, sy_st = lpInit [], sy_pcs = [OStart ''s'', WStart [''x''], CStart, CStart]\<rparr> t \<and> answered t"
  using lp_all_answered[of "\<lparr>sy_lock = None, sy_st = lpInit [], sy_pcs = [OStart ''s'', WStart [''x''], CStart, CStart]\<rparr>"]
  by simp

end
