(* ===== verification/Spec2Isabelle.thy ===== *)
theory Spec2Isabelle
  imports Program CiscoXR Stats Sim LpServer
begin

text \<open>
  JTIMON is a telemetry collector: it subscribes to devices over gRPC (gNMI, the native Juniper telemetry, or
  Cisco IOS XR), turns what they stream into points and metrics, and hands these to InfluxDB, Prometheus and Kafka. This
  development models the Go sources of the collector (the files directly under src/, the device simulator under src/jtisim/ and the
  line protocol server under src/lpserver/, which the tests run against) and proves what the parts promise and how they work
  together.

  \<^bold>\<open>Parts and theories.\<close>
  \<^item> \<open>Prelude\<close>: panics as a sum type, Go strings and maps, the locales \<open>go_map\<close>, \<open>step_system\<close> and \<open>terminating_system\<close>.
  \<^item> \<open>Values\<close>: floating point numbers as bit patterns, \<open>checkAndCeilFloatValues\<close> (influx.go), \<open>convertToString\<close> (defaults.go).
  \<^item> \<open>Context\<close>: the run-time context \<open>JCtx\<close> (workers.go), the configuration records (config.go, influx.go,
    kafka-publish.go, internal_jtimon.go), the command line flags and their zero values.
  \<^item> \<open>GnmiPath\<close>, \<open>Json\<close>, \<open>GnmiParse\<close>: gnmi_utils.go and the parsing half of subscribe_gnmi.go: from configured paths to
    subscriptions, and from notifications to paths, tags and values.
  \<^item> \<open>XPath\<close>, \<open>Influx\<close>, \<open>InfluxBatch\<close>: alias.go, defaults.go and influx.go: splitting of native paths, rows and points of a
    packet, the accumulator and the two batch writers.
  \<^item> \<open>Prom\<close>: prometheus_exporter.go and \<open>publishToPrometheus\<close>.
  \<^item> \<open>GnmiHandle\<close>: \<open>gnmiHandleResponse\<close> and \<open>subscribegNMI\<close> of subscribe_gnmi.go; \<open>InternalLog\<close>: the data log of responses
    (internal_jtimon.go).
  \<^item> \<open>Configuration\<close>: config.go, logs.go, kafka-publish.go: reading the configuration, SIGHUP, and the resources opened for it.
  \<^item> \<open>Junos\<close>: subscribe_juniper_junos.go and multi_vendor.go; \<open>CiscoXR\<close>: subscribe_cisco_iosxr.go.
  \<^item> \<open>Stats\<close>: statshandler.go.
  \<^item> \<open>Connect\<close>: grpc.go and the connection loops of workers.go (\<open>work\<close>, \<open>workTunnel\<close>); \<open>Worker\<close>: the goroutine of a
    worker and the table of the workers; \<open>Manager\<close>: the signal handler and the workers running side by side.
  \<^item> \<open>Dialout\<close>: dialout.go, the server devices dial in to; \<open>Consumer\<close>: kafka_consumer.go.
  \<^item> \<open>Program\<close>: main.go with its modes, and what it starts: \<open>startDialOutServer\<close> and \<open>populateAllConfig\<close> of dialout.go, the
    consumer group of kafka_consumer.go, the channel of signals of workers.go.
  \<^item> \<open>Sim\<close>: the device simulator under jtisim/, with its two servers; \<open>SimGnmi\<close>: its copy of the gNMI utilities.
  \<^item> \<open>LpServer\<close>: lpserver/lpserver.go, the store of the tests; \<open>TestData\<close>: testutils.go and the verbs of package fmt.

  \<^bold>\<open>How the code is rendered.\<close> A struct is a record, an enumeration a datatype, a fixed-width integer a word. A function
  that changes a struct through a pointer takes and returns the record. A panic is \<^term>\<open>Inl\<close> of the outer sum, a returned
  error an option or an inner sum. A Go map is an association list with distinct keys whose order is that of one
  iteration. What a stream receives is a list of events; a select statement over several channels is a list of
  what it meets in order. Where goroutines interleave and it matters, there is a step relation: \<open>gstep\<close> for a goroutine per
  response, \<open>mstep\<close> for the signal handler and the workers, \<open>lstep\<close> for the requests of the line protocol server. Names of
  operations are those of the code; a helper that stands for a loop or a branch of a function has the name of the function's part it renders.

  \<^bold>\<open>Parameters.\<close> Code outside the sources is an argument: the InfluxDB client (\<open>influx_lib\<close>), the protocol buffer runtime
  (\<open>pb_lib\<close>), files, certificates, the JSON decoder of configurations and the Kafka library (\<open>env\<close>), the network
  (\<open>gnmi_net\<close>, \<open>junos_net\<close>, \<open>xr_net\<close>, \<open>attempt\<close>), clocks, and the encoders of messages. Where a property relies on them it says so
  in a hypothesis, and its witness gives an instance.

  \<^bold>\<open>What is shown.\<close>
  \<^item> Delivery: a gNMI response, a native packet and a Cisco message each reach the database writer completely; the
    writers lose, repeat and reorder nothing; the exporter shows the latest value of every metric once.
  \<^item> Paths: the parsers invert the rendered forms; the gNMI and the native way of making tags agree.
  \<^item> Control: the connection loop reports its end once, a worker leaves the wait group once, the wait group counts the
    live workers in every interleaving, a SIGHUP leaves exactly the configured workers, and a configuration that is
    re-read without changes changes nothing. The work of the manager ends after finitely many steps between two signals.
  \<^item> Dial-out: the state of the server stays well formed; a device is served with the configuration published last; from the
    worker that publishes to the consumer that writes, the responses arrive in order.
  \<^item> Simulator: its requests, paths, notifications and counters are those the collector makes and reads, up to the differences
    between the two versions of the gNMI utilities.
  \<^item> Tests: packets of the test data are read back as written, points do not depend on the order of maps, and the store holds what
    was written between open and close; write requests side by side are serialised and every request is answered.
  \<^item> Errors: the panics, lost data and blocked states the code can reach, each as a theorem with a concrete instance.

  \<^bold>\<open>Bounds.\<close> No fuel is used: every recursion is structural or has a measure, and an endless loop of the code is a
  recursion over the list of the events it meets, so that a property about all lists covers every run.

  \<^bold>\<open>Not modelled.\<close> The HTTP endpoints of the exporter and of the profiler and the parser of the command line, which only call
  libraries; the trivial methods of the tunnel connection (\<open>Conn\<close> in workers.go) and of the statistics handler that return their
  argument; the query helpers of the InfluxDB client (\<open>queryIDB\<close>, \<open>closeInfluxClient\<close>), whose results go to the log; log texts
  other than the data logs, the statistics and the verbose log of Cisco messages; and generated and third-party code. Strings are
  ASCII where regular expressions and letter classes look at them.
\<close>


section \<open>Dial-out from end to end\<close>

text \<open>
  C6. Dial-out from end to end: the configuration a worker publishes reaches the terminator, which serves the device
  with it and forwards its responses, and the consumer of the data topic handles these responses exactly as they would be handled in
  order by a context with the published configuration, under the name of its database (the encodings are inverted by
  the decoders, and every response prints as something).
\<close>

theorem dialout_end_to_end:
  assumes "server_wf s"
    and "req = getDialOutRequest js myName jctx"
    and "um (mar req) = (req, True)" and "accepted um sv [] (mar req)"
    and "consumePartition um sv [] s (msgs @ [mar req]) = Inr (Some (Inr s1))"
    and "\<And>r. ptext r \<noteq> []"
    and "DialOutSubscriber ptext (\<lambda>_. True) s1 (Host (config jctx)) (First (Some r0)) evs = Inr (s2, sl, ms, res)"
    and "dev_rsps (withInitial r0 evs) \<noteq> []"
    and "influxInit (ce_env ce) (zeroJCtx\<lparr>config := cfgOf (dr_Context req)\<rparr>) = Inr j"
    and "handleRsps ce j (dev_rsps (withInitial r0 evs)) = Inr (j', metrics)"
  shows "\<exists>h. ConsumeClaim ce (\<lambda>m. (km_Context m, [km_Response m])) cfgOf Setup ms = Inr (h, metrics) \<and>
    mget h (i_Dbname (Influx (cfgOf (dr_Context req)))) = Some j'"
proof -
  have d: "dr_Device req = Host (config jctx)" using assms(2) by (simp add: getDialOutRequest_def Let_def)
  have "ms = map (data_msg (dr_Device req) (dr_Context req)) (dev_rsps (withInitial r0 evs))"
    using DialOutSubscriber_latest[OF assms(1,5,4,3) assms(7)[folded d]] assms(6) by simp
  moreover have "list_all (\<lambda>r. (\<lambda>m. (km_Context m, [km_Response m])) (data_msg (dr_Device req) (dr_Context req) r) = (dr_Context req, [r]))
      (dev_rsps (withInitial r0 evs))"
    by (simp add: data_msg_def list_all_iff)
  ultimately show ?thesis
    using ConsumeClaim_fresh[where um = "\<lambda>m. (km_Context m, [km_Response m])" and cfgOf = cfgOf and ctx = "dr_Context req"
        and enc = "data_msg (dr_Device req) (dr_Context req)", OF _ assms(8) assms(9,10)] by simp
qed

definition ex_dial_jctx :: JCtx where
  "ex_dial_jctx = zeroJCtx\<lparr>config := zeroConfig\<lparr>Host := ''r1'', Paths := [ex_gnmi_path]\<rparr>\<rparr>"

definition ex_dial_req :: DialOutRequest where
  "ex_dial_req = getDialOutRequest Host None ex_dial_jctx"

definition ex_dial_server :: dialoutServerT where
  "ex_dial_server = (case consumePartition (\<lambda>_. (ex_dial_req, True)) True [] (newDialOutServer []) [''m''] of
     Inr (Some (Inr s)) \<Rightarrow> s | _ \<Rightarrow> newDialOutServer [])"

lemma ex_dial_consume:
  "consumePartition (\<lambda>_. (ex_dial_req, True)) True [] (newDialOutServer []) ([] @ [''m'']) = Inr (Some (Inr ex_dial_server))"
  by code_simp

lemma ex_dial_serve:
  "\<exists>s2 sl ms res. DialOutSubscriber (\<lambda>_. ''x'') (\<lambda>_. True) ex_dial_server ''r1'' (First (Some ex_sync)) [DevEOF] = Inr (s2, sl, ms, res)"
proof -
  have "case DialOutSubscriber (\<lambda>_. ''x'') (\<lambda>_. True) ex_dial_server ''r1'' (First (Some ex_sync)) [DevEOF] of Inl _ \<Rightarrow> False | Inr _ \<Rightarrow> True"
    by code_simp
  thus ?thesis
    by (cases "DialOutSubscriber (\<lambda>_. ''x'') (\<lambda>_. True) ex_dial_server ''r1'' (First (Some ex_sync)) [DevEOF]") auto
qed

theorem dialout_end_to_end_witness:
  "\<exists>s2 sl ms res h j. DialOutSubscriber (\<lambda>_. ''x'') (\<lambda>_. True) ex_dial_server ''r1'' (First (Some ex_sync)) [DevEOF] = Inr (s2, sl, ms, res) \<and>
     ConsumeClaim ex_consumer (\<lambda>m. (km_Context m, [km_Response m])) ex_dbcfg Setup ms = Inr (h, []) \<and>
     mget h ''r1'' = Some j \<and> receivedSyncRsp j"
proof -
  let ?j = "zeroJCtx\<lparr>config := ex_dbcfg ''r1'', influxCtx := zeroInfluxCtx\<lparr>reCompiled := True\<rparr>\<rparr>"
  obtain s2 sl ms res where d: "DialOutSubscriber (\<lambda>_. ''x'') (\<lambda>_. True) ex_dial_server ''r1'' (First (Some ex_sync)) [DevEOF] = Inr (s2, sl, ms, res)"
    using ex_dial_serve by blast
  have h: "Host (config ex_dial_jctx) = ''r1''" and c: "dr_Context ex_dial_req = ''r1''"
    by (simp_all add: ex_dial_jctx_def ex_dial_req_def getDialOutRequest_def zero_defs)
  have a: "accepted (\<lambda>_. (ex_dial_req, True)) True [] ''m''" by code_simp
  have i: "influxInit (ce_env ex_consumer) (zeroJCtx\<lparr>config := ex_dbcfg (dr_Context ex_dial_req)\<rparr>) = Inr ?j"
    unfolding c by (rule ex_influxInit)
  have r: "handleRsps ex_consumer ?j (dev_rsps (withInitial ex_sync [DevEOF])) = Inr (?j\<lparr>receivedSyncRsp := True\<rparr>, [])"
    by (simp add: gnmiHandleResponse_def ex_sync_def ex_consumer_def updateStats_def zero_defs)
  have "\<exists>h. ConsumeClaim ex_consumer (\<lambda>m. (km_Context m, [km_Response m])) ex_dbcfg Setup ms = Inr (h, []) \<and>
    mget h (i_Dbname (Influx (ex_dbcfg (dr_Context ex_dial_req)))) = Some (?j\<lparr>receivedSyncRsp := True\<rparr>)"
    by (rule dialout_end_to_end[where mar = "\<lambda>_. ''m''" and cfgOf = ex_dbcfg, OF server_wf_new ex_dial_req_def _ a ex_dial_consume _ d[folded h] _ i r]) simp_all
  with d show ?thesis by (auto simp: c ex_dbcfg_def)
qed

end
